(* ===== verification/Prelude.thy ===== *)
theory Prelude
  imports Main "HOL-Library.Multiset" "HOL-Library.Word"
begin

text \<open>
  Shared vocabulary of the development.  Rust's \<open>Result\<close> is a sum with the error on
  the left, \<open>?\<close> is \<^term>\<open>rbind\<close>, and the saturating integer operations are written
  out on natural numbers with the width as an explicit bound.  The theory also holds the
  generic notions every stateful component uses: reachability of a step relation and the
  interface locale \<open>safety\<close> (an inductive invariant of a step relation).
\<close>

section \<open>Results\<close>

type_synonym ('e, 'a) result = "'e + 'a"

abbreviation Err :: "'e \<Rightarrow> ('e, 'a) result" where
  "Err \<equiv> Inl"

abbreviation Ok :: "'a \<Rightarrow> ('e, 'a) result" where
  "Ok \<equiv> Inr"

named_theorems result_simps \<open>equations that take apart a result computation\<close>

fun rbind :: "('e, 'a) result \<Rightarrow> ('a \<Rightarrow> ('e, 'b) result) \<Rightarrow> ('e, 'b) result" where
  "rbind (Inl e) f = Inl e"
| "rbind (Inr x) f = f x"

fun map_err :: "('e \<Rightarrow> 'f) \<Rightarrow> ('e, 'a) result \<Rightarrow> ('f, 'a) result" where
  "map_err f (Inl e) = Inl (f e)"
| "map_err f (Inr x) = Inr x"

fun ok_or :: "'e \<Rightarrow> 'a option \<Rightarrow> ('e, 'a) result" where
  "ok_or e None = Inl e"
| "ok_or e (Some x) = Inr x"

fun is_ok :: "('e, 'a) result \<Rightarrow> bool" where
  "is_ok (Inl e) = False"
| "is_ok (Inr x) = True"

definition ensure :: "bool \<Rightarrow> 'e \<Rightarrow> ('e, unit) result" where
  "ensure b e = (if b then Inr () else Inl e)"

text \<open>\<open>iter.map(f).collect::<Result<Vec<_>, _>>()\<close>: the first error ends the loop.\<close>

fun traverse :: "('a \<Rightarrow> ('e, 'b) result) \<Rightarrow> 'a list \<Rightarrow> ('e, 'b list) result" where
  "traverse f [] = Inr []"
| "traverse f (x # xs) = rbind (f x) (\<lambda>y. rbind (traverse f xs) (\<lambda>ys. Inr (y # ys)))"

lemma rbind_eq_Inr [result_simps]: "rbind r f = Inr y \<longleftrightarrow> (\<exists>x. r = Inr x \<and> f x = Inr y)"
  by (cases r) auto

lemma rbind_eq_Inl [result_simps]:
  "rbind r f = Inl e \<longleftrightarrow> r = Inl e \<or> (\<exists>x. r = Inr x \<and> f x = Inl e)"
  by (cases r) auto

lemma map_err_eq_Inr [simp]: "map_err f r = Inr x \<longleftrightarrow> r = Inr x"
  by (cases r) auto

lemma ok_or_eq_Inr [simp]: "ok_or e r = Inr x \<longleftrightarrow> r = Some x"
  by (cases r) auto

lemma map_err_eq_Inl: "map_err h r = Inl e \<longleftrightarrow> (\<exists>x. r = Inl x \<and> e = h x)"
  by (cases r) auto

lemma ok_or_eq_Inl [simp]: "ok_or e r = Inl e' \<longleftrightarrow> r = None \<and> e' = e"
  by (cases r) auto

lemma ensure_eq_Inr [simp]: "ensure b e = Inr u \<longleftrightarrow> b"
  by (auto simp: ensure_def)

lemma ensure_eq_Inl [simp]: "ensure b e = Inl e' \<longleftrightarrow> \<not> b \<and> e' = e"
  by (auto simp: ensure_def)

lemma is_ok_iff: "is_ok r \<longleftrightarrow> (\<exists>x. r = Inr x)"
  by (cases r) auto

lemma traverse_Inr_length: "traverse f xs = Inr ys \<Longrightarrow> length ys = length xs"
  by (induction xs arbitrary: ys) (auto simp: result_simps)

lemma traverse_Inr_iff:
  "traverse f xs = Inr ys \<longleftrightarrow> list_all2 (\<lambda>x y. f x = Inr y) xs ys"
  by (induction xs arbitrary: ys) (auto simp: result_simps list_all2_Cons1)

lemma traverse_pure: "traverse (\<lambda>x. Inr (g x)) xs = Inr (map g xs)"
  by (induction xs) auto

section \<open>Fallible computations on a mutable state\<close>

text \<open>
  A method that takes \<open>&mut self\<close> and returns a \<open>Result\<close> maps a state to the new state and
  the result.  An error leaves the state as the statements before it made it.
\<close>

type_synonym ('s, 'e, 'a) sr = "'s \<Rightarrow> 's \<times> ('e, 'a) result"

named_theorems sr_simps \<open>definitions of the state and result combinators\<close>

definition sr_return :: "'a \<Rightarrow> ('s, 'e, 'a) sr" where
  [sr_simps]: "sr_return x s = (s, Ok x)"

definition sr_fail :: "'e \<Rightarrow> ('s, 'e, 'a) sr" where
  [sr_simps]: "sr_fail e s = (s, Err e)"

definition sr_lift :: "('e, 'a) result \<Rightarrow> ('s, 'e, 'a) sr" where
  [sr_simps]: "sr_lift r s = (s, r)"

definition sr_gets :: "('s \<Rightarrow> 'a) \<Rightarrow> ('s, 'e, 'a) sr" where
  [sr_simps]: "sr_gets f s = (s, Ok (f s))"

definition sr_modify :: "('s \<Rightarrow> 's) \<Rightarrow> ('s, 'e, unit) sr" where
  [sr_simps]: "sr_modify f s = (f s, Ok ())"

definition sr_bind :: "('s, 'e, 'a) sr \<Rightarrow> ('a \<Rightarrow> ('s, 'e, 'b) sr) \<Rightarrow> ('s, 'e, 'b) sr" where
  "sr_bind m f s = (case m s of (s', Inl e) \<Rightarrow> (s', Inl e) | (s', Inr x) \<Rightarrow> f x s')"

definition sr_map_err :: "('e \<Rightarrow> 'f) \<Rightarrow> ('s, 'e, 'a) sr \<Rightarrow> ('s, 'f, 'a) sr" where
  [sr_simps]: "sr_map_err f m s = (case m s of (s', r) \<Rightarrow> (s', map_err f r))"

lemma sr_bind_return [sr_simps]: "sr_bind (sr_return x) f s = f x s"
  "sr_bind (sr_fail e) f s = (s, Err e)"
  "sr_bind (sr_lift (Inr x)) f s = f x s"
  "sr_bind (sr_lift (Inl e)) f s = (s, Err e)"
  by (simp_all add: sr_bind_def sr_return_def sr_fail_def sr_lift_def)

lemma sr_bind_gets [sr_simps]: "sr_bind (sr_gets g) f s = f (g s) s"
  by (simp add: sr_bind_def sr_gets_def)

lemma sr_bind_modify [sr_simps]: "sr_bind (sr_modify h) f s = f () (h s)"
  by (simp add: sr_bind_def sr_modify_def)

lemma sr_bind_cases:
  "sr_bind m f s = (s', Inr y) \<longleftrightarrow> (\<exists>t x. m s = (t, Inr x) \<and> f x t = (s', Inr y))"
  by (auto simp: sr_bind_def split: prod.splits sum.splits)

section \<open>Fixed-width unsigned arithmetic on naturals\<close>

definition u64_max :: nat where
  "u64_max = 2 ^ 64 - 1"

definition sat_add64 :: "nat \<Rightarrow> nat \<Rightarrow> nat" where
  "sat_add64 a b = min (a + b) u64_max"

lemma sat_add64_le [simp]: "sat_add64 a b \<le> u64_max"
  by (simp add: sat_add64_def)

lemma sat_add64_mono: "a \<le> a' \<Longrightarrow> b \<le> b' \<Longrightarrow> sat_add64 a b \<le> sat_add64 a' b'"
  by (auto simp: sat_add64_def)

section \<open>Runs and reachability\<close>

inductive reach :: "('s \<Rightarrow> bool) \<Rightarrow> ('s \<Rightarrow> 's \<Rightarrow> bool) \<Rightarrow> 's \<Rightarrow> bool"
  for init step where
  reach_init: "init s \<Longrightarrow> reach init step s"
| reach_step: "reach init step s \<Longrightarrow> step s t \<Longrightarrow> reach init step t"

text \<open>An invariant of a component: true at the start and kept by every step.\<close>

locale safety =
  fixes init :: "'s \<Rightarrow> bool"
    and step :: "'s \<Rightarrow> 's \<Rightarrow> bool"
    and inv :: "'s \<Rightarrow> bool"
  assumes init_inv: "init s \<Longrightarrow> inv s"
    and step_inv: "inv s \<Longrightarrow> step s t \<Longrightarrow> inv t"
begin

lemma reach_inv: "reach init step s \<Longrightarrow> inv s"
  by (induction rule: reach.induct) (auto intro: init_inv step_inv)

lemma steps_inv: "inv s \<Longrightarrow> step\<^sup>*\<^sup>* s t \<Longrightarrow> inv t"
  by (rotate_tac 1, induction rule: rtranclp_induct) (auto intro: step_inv)

end

text \<open>A component that implements an abstract machine: every step is none or some of its steps.\<close>

locale simulation = safety +
  fixes abs :: "'a \<Rightarrow> 'b"
    and astep :: "'b \<Rightarrow> 'b \<Rightarrow> bool"
  assumes sim: "inv s \<Longrightarrow> step s t \<Longrightarrow> astep\<^sup>*\<^sup>* (abs s) (abs t)"
begin

lemma sim_steps: "step\<^sup>*\<^sup>* s t \<Longrightarrow> inv s \<Longrightarrow> astep\<^sup>*\<^sup>* (abs s) (abs t)"
proof (induction rule: rtranclp_induct)
  case (step t u)
  have "inv t" using steps_inv [OF step.prems step.hyps(1)] .
  with step show ?case using sim by (meson rtranclp_trans)
qed simp

lemma sim_reach: "reach init step s \<Longrightarrow> \<exists>r. init r \<and> astep\<^sup>*\<^sup>* (abs r) (abs s)"
  by (induction rule: reach.induct) (auto dest: reach_inv sim intro: rtranclp_trans)

end

section \<open>Lists\<close>

lemma list_all2_map_self: "list_all2 (\<lambda>x y. y = f x) xs ys \<longleftrightarrow> ys = map f xs"
  by (induction xs arbitrary: ys) (auto simp: list_all2_Cons1)

lemma dropWhile_eq_Nil_iff: "dropWhile P xs = [] \<longleftrightarrow> (\<forall>x \<in> set xs. P x)"
  by (induction xs) auto

text \<open>How an update of one element changes the number of elements with a property.\<close>

lemma length_filter_update:
  assumes "i < length xs"
  shows "length (filter P (xs[i := y])) + of_bool (P (xs ! i)) = length (filter P xs) + of_bool (P y)"
  using assms
proof (induction xs arbitrary: i)
  case (Cons x xs)
  then show ?case by (cases i) (auto simp: of_bool_def)
qed simp

lemma length_filter_update_same:
  "i < length xs \<Longrightarrow> P (xs ! i) = P y \<Longrightarrow> length (filter P (xs[i := y])) = length (filter P xs)"
  using length_filter_update [of i xs P y] by simp

lemma length_filter_pos: "i < length xs \<Longrightarrow> P (xs ! i) \<Longrightarrow> 0 < length (filter P xs)"
  by (auto simp: filter_empty_conv intro: nth_mem)

section \<open>Counters kept in an array\<close>

text \<open>An enum that indexes an array of counters: distinct variants have distinct slots.\<close>

locale indexed_counters =
  fixes index :: "'c \<Rightarrow> nat" and size_of :: nat
  assumes index_inj: "index c = index d \<Longrightarrow> c = d"
    and index_bound: "index c < size_of"
begin

lemma slot_update:
  "length xs = size_of \<Longrightarrow> xs[index c := v] ! index d = (if d = c then v else xs ! index d)"
  by (auto simp: index_bound nth_list_update dest: index_inj)

lemma slot_replicate: "replicate size_of v ! index c = v"
  by (simp add: index_bound)

end

section \<open>Machine words\<close>

lemma unat_add_one: "unat (x :: 64 word) < 2 ^ 64 - 1 \<Longrightarrow> unat (x + 1) = unat x + 1"
  by (simp add: unat_word_ariths)

lemma unat_sub_one: "0 < unat (x :: 64 word) \<Longrightarrow> unat (x - 1) = unat x - 1"
  by (metis unat_gt_0 unat_minus_one)

end
