(* ===== verification/RestartPolicy.thy ===== *)
theory RestartPolicy
  imports Prelude
begin

text \<open>
  The restart budget of the desktop's daemon supervisor
  (\<open>apps/desktop/src-tauri/src/daemon_lifecycle/policy.rs\<close>).  A \<open>Duration\<close> is a number of
  nanoseconds bounded by \<open>Duration::MAX\<close>; its saturating operations are written out.
  The state is the record \<open>restart_policy\<close>, one definition per method of
  \<open>RestartPolicy\<close>.  The interface locale \<open>restart_budget\<close> states what the supervisor
  relies on: every operation keeps the invariant, and the reported number of automatic
  restarts never exceeds the limit.
\<close>

section \<open>Durations\<close>

type_synonym duration = nat

definition dur_max :: duration where
  "dur_max = u64_max * 1000000000 + 999999999"

definition dur_saturating_add :: "duration \<Rightarrow> duration \<Rightarrow> duration" where
  "dur_saturating_add a b = min (a + b) dur_max"

text \<open>\<open>Duration::saturating_sub\<close> is truncated subtraction.\<close>

abbreviation dur_saturating_sub :: "duration \<Rightarrow> duration \<Rightarrow> duration" where
  "dur_saturating_sub a b \<equiv> a - b"

definition from_secs :: "nat \<Rightarrow> duration" where
  "from_secs s = s * 1000000000"

definition from_millis :: "nat \<Rightarrow> duration" where
  "from_millis ms = ms * 1000000"

section \<open>Configuration and state\<close>

definition MAX_AUTOMATIC_RESTARTS :: nat where
  "MAX_AUTOMATIC_RESTARTS = 5"

record restart_policy_config =
  window :: duration
  stable_reset :: duration
  circuit_open :: duration
  backoff :: "duration list" \<comment> \<open>an array of \<open>MAX_AUTOMATIC_RESTARTS\<close> entries\<close>

definition production_policy :: restart_policy_config where
  "production_policy =
     \<lparr> window = from_secs (10 * 60),
       stable_reset = from_secs (5 * 60),
       circuit_open = from_secs (5 * 60),
       backoff = [from_millis 250, from_secs 1, from_secs 4, from_secs 15, from_secs 30] \<rparr>"

datatype recovery_decision = RetryAfter duration | OpenCircuit duration

record restart_policy =
  config :: restart_policy_config
  automatic_restarts :: "duration list" \<comment> \<open>a \<open>VecDeque\<close>, front first\<close>
  stable_since :: "duration option"
  half_open_attempt :: bool
  manual_half_open_at :: "duration option"

definition policy_new :: "restart_policy_config \<Rightarrow> restart_policy" where
  "policy_new c =
     \<lparr> config = c, automatic_restarts = [], stable_since = None,
       half_open_attempt = False, manual_half_open_at = None \<rparr>"

section \<open>Operations\<close>

definition policy_time :: "restart_policy \<Rightarrow> duration \<Rightarrow> duration" where
  "policy_time p elapsed = dur_saturating_add (window (config p)) elapsed"

fun prune_queue :: "duration \<Rightarrow> duration \<Rightarrow> duration list \<Rightarrow> duration list" where
  "prune_queue w now [] = []"
| "prune_queue w now (at # q) =
     (if w \<le> dur_saturating_sub now at then prune_queue w now q else at # q)"

definition prune :: "restart_policy \<Rightarrow> duration \<Rightarrow> restart_policy" where
  "prune p now =
     p\<lparr> automatic_restarts := prune_queue (window (config p)) now (automatic_restarts p) \<rparr>"

definition on_failure :: "restart_policy \<Rightarrow> duration \<Rightarrow> restart_policy \<times> recovery_decision" where
  "on_failure p elapsed =
     (let now = policy_time p elapsed;
          p = p\<lparr> stable_since := None \<rparr>;
          open_at = Some (dur_saturating_add now (circuit_open (config p)))
      in if half_open_attempt p
         then (p\<lparr> half_open_attempt := False, manual_half_open_at := open_at \<rparr>,
               OpenCircuit (circuit_open (config p)))
         else let p = prune p now
              in if MAX_AUTOMATIC_RESTARTS \<le> length (automatic_restarts p)
                 then (p\<lparr> manual_half_open_at := open_at \<rparr>, OpenCircuit (circuit_open (config p)))
                 else (p\<lparr> automatic_restarts := automatic_restarts p @ [now] \<rparr>,
                       RetryAfter (backoff (config p) ! length (automatic_restarts p))))"

definition begin_half_open :: "restart_policy \<Rightarrow> restart_policy" where
  "begin_half_open p =
     p\<lparr> half_open_attempt := True, manual_half_open_at := None, stable_since := None \<rparr>"

definition begin_manual_half_open :: "restart_policy \<Rightarrow> duration \<Rightarrow> restart_policy \<times> bool" where
  "begin_manual_half_open p elapsed =
     (let now = policy_time p elapsed
      in case manual_half_open_at p of
           None \<Rightarrow> (p, False)
         | Some at \<Rightarrow> if now < at then (p, False) else (begin_half_open p, True))"

definition manual_half_open_retry_after :: "restart_policy \<Rightarrow> duration \<Rightarrow> duration option" where
  "manual_half_open_retry_after p elapsed =
     map_option (\<lambda>at. dur_saturating_sub at (policy_time p elapsed)) (manual_half_open_at p)"

definition on_ready :: "restart_policy \<Rightarrow> duration \<Rightarrow> restart_policy" where
  "on_ready p elapsed = p\<lparr> stable_since := Some (policy_time p elapsed) \<rparr>"

definition stable_reset_due :: "restart_policy \<Rightarrow> duration \<Rightarrow> bool" where
  "stable_reset_due p elapsed =
     (case stable_since p of
        None \<Rightarrow> False
      | Some since \<Rightarrow> stable_reset (config p) \<le> dur_saturating_sub (policy_time p elapsed) since)"

definition complete_stable_reset :: "restart_policy \<Rightarrow> duration \<Rightarrow> restart_policy" where
  "complete_stable_reset p elapsed =
     p\<lparr> automatic_restarts := [], half_open_attempt := False, manual_half_open_at := None,
        stable_since := Some (policy_time p elapsed) \<rparr>"

text \<open>\<open>len() as u8\<close> keeps the value: the queue never holds more than five entries.\<close>

definition restart_attempts :: "restart_policy \<Rightarrow> duration \<Rightarrow> restart_policy \<times> nat" where
  "restart_attempts p elapsed =
     (let p = prune p (policy_time p elapsed) in (p, length (automatic_restarts p) mod 256))"

section \<open>The interface the supervisor uses\<close>

locale restart_budget =
  fixes invar :: "'p \<Rightarrow> bool"
    and new :: "'c \<Rightarrow> 'p"
    and fail :: "'p \<Rightarrow> duration \<Rightarrow> 'p \<times> recovery_decision"
    and ready :: "'p \<Rightarrow> duration \<Rightarrow> 'p"
    and half_open :: "'p \<Rightarrow> duration \<Rightarrow> 'p \<times> bool"
    and reset :: "'p \<Rightarrow> duration \<Rightarrow> 'p"
    and attempts :: "'p \<Rightarrow> duration \<Rightarrow> 'p \<times> nat"
    and limit :: nat
  assumes invar_new: "invar (new c)"
    and invar_fail: "invar p \<Longrightarrow> invar (fst (fail p t))"
    and invar_ready: "invar p \<Longrightarrow> invar (ready p t)"
    and invar_half_open: "invar p \<Longrightarrow> invar (fst (half_open p t))"
    and invar_reset: "invar p \<Longrightarrow> invar (reset p t)"
    and invar_attempts: "invar p \<Longrightarrow> invar (fst (attempts p t))"
    and attempts_le: "invar p \<Longrightarrow> snd (attempts p t) \<le> limit"
    and attempts_reset: "invar p \<Longrightarrow> snd (attempts (reset p t) u) = 0"
begin

lemma invar_fail_attempts: "invar p \<Longrightarrow> invar (fst (attempts (fst (fail p t)) u))"
  by (intro invar_attempts invar_fail)

lemma attempts_after_fail_le: "invar p \<Longrightarrow> snd (attempts (fst (fail p t)) u) \<le> limit"
  by (intro attempts_le invar_fail)

end

section \<open>Invariant\<close>

definition policy_inv :: "restart_policy \<Rightarrow> bool" where
  "policy_inv p \<longleftrightarrow> length (automatic_restarts p) \<le> MAX_AUTOMATIC_RESTARTS"

lemma prune_queue_dropWhile: "prune_queue w now q = dropWhile (\<lambda>at. w \<le> now - at) q"
  by (induction q) auto

lemma length_prune_queue: "length (prune_queue w now q) \<le> length q"
  by (simp add: prune_queue_dropWhile length_dropWhile_le)

lemma prune_simps [simp]:
  "config (prune p now) = config p"
  "stable_since (prune p now) = stable_since p"
  "half_open_attempt (prune p now) = half_open_attempt p"
  "manual_half_open_at (prune p now) = manual_half_open_at p"
  "automatic_restarts (prune p now) = prune_queue (window (config p)) now (automatic_restarts p)"
  by (simp_all add: prune_def)

lemma policy_inv_prune: "policy_inv p \<Longrightarrow> policy_inv (prune p now)"
  using length_prune_queue [of "window (config p)" now "automatic_restarts p"]
  by (simp add: policy_inv_def)

lemma policy_inv_on_failure: "policy_inv p \<Longrightarrow> policy_inv (fst (on_failure p t))"
  using policy_inv_prune [of "p\<lparr>stable_since := None\<rparr>" "policy_time p t"]
  by (auto simp: on_failure_def Let_def policy_inv_def)

lemma policy_inv_begin_manual: "policy_inv p \<Longrightarrow> policy_inv (fst (begin_manual_half_open p t))"
  by (auto simp: begin_manual_half_open_def begin_half_open_def policy_inv_def Let_def
      split: option.splits)

lemma restart_attempts_le:
  "policy_inv p \<Longrightarrow> snd (restart_attempts p t) \<le> MAX_AUTOMATIC_RESTARTS"
  using policy_inv_prune [of p "policy_time p t"]
  by (auto simp: restart_attempts_def policy_inv_def Let_def intro: order_trans [OF mod_less_eq_dividend])

interpretation rp: restart_budget policy_inv policy_new on_failure on_ready
  begin_manual_half_open complete_stable_reset restart_attempts MAX_AUTOMATIC_RESTARTS
proof unfold_locales
  fix c show "policy_inv (policy_new c)"
    by (simp add: policy_inv_def policy_new_def)
next
  fix p t assume "policy_inv p"
  then show "policy_inv (fst (on_failure p t))" by (rule policy_inv_on_failure)
next
  fix p t assume "policy_inv p"
  then show "policy_inv (on_ready p t)" by (simp add: policy_inv_def on_ready_def)
next
  fix p t assume "policy_inv p"
  then show "policy_inv (fst (begin_manual_half_open p t))" by (rule policy_inv_begin_manual)
next
  fix p t assume "policy_inv p"
  then show "policy_inv (complete_stable_reset p t)"
    by (simp add: policy_inv_def complete_stable_reset_def)
next
  fix p t assume "policy_inv p"
  then show "policy_inv (fst (restart_attempts p t))"
    by (simp add: restart_attempts_def Let_def policy_inv_prune)
next
  fix p t assume "policy_inv p"
  then show "snd (restart_attempts p t) \<le> MAX_AUTOMATIC_RESTARTS" by (rule restart_attempts_le)
next
  fix p t u assume "policy_inv p"
  then show "snd (restart_attempts (complete_stable_reset p t) u) = 0"
    by (simp add: restart_attempts_def complete_stable_reset_def Let_def)
qed

section \<open>The rate of automatic restarts\<close>

text \<open>
  A driver of the policy is a sequence of calls with the elapsed time of each; the log
  collects the elapsed times of the failures that were answered by \<^term>\<open>RetryAfter\<close>.
\<close>

datatype policy_event =
    EvFailure duration
  | EvReady duration
  | EvManualHalfOpen duration
  | EvAttempts duration
  | EvStableReset duration

fun event_time :: "policy_event \<Rightarrow> duration" where
  "event_time (EvFailure t) = t"
| "event_time (EvReady t) = t"
| "event_time (EvManualHalfOpen t) = t"
| "event_time (EvAttempts t) = t"
| "event_time (EvStableReset t) = t"

fun is_reset :: "policy_event \<Rightarrow> bool" where
  "is_reset (EvStableReset t) = True"
| "is_reset e = False"

fun policy_step :: "restart_policy \<Rightarrow> duration list \<Rightarrow> policy_event \<Rightarrow> restart_policy \<times> duration list" where
  "policy_step p log (EvFailure t) =
     (case on_failure p t of
        (p', RetryAfter d) \<Rightarrow> (p', log @ [t])
      | (p', OpenCircuit d) \<Rightarrow> (p', log))"
| "policy_step p log (EvReady t) = (on_ready p t, log)"
| "policy_step p log (EvManualHalfOpen t) = (fst (begin_manual_half_open p t), log)"
| "policy_step p log (EvAttempts t) = (fst (restart_attempts p t), log)"
| "policy_step p log (EvStableReset t) = (complete_stable_reset p t, log)"

fun policy_run :: "restart_policy \<Rightarrow> duration list \<Rightarrow> policy_event list \<Rightarrow> restart_policy \<times> duration list" where
  "policy_run p log [] = (p, log)"
| "policy_run p log (e # es) = (case policy_step p log e of (p', log') \<Rightarrow> policy_run p' log' es)"

definition spaced :: "nat \<Rightarrow> duration \<Rightarrow> duration list \<Rightarrow> bool" where
  "spaced n w log \<longleftrightarrow> (\<forall>i. i + n < length log \<longrightarrow> log ! i + w \<le> log ! (i + n))"

text \<open>
  The queue is what is left of the log after a prefix that is older than the window; \<open>t\<close>
  is the elapsed time of the last call.
\<close>

definition rate_inv :: "duration \<Rightarrow> restart_policy \<Rightarrow> duration list \<Rightarrow> duration \<Rightarrow> bool" where
  "rate_inv w p log t \<longleftrightarrow>
     window (config p) = w \<and> spaced MAX_AUTOMATIC_RESTARTS w log \<and> (\<forall>x \<in> set log. x \<le> t) \<and>
     (\<exists>old recent. log = old @ recent \<and> automatic_restarts p = map (dur_saturating_add w) recent \<and>
        (\<forall>x \<in> set old. w \<le> dur_saturating_add w t - dur_saturating_add w x))"

lemma dur_saturating_add_mono: "a \<le> b \<Longrightarrow> dur_saturating_add w a \<le> dur_saturating_add w b"
  by (auto simp: dur_saturating_add_def)

lemma dur_saturating_add_diff_le:
  "dur_saturating_add w t - dur_saturating_add w x \<le> t - x"
  by (auto simp: dur_saturating_add_def min_def)

lemma rate_inv_later:
  assumes "rate_inv w p log t" and "t \<le> t'"
  shows "rate_inv w p log t'"
proof -
  have "w \<le> dur_saturating_add w t' - dur_saturating_add w x"
    if "w \<le> dur_saturating_add w t - dur_saturating_add w x" for x
    using that dur_saturating_add_mono [OF assms(2), of w] by linarith
  moreover obtain old recent where "log = old @ recent"
    and "automatic_restarts p = map (dur_saturating_add w) recent"
    and "\<forall>x \<in> set old. w \<le> dur_saturating_add w t - dur_saturating_add w x"
    using assms(1) by (auto simp: rate_inv_def)
  moreover have "\<forall>x \<in> set log. x \<le> t'"
    using assms by (fastforce simp: rate_inv_def)
  ultimately show ?thesis
    using assms(1) unfolding rate_inv_def by blast
qed

lemma rate_inv_prune:
  assumes "rate_inv w p log t"
  shows "rate_inv w (prune p (dur_saturating_add w t)) log t"
proof -
  obtain old recent where log: "log = old @ recent"
    and q: "automatic_restarts p = map (dur_saturating_add w) recent"
    and old: "\<forall>x \<in> set old. w \<le> dur_saturating_add w t - dur_saturating_add w x"
    using assms by (auto simp: rate_inv_def)
  let ?late = "\<lambda>x. w \<le> dur_saturating_add w t - dur_saturating_add w x"
  have "log = (old @ takeWhile ?late recent) @ dropWhile ?late recent"
    by (simp add: log)
  moreover have "prune_queue w (dur_saturating_add w t) (automatic_restarts p)
      = map (dur_saturating_add w) (dropWhile ?late recent)"
    by (simp add: q prune_queue_dropWhile dropWhile_map o_def)
  moreover have "\<forall>x \<in> set (old @ takeWhile ?late recent). ?late x"
    using old by (auto dest: set_takeWhileD)
  ultimately show ?thesis
    using assms unfolding rate_inv_def prune_simps by blast
qed

lemma rate_inv_push:
  assumes "rate_inv w p log t" and "length (automatic_restarts p) < MAX_AUTOMATIC_RESTARTS"
    and "automatic_restarts p' = automatic_restarts p @ [dur_saturating_add w t]"
    and "config p' = config p"
  shows "rate_inv w p' (log @ [t]) t"
proof -
  obtain old recent where log: "log = old @ recent"
    and q: "automatic_restarts p = map (dur_saturating_add w) recent"
    and old: "\<forall>x \<in> set old. w \<le> dur_saturating_add w t - dur_saturating_add w x"
    using assms(1) by (auto simp: rate_inv_def)
  have le: "\<forall>x \<in> set log. x \<le> t" and sp: "spaced MAX_AUTOMATIC_RESTARTS w log"
    using assms(1) by (auto simp: rate_inv_def)
  have "log ! i + w \<le> t" if "i + MAX_AUTOMATIC_RESTARTS = length log" for i
  proof -
    have "i < length old"
      using that assms(2) log q by simp
    then have "log ! i \<in> set old"
      by (simp add: log nth_append)
    then have "w \<le> t - log ! i" and "log ! i \<le> t"
      using old le order_trans [OF _ dur_saturating_add_diff_le] by (auto simp: log)
    then show ?thesis by linarith
  qed
  then have "spaced MAX_AUTOMATIC_RESTARTS w (log @ [t])"
    using sp by (auto simp: spaced_def nth_append MAX_AUTOMATIC_RESTARTS_def less_Suc_eq)
  moreover have "log @ [t] = old @ (recent @ [t])"
    by (simp add: log)
  moreover have "automatic_restarts p' = map (dur_saturating_add w) (recent @ [t])"
    by (simp add: assms(3) q)
  moreover have "\<forall>x \<in> set (log @ [t]). x \<le> t" and "window (config p') = w"
    using le assms(1,4) by (auto simp: rate_inv_def)
  ultimately show ?thesis
    using old unfolding rate_inv_def by blast
qed

text \<open>Fields the queue argument does not look at.\<close>

lemma rate_inv_cong:
  assumes "rate_inv w p log t"
    and "automatic_restarts p' = automatic_restarts p" and "config p' = config p"
  shows "rate_inv w p' log t"
  using assms by (simp add: rate_inv_def)

lemma rate_inv_on_failure:
  assumes "rate_inv w p log t"
  shows "case policy_step p log (EvFailure t) of (p', log') \<Rightarrow> rate_inv w p' log' t"
proof -
  let ?p0 = "p\<lparr>stable_since := None\<rparr>"
  let ?p1 = "prune ?p0 (dur_saturating_add w t)"
  have w: "window (config p) = w"
    using assms by (simp add: rate_inv_def)
  have 0: "rate_inv w ?p0 log t"
    using assms by (rule rate_inv_cong) auto
  then have 1: "rate_inv w ?p1 log t"
    by (rule rate_inv_prune)
  show ?thesis
  proof (cases "half_open_attempt p \<or> MAX_AUTOMATIC_RESTARTS \<le> length (automatic_restarts ?p1)")
    case True
    then show ?thesis
      by (auto simp: on_failure_def Let_def policy_time_def w
          intro: rate_inv_cong [OF 0] rate_inv_cong [OF 1])
  next
    case False
    then show ?thesis
      using rate_inv_push [OF 1]
      by (auto simp: on_failure_def Let_def policy_time_def w not_le)
  qed
qed

lemma rate_inv_step:
  assumes "rate_inv w p log t" and "t \<le> event_time e" and "\<not> is_reset e"
  shows "case policy_step p log e of (p', log') \<Rightarrow> rate_inv w p' log' (event_time e)"
proof -
  have inv: "rate_inv w p log (event_time e)"
    by (rule rate_inv_later [OF assms(1,2)])
  have w: "window (config p) = w"
    using assms(1) by (simp add: rate_inv_def)
  show ?thesis
  proof (cases e)
    case (EvFailure u)
    with inv show ?thesis
      using rate_inv_on_failure [of w p log u] by simp
  next
    case (EvAttempts u)
    with inv show ?thesis
      using rate_inv_prune [of w p log u]
      by (simp add: restart_attempts_def Let_def policy_time_def w)
  next
    case (EvManualHalfOpen u)
    have "automatic_restarts (fst (begin_manual_half_open p u)) = automatic_restarts p"
      "config (fst (begin_manual_half_open p u)) = config p"
      by (auto simp: begin_manual_half_open_def begin_half_open_def Let_def split: option.splits)
    with EvManualHalfOpen show ?thesis
      using rate_inv_cong [OF inv] by simp
  next
    case (EvReady u)
    then show ?thesis
      using rate_inv_cong [OF inv, of "on_ready p u"] by (simp add: on_ready_def)
  next
    case (EvStableReset u)
    with assms(3) show ?thesis by simp
  qed
qed

lemma policy_run_rate:
  assumes "rate_inv w p log t" and "sorted (t # map event_time es)"
    and "\<forall>e \<in> set es. \<not> is_reset e"
  shows "spaced MAX_AUTOMATIC_RESTARTS w (snd (policy_run p log es))"
  using assms
proof (induction es arbitrary: p log t)
  case Nil
  then show ?case by (simp add: rate_inv_def)
next
  case (Cons e es)
  obtain p' log' where step: "policy_step p log e = (p', log')"
    by fastforce
  have "rate_inv w p' log' (event_time e)"
    using rate_inv_step [of w p log t e] Cons.prems by (simp add: step)
  then show ?case
    using Cons.IH [of p' log' "event_time e"] Cons.prems by (simp add: step)
qed

text \<open>
  C29.  The supervisor never restarts the daemon more than five times within one policy
  window without a stable reset: in every sequence of policy calls at non-decreasing
  times, the automatic retry that follows five others comes at least a full window after
  the first of them.  This holds for every configuration, also where the saturating
  \<open>Duration\<close> arithmetic reaches its maximum.
\<close>

theorem automatic_restart_rate:
  assumes "sorted (map event_time es)" and "\<forall>e \<in> set es. \<not> is_reset e"
    and "policy_run (policy_new c) [] es = (p, log)"
    and "i + MAX_AUTOMATIC_RESTARTS < length log"
  shows "log ! i + window c \<le> log ! (i + MAX_AUTOMATIC_RESTARTS)"
proof -
  have "rate_inv (window c) (policy_new c) [] 0"
    by (simp add: rate_inv_def policy_new_def spaced_def)
  from policy_run_rate [OF this, of es] assms(1-3)
  have "spaced MAX_AUTOMATIC_RESTARTS (window c) log"
    by (simp add: sorted_wrt_append)
  then show ?thesis
    using assms(4) by (simp add: spaced_def)
qed

lemma automatic_restart_rate_witness:
  "let c = \<lparr> window = 10, stable_reset = 5, circuit_open = 5, backoff = [1, 2, 3, 4, 5] \<rparr>;
       log = snd (policy_run (policy_new c) [] (map EvFailure [0, 1, 2, 3, 4, 10]))
   in log = [0, 1, 2, 3, 4, 10] \<and> log ! 0 + window c \<le> log ! (0 + MAX_AUTOMATIC_RESTARTS)"
proof -
  define c where "c = \<lparr> window = 10, stable_reset = 5, circuit_open = 5,
                        backoff = [1, 2, 3, 4, 5 :: nat] \<rparr>"
  define es where "es = map EvFailure [0, 1, 2, 3, 4, 10 :: nat]"
  obtain p log where run: "policy_run (policy_new c) [] es = (p, log)"
    by fastforce
  have log: "log = [0, 1, 2, 3, 4, 10]"
    using run by (simp add: es_def c_def policy_new_def on_failure_def policy_time_def prune_def
        dur_saturating_add_def dur_max_def u64_max_def MAX_AUTOMATIC_RESTARTS_def Let_def)
  have "log ! 0 + window c \<le> log ! (0 + MAX_AUTOMATIC_RESTARTS)"
    by (rule automatic_restart_rate [OF _ _ run])
      (simp_all add: es_def log MAX_AUTOMATIC_RESTARTS_def)
  then show ?thesis
    using run log by (simp add: Let_def c_def es_def)
qed

section \<open>The backoff schedule and the circuit breaker\<close>

fun failures :: "restart_policy \<Rightarrow> duration list \<Rightarrow> recovery_decision list" where
  "failures p [] = []"
| "failures p (t # ts) = (case on_failure p t of (p', d) \<Rightarrow> d # failures p' ts)"

lemma prune_queue_recent:
  "0 < w \<Longrightarrow> \<forall>x \<in> set q. now < x + w \<Longrightarrow> prune_queue w now q = q"
  by (cases q) auto

lemma on_failure_in_window:
  assumes "\<not> half_open_attempt p" and "0 < window (config p)"
    and "\<forall>x \<in> set (automatic_restarts p). policy_time p t < x + window (config p)"
  shows "on_failure p t =
    (if MAX_AUTOMATIC_RESTARTS \<le> length (automatic_restarts p)
     then (p\<lparr> stable_since := None, manual_half_open_at :=
               Some (dur_saturating_add (policy_time p t) (circuit_open (config p))) \<rparr>,
           OpenCircuit (circuit_open (config p)))
     else (p\<lparr> stable_since := None, automatic_restarts := automatic_restarts p @ [policy_time p t] \<rparr>,
           RetryAfter (backoff (config p) ! length (automatic_restarts p))))"
  using assms by (auto simp: on_failure_def Let_def prune_def prune_queue_recent)

lemma failures_in_window:
  assumes "\<not> half_open_attempt p" and "config p = c" and "length (backoff c) = MAX_AUTOMATIC_RESTARTS"
    and "length (automatic_restarts p) \<le> MAX_AUTOMATIC_RESTARTS"
    and "\<forall>x \<in> set (automatic_restarts p). \<forall>t \<in> set ts. policy_time p t < x + window c"
    and "\<forall>t \<in> set ts. \<forall>u \<in> set ts. u < t + window c" and "\<forall>t \<in> set ts. window c + t \<le> dur_max"
  shows "failures p ts =
    map RetryAfter (take (length ts) (drop (length (automatic_restarts p)) (backoff c))) @
    replicate (length ts - (MAX_AUTOMATIC_RESTARTS - length (automatic_restarts p)))
      (OpenCircuit (circuit_open c))"
  using assms
proof (induction ts arbitrary: p)
  case Nil
  then show ?case by simp
next
  case (Cons t ts)
  let ?q = "automatic_restarts p"
  have step: "on_failure p t =
    (if MAX_AUTOMATIC_RESTARTS \<le> length ?q
     then (p\<lparr> stable_since := None, manual_half_open_at :=
               Some (dur_saturating_add (policy_time p t) (circuit_open (config p))) \<rparr>,
           OpenCircuit (circuit_open (config p)))
     else (p\<lparr> stable_since := None, automatic_restarts := ?q @ [policy_time p t] \<rparr>,
           RetryAfter (backoff (config p) ! length ?q)))"
    using Cons.prems by (intro on_failure_in_window) auto
  have exact: "policy_time p u = window c + u" if "u \<in> set (t # ts)" for u
    using that Cons.prems(2,7) by (auto simp: policy_time_def dur_saturating_add_def)
  show ?case
  proof (cases "MAX_AUTOMATIC_RESTARTS \<le> length ?q")
    case True
    let ?p' = "p\<lparr> stable_since := None, manual_half_open_at :=
      Some (dur_saturating_add (policy_time p t) (circuit_open (config p))) \<rparr>"
    have "failures ?p' ts = replicate (length ts) (OpenCircuit (circuit_open c))"
      using Cons.IH [of ?p'] Cons.prems True by (simp add: policy_time_def)
    with True Cons.prems(2-4) show ?thesis
      by (simp add: step)
  next
    case False
    let ?p' = "p\<lparr> stable_since := None, automatic_restarts := ?q @ [policy_time p t] \<rparr>"
    have "failures ?p' ts =
      map RetryAfter (take (length ts) (drop (Suc (length ?q)) (backoff c))) @
      replicate (length ts - (MAX_AUTOMATIC_RESTARTS - Suc (length ?q))) (OpenCircuit (circuit_open c))"
      using Cons.IH [of ?p'] Cons.prems False exact by (fastforce simp: policy_time_def)
    moreover have "drop (length ?q) (backoff c) = backoff c ! length ?q # drop (Suc (length ?q)) (backoff c)"
      using False Cons.prems(3) by (simp add: Cons_nth_drop_Suc)
    ultimately show ?thesis
      using False Cons.prems(2) by (simp add: step Suc_diff_Suc)
  qed
qed

text \<open>
  The fixed backoff schedule: failures that all fall within one window are answered
  by the configured delays in order, and by an open circuit once the five are used up.
\<close>

theorem backoff_schedule:
  assumes "length (backoff c) = MAX_AUTOMATIC_RESTARTS"
    and "\<forall>t \<in> set ts. \<forall>u \<in> set ts. u < t + window c" and "\<forall>t \<in> set ts. window c + t \<le> dur_max"
  shows "failures (policy_new c) ts =
    map RetryAfter (take (length ts) (backoff c)) @
    replicate (length ts - MAX_AUTOMATIC_RESTARTS) (OpenCircuit (circuit_open c))"
  using failures_in_window [of "policy_new c" c ts] assms by (simp add: policy_new_def)

lemma backoff_schedule_witness:
  "failures (policy_new production_policy) (map from_secs [0, 1, 2, 3, 4, 6]) =
     [RetryAfter (from_millis 250), RetryAfter (from_secs 1), RetryAfter (from_secs 4),
      RetryAfter (from_secs 15), RetryAfter (from_secs 30), OpenCircuit (from_secs 300)]"
  by (subst backoff_schedule)
    (simp_all add: production_policy_def MAX_AUTOMATIC_RESTARTS_def from_secs_def
      dur_max_def u64_max_def)

text \<open>
  The circuit breaker: after the failure that opens the circuit, a manual half-open
  attempt is admitted exactly from the end of the open interval on; the attempt is granted
  once only, and a failure of the half-open daemon opens the circuit again at once.
\<close>

theorem circuit_breaker:
  assumes "on_failure p t = (p1, OpenCircuit d)"
    and "window (config p) + t + circuit_open (config p) \<le> dur_max"
    and "window (config p) + u \<le> dur_max"
  shows "(snd (begin_manual_half_open p1 u) \<longleftrightarrow> t + circuit_open (config p) \<le> u) \<and>
    (snd (begin_manual_half_open p1 u) \<longrightarrow>
       (let p2 = fst (begin_manual_half_open p1 u)
        in \<not> snd (begin_manual_half_open p2 v) \<and> snd (on_failure p2 v) = OpenCircuit d))"
proof -
  have p1: "manual_half_open_at p1 = Some (window (config p) + t + circuit_open (config p))"
    "config p1 = config p" "d = circuit_open (config p)"
    using assms(1,2)
    by (auto simp: on_failure_def Let_def policy_time_def dur_saturating_add_def split: if_splits)
  have 1: "snd (begin_manual_half_open p1 u) \<longleftrightarrow> t + circuit_open (config p) \<le> u"
    using assms(3) by (auto simp: p1 begin_manual_half_open_def policy_time_def
        dur_saturating_add_def Let_def)
  have 2: "fst (begin_manual_half_open p1 u) = begin_half_open p1" if "snd (begin_manual_half_open p1 u)"
    using that by (auto simp: p1 begin_manual_half_open_def Let_def split: if_splits)
  have 3: "\<not> snd (begin_manual_half_open (begin_half_open p1) v)"
    and 4: "snd (on_failure (begin_half_open p1) v) = OpenCircuit d"
    using p1 by (simp_all add: begin_manual_half_open_def begin_half_open_def on_failure_def Let_def)
  show ?thesis
    using 1 2 3 4 by (simp add: Let_def)
qed

lemma circuit_breaker_witness:
  "let c = \<lparr> window = 10, stable_reset = 5, circuit_open = 5, backoff = [1, 2, 3, 4, 5] \<rparr>;
       p = (policy_new c)\<lparr> automatic_restarts := [10, 11, 12, 13, 14] \<rparr>;
       p1 = fst (on_failure p 5)
   in \<not> snd (begin_manual_half_open p1 9) \<and> snd (begin_manual_half_open p1 10) \<and>
      snd (on_failure (fst (begin_manual_half_open p1 10)) 11) = OpenCircuit 5"
proof -
  define c where "c = \<lparr> window = 10, stable_reset = 5, circuit_open = 5,
                        backoff = [1, 2, 3, 4, 5 :: nat] \<rparr>"
  define p where "p = (policy_new c)\<lparr> automatic_restarts := [10, 11, 12, 13, 14] \<rparr>"
  define p1 where "p1 = fst (on_failure p 5)"
  have f: "on_failure p 5 = (p1, OpenCircuit 5)"
    by (simp add: p1_def p_def c_def policy_new_def on_failure_def policy_time_def prune_def
        dur_saturating_add_def dur_max_def u64_max_def MAX_AUTOMATIC_RESTARTS_def Let_def)
  have b: "window (config p) + 5 + circuit_open (config p) \<le> dur_max" "window (config p) + 9 \<le> dur_max"
    "window (config p) + 10 \<le> dur_max" "circuit_open (config p) = 5"
    by (simp_all add: p_def c_def policy_new_def dur_max_def u64_max_def)
  have h: "\<not> snd (begin_manual_half_open p1 9)"
    using circuit_breaker [OF f b(1,2)] b(4) by simp
  have "snd (begin_manual_half_open p1 10)"
    "snd (on_failure (fst (begin_manual_half_open p1 10)) 11) = OpenCircuit 5"
    using circuit_breaker [OF f b(1,3), of 11] b(4) by (simp_all add: Let_def)
  with h show ?thesis
    by (simp add: Let_def p1_def p_def c_def)
qed

end
