(* ===== verification/Supervisor.thy ===== *)
theory Supervisor
  imports RestartPolicy
begin

text \<open>
  The desktop's daemon supervisor
  (\<open>apps/desktop/src-tauri/src/daemon_lifecycle/supervisor.rs\<close> and
  \<open>supervisor_contract.rs\<close>): the lifecycle snapshot it publishes, the actor's state, and
  one definition per handler of \<open>SupervisorActor\<close>.  The child process and the runtime are
  outside the program: what \<open>spawn\<close>, \<open>poll_exit\<close> and \<open>probe\<close> answer is an input of the
  handlers, as is every reading of \<open>Instant::now()\<close>.  A child is represented by its launch
  id.  An \<open>Instant\<close> is a number of nanoseconds.  Receipts are the list of recorded
  snapshots.  The mutexes around the snapshot and the identity are taken to be unpoisoned.
\<close>

section \<open>The lifecycle contract\<close>

datatype daemon_lifecycle_kind = Starting | Running | RetryWait | CircuitOpen | Blocked

datatype daemon_transition_reason =
    InitialStart | AutomaticRetry | ManualRetry | ControlPlaneReady | ChildExited
  | StartupTimeout | HeartbeatTimeout | StartFailed | ControlPlaneFailure
  | RestartBudgetExhausted | HalfOpenRetry | ConfigurationInvalid | RuntimeIntegrity
  | ProtocolMismatch | OwnershipConflict | SupervisorUnavailable

datatype daemon_blocked_reason =
    BlockedConfigurationInvalid | BlockedRuntimeIntegrity | BlockedProtocolMismatch
  | BlockedOwnershipConflict | BlockedSupervisorUnavailable

fun reason_of_blocked :: "daemon_blocked_reason \<Rightarrow> daemon_transition_reason" where
  "reason_of_blocked BlockedConfigurationInvalid = ConfigurationInvalid"
| "reason_of_blocked BlockedRuntimeIntegrity = RuntimeIntegrity"
| "reason_of_blocked BlockedProtocolMismatch = ProtocolMismatch"
| "reason_of_blocked BlockedOwnershipConflict = OwnershipConflict"
| "reason_of_blocked BlockedSupervisorUnavailable = SupervisorUnavailable"

datatype daemon_exit_class =
    ExitChildExited | ExitStartupTimeout | ExitHeartbeatTimeout | ExitStartFailed
  | ExitControlPlaneFailure

fun reason_of_exit :: "daemon_exit_class \<Rightarrow> daemon_transition_reason" where
  "reason_of_exit ExitChildExited = ChildExited"
| "reason_of_exit ExitStartupTimeout = StartupTimeout"
| "reason_of_exit ExitHeartbeatTimeout = HeartbeatTimeout"
| "reason_of_exit ExitStartFailed = StartFailed"
| "reason_of_exit ExitControlPlaneFailure = ControlPlaneFailure"

record lifecycle_snapshot =
  schema_version :: string
  lc_state :: daemon_lifecycle_kind
  transition_reason :: daemon_transition_reason
  generation :: nat
  automatic_restart_attempt :: nat
  automatic_restart_limit :: nat
  retry_after_ms :: "nat option"
  heartbeat_failures :: nat
  last_exit :: "daemon_exit_class option"

definition snapshot_initial :: lifecycle_snapshot where
  "snapshot_initial =
     \<lparr> schema_version = ''resume-ir.desktop-daemon-lifecycle.v2'', lc_state = Starting,
       transition_reason = InitialStart, generation = 0, automatic_restart_attempt = 0,
       automatic_restart_limit = 5, retry_after_ms = None, heartbeat_failures = 0,
       last_exit = None \<rparr>"

definition snapshot_supervisor_unavailable :: lifecycle_snapshot where
  "snapshot_supervisor_unavailable =
     snapshot_initial\<lparr> lc_state := Blocked, transition_reason := SupervisorUnavailable \<rparr>"

record ready_daemon_identity =
  supervisor_generation :: nat
  launch_id :: string

section \<open>The actor\<close>

datatype daemon_probe = ProbeReady | ProbeUnavailable | ProbeProtocolMismatch

datatype runtime_failure = FailBlocked daemon_blocked_reason | FailTransient

datatype child_exit_outcome =
    ChildRunning | ChildExitedNormally | ChildRestartableFatal | ChildBlocked daemon_blocked_reason

datatype desktop_error = RetryNotAllowed

type_synonym instant = nat

record supervisor_timing =
  tick_period :: duration
  startup_deadline :: duration
  heartbeat_interval :: duration
  heartbeat_timeout :: duration
  heartbeat_failure_limit :: nat
  policy_config :: restart_policy_config

definition production_timing :: supervisor_timing where
  "production_timing =
     \<lparr> tick_period = from_millis 100, startup_deadline = from_secs 10,
       heartbeat_interval = from_secs 5, heartbeat_timeout = from_secs 2,
       heartbeat_failure_limit = 3, policy_config = production_policy \<rparr>"

datatype actor_phase =
    PhaseWaiting instant \<comment> \<open>start at\<close>
  | PhaseStarting instant \<comment> \<open>deadline\<close>
  | PhaseRunning instant nat \<comment> \<open>next heartbeat, consecutive failures\<close>
  | PhaseCircuitOpen instant \<comment> \<open>retry at\<close>
  | PhaseBlocked

record supervisor =
  timing :: supervisor_timing
  started_at :: instant
  policy :: restart_policy
  phase :: actor_phase
  child :: "string option"
  stopped_children :: "string list"
  snapshot :: lifecycle_snapshot
  ready_identity :: "ready_daemon_identity option"
  receipt :: "lifecycle_snapshot list"
  next_start_reason :: daemon_transition_reason

definition supervisor_new :: "supervisor_timing \<Rightarrow> instant \<Rightarrow> supervisor" where
  "supervisor_new tm now =
     \<lparr> timing = tm, started_at = now, policy = policy_new (policy_config tm),
       phase = PhaseWaiting now, child = None, stopped_children = [],
       snapshot = snapshot_initial, ready_identity = None, receipt = [],
       next_start_reason = InitialStart \<rparr>"

text \<open>What the outside world answers during one turn of the loop.\<close>

record turn =
  now_tick :: instant
  now_recover :: instant
  now_publish :: instant
  spawn_result :: "(runtime_failure, string) result"
  poll_exit :: child_exit_outcome
  probe :: daemon_probe

subsection \<open>Small steps\<close>

definition elapsed :: "supervisor \<Rightarrow> instant \<Rightarrow> duration" where
  "elapsed s now = now - started_at s"

definition duration_millis :: "duration \<Rightarrow> nat" where
  "duration_millis d = min (d div 1000000) u64_max"

definition clear_ready_identity :: "supervisor \<Rightarrow> supervisor" where
  "clear_ready_identity s = s\<lparr> ready_identity := None \<rparr>"

definition update_snapshot :: "supervisor \<Rightarrow> (lifecycle_snapshot \<Rightarrow> lifecycle_snapshot) \<Rightarrow> supervisor" where
  "update_snapshot s f = s\<lparr> snapshot := f (snapshot s) \<rparr>"

definition record_snapshot :: "supervisor \<Rightarrow> supervisor" where
  "record_snapshot s = s\<lparr> receipt := receipt s @ [snapshot s] \<rparr>"

definition publish_state ::
  "supervisor \<Rightarrow> daemon_lifecycle_kind \<Rightarrow> daemon_transition_reason \<Rightarrow> duration option \<Rightarrow> nat
   \<Rightarrow> instant \<Rightarrow> supervisor" where
  "publish_state s kind reason retry_after hb now =
     (let s = (if kind \<noteq> Running then clear_ready_identity s else s);
          (p, attempts) = restart_attempts (policy s) (elapsed s now);
          s = update_snapshot (s\<lparr> policy := p \<rparr>) (\<lambda>sn. sn\<lparr>
                lc_state := kind, transition_reason := reason,
                automatic_restart_attempt := attempts,
                retry_after_ms := map_option duration_millis retry_after,
                heartbeat_failures := hb \<rparr>)
      in record_snapshot s)"

definition stop_child :: "supervisor \<Rightarrow> supervisor" where
  "stop_child s =
     clear_ready_identity
       (case child s of
          None \<Rightarrow> s
        | Some c \<Rightarrow> s\<lparr> child := None, stopped_children := stopped_children s @ [c] \<rparr>)"

definition block :: "supervisor \<Rightarrow> daemon_blocked_reason \<Rightarrow> instant \<Rightarrow> supervisor" where
  "block s reason pub =
     publish_state (clear_ready_identity (s\<lparr> child := None \<rparr>)\<lparr> phase := PhaseBlocked \<rparr>)
       Blocked (reason_of_blocked reason) None 0 pub"

definition recover :: "supervisor \<Rightarrow> daemon_exit_class \<Rightarrow> instant \<Rightarrow> instant \<Rightarrow> supervisor" where
  "recover s exit now pub =
     (let s = clear_ready_identity (s\<lparr> child := None \<rparr>);
          s = update_snapshot s (\<lambda>sn. sn\<lparr> last_exit := Some exit \<rparr>);
          (p, decision) = on_failure (policy s) (elapsed s now);
          s = s\<lparr> policy := p \<rparr>
      in case decision of
           RetryAfter delay \<Rightarrow>
             publish_state (s\<lparr> next_start_reason := AutomaticRetry, phase := PhaseWaiting (now + delay) \<rparr>)
               RetryWait (reason_of_exit exit) (Some delay) 0 pub
         | OpenCircuit delay \<Rightarrow>
             publish_state (s\<lparr> phase := PhaseCircuitOpen (now + delay) \<rparr>)
               CircuitOpen RestartBudgetExhausted (Some delay) 0 pub)"

subsection \<open>Handlers\<close>

definition attempt_start :: "supervisor \<Rightarrow> turn \<Rightarrow> supervisor" where
  "attempt_start s e =
     (case spawn_result e of
        Inr c \<Rightarrow>
          publish_state
            (s\<lparr> child := Some c, phase := PhaseStarting (now_tick e + startup_deadline (timing s)) \<rparr>)
            Starting (next_start_reason s) None 0 (now_publish e)
      | Inl (FailBlocked reason) \<Rightarrow> block s reason (now_publish e)
      | Inl FailTransient \<Rightarrow> recover s ExitStartFailed (now_recover e) (now_publish e))"

text \<open>\<open>handle_child_exit\<close> answers whether the child is gone.\<close>

definition handle_child_exit :: "supervisor \<Rightarrow> turn \<Rightarrow> supervisor \<times> bool" where
  "handle_child_exit s e =
     (case (if child s = None then ChildExitedNormally else poll_exit e) of
        ChildRunning \<Rightarrow> (s, False)
      | ChildExitedNormally \<Rightarrow>
          (recover (s\<lparr> child := None \<rparr>) ExitChildExited (now_recover e) (now_publish e), True)
      | ChildRestartableFatal \<Rightarrow>
          (recover (s\<lparr> child := None \<rparr>) ExitControlPlaneFailure (now_recover e) (now_publish e), True)
      | ChildBlocked reason \<Rightarrow> (block (s\<lparr> child := None \<rparr>) reason (now_publish e), True))"

definition child_probe :: "supervisor \<Rightarrow> turn \<Rightarrow> daemon_probe" where
  "child_probe s e = (if child s = None then ProbeUnavailable else probe e)"

definition enter_running :: "supervisor \<Rightarrow> instant \<Rightarrow> supervisor" where
  "enter_running s now =
     (let s = s\<lparr> policy := on_ready (policy s) (elapsed s now) \<rparr>;
          launch = (case child s of None \<Rightarrow> [] | Some c \<Rightarrow> c);
          s = s\<lparr> phase := PhaseRunning (now + heartbeat_interval (timing s)) 0 \<rparr>;
          s = update_snapshot s (\<lambda>sn. sn\<lparr>
                lc_state := Running, transition_reason := ControlPlaneReady,
                generation := sat_add64 (generation sn) 1,
                retry_after_ms := None, heartbeat_failures := 0 \<rparr>);
          s = s\<lparr> ready_identity :=
                Some \<lparr> supervisor_generation = generation (snapshot s), launch_id = launch \<rparr> \<rparr>
      in record_snapshot s)"

definition observe_starting :: "supervisor \<Rightarrow> turn \<Rightarrow> instant \<Rightarrow> supervisor" where
  "observe_starting s e deadline =
     (let (s, gone) = handle_child_exit s e
      in if gone then s
         else case child_probe s e of
             ProbeReady \<Rightarrow> enter_running s (now_tick e)
           | ProbeProtocolMismatch \<Rightarrow> block (stop_child s) BlockedProtocolMismatch (now_publish e)
           | ProbeUnavailable \<Rightarrow>
               if deadline \<le> now_tick e
               then recover (stop_child s) ExitStartupTimeout (now_recover e) (now_publish e)
               else s)"

definition observe_running :: "supervisor \<Rightarrow> turn \<Rightarrow> instant \<Rightarrow> nat \<Rightarrow> supervisor" where
  "observe_running s e heartbeat_at hb =
     (let (s, gone) = handle_child_exit s e; now = now_tick e
      in if gone \<or> now < heartbeat_at then s
         else case child_probe s e of
             ProbeReady \<Rightarrow>
               (let s = s\<lparr> phase := PhaseRunning (now + heartbeat_interval (timing s)) 0 \<rparr>;
                    s = update_snapshot s (\<lambda>sn. sn\<lparr> heartbeat_failures := 0 \<rparr>)
                in if stable_reset_due (policy s) (elapsed s now)
                   then let s = s\<lparr> policy := complete_stable_reset (policy s) (elapsed s now) \<rparr>;
                            (p, attempts) = restart_attempts (policy s) (elapsed s now);
                            s = update_snapshot (s\<lparr> policy := p \<rparr>)
                                  (\<lambda>sn. sn\<lparr> automatic_restart_attempt := attempts \<rparr>)
                        in record_snapshot s
                   else s)
           | ProbeProtocolMismatch \<Rightarrow> block (stop_child s) BlockedProtocolMismatch (now_publish e)
           | ProbeUnavailable \<Rightarrow>
               (let missed = min (hb + 1) 255
                in if heartbeat_failure_limit (timing s) \<le> missed
                   then recover (stop_child s) ExitHeartbeatTimeout (now_recover e) (now_publish e)
                   else record_snapshot (update_snapshot
                          (s\<lparr> phase := PhaseRunning (now + heartbeat_interval (timing s)) missed \<rparr>)
                          (\<lambda>sn. sn\<lparr> heartbeat_failures := missed \<rparr>))))"

definition tick :: "supervisor \<Rightarrow> turn \<Rightarrow> supervisor" where
  "tick s e =
     (case phase s of
        PhaseWaiting start_at \<Rightarrow> if start_at \<le> now_tick e then attempt_start s e else s
      | PhaseStarting deadline \<Rightarrow> observe_starting s e deadline
      | PhaseRunning heartbeat_at hb \<Rightarrow> observe_running s e heartbeat_at hb
      | PhaseCircuitOpen retry_at \<Rightarrow>
          (let remaining = (case manual_half_open_retry_after (policy s) (elapsed s (now_tick e)) of
                              None \<Rightarrow> retry_at - now_tick e | Some r \<Rightarrow> r)
           in update_snapshot s (\<lambda>sn. sn\<lparr> retry_after_ms :=
                Some (max (duration_millis remaining) (if remaining = 0 then 0 else 1)) \<rparr>))
      | PhaseBlocked \<Rightarrow> s)"

definition manual_retry ::
  "supervisor \<Rightarrow> instant \<Rightarrow> instant \<Rightarrow> supervisor \<times> (desktop_error, unit) result" where
  "manual_retry s now pub =
     (let accept = (\<lambda>s. (publish_state
            (s\<lparr> next_start_reason := ManualRetry, phase := PhaseWaiting now \<rparr>)
            Starting ManualRetry None 0 pub, Ok ()))
      in case phase s of
           PhaseBlocked \<Rightarrow> accept s
         | PhaseCircuitOpen retry_at \<Rightarrow>
             if retry_at \<le> now
             then (case begin_manual_half_open (policy s) (elapsed s now) of
                     (p, accepted) \<Rightarrow>
                       if accepted then accept (s\<lparr> policy := p \<rparr>)
                       else (s\<lparr> policy := p \<rparr>, Err RetryNotAllowed))
             else (s, Err RetryNotAllowed)
         | _ \<Rightarrow> (s, Err RetryNotAllowed))"

text \<open>\<open>DaemonLifecycleState::ready_identity\<close>, read by every client of the daemon.\<close>

definition public_ready_identity :: "supervisor \<Rightarrow> ready_daemon_identity option" where
  "public_ready_identity s = (if lc_state (snapshot s) = Running then ready_identity s else None)"

text \<open>
  \<open>run\<close>: a turn of the loop whose receive timed out, one that served a retry command first,
  and the return on \<open>Stop\<close> or a closed channel.
\<close>

datatype run_state = Looping supervisor | Returned supervisor

definition clock_ok :: "supervisor \<Rightarrow> instant \<Rightarrow> turn \<Rightarrow> bool" where
  "clock_ok s t0 e \<longleftrightarrow> started_at s \<le> t0 \<and> t0 \<le> now_tick e \<and> now_tick e \<le> now_recover e \<and>
     now_recover e \<le> now_publish e"

inductive run_step :: "run_state \<Rightarrow> run_state \<Rightarrow> bool" where
  turn_timeout: "clock_ok s t e \<Longrightarrow> run_step (Looping s) (Looping (tick s e))"
| turn_retry: "clock_ok s t1 e \<Longrightarrow> started_at s \<le> t0 \<Longrightarrow> t0 \<le> t1 \<Longrightarrow>
    run_step (Looping s) (Looping (tick (fst (manual_retry s t0 t1)) e))"
| turn_stop: "run_step (Looping s) (Returned (stop_child s))"

inductive_cases run_stepE: "run_step r r'"

section \<open>Invariant\<close>

definition sup_base :: "supervisor \<Rightarrow> bool" where
  "sup_base s \<longleftrightarrow> policy_inv (policy s) \<and> config (policy s) = policy_config (timing s) \<and>
     automatic_restart_attempt (snapshot s) \<le> MAX_AUTOMATIC_RESTARTS \<and>
     0 < heartbeat_failure_limit (timing s)"

text \<open>When the circuit was opened at \<open>t\<close>, both of its clocks run from \<open>t\<close>.\<close>

definition opened_at :: "supervisor \<Rightarrow> instant \<Rightarrow> instant \<Rightarrow> bool" where
  "opened_at s retry_at t \<longleftrightarrow> started_at s \<le> t \<and>
     retry_at = t + circuit_open (config (policy s)) \<and>
     manual_half_open_at (policy s) =
       Some (dur_saturating_add (policy_time (policy s) (elapsed s t)) (circuit_open (config (policy s))))"

definition phase_inv :: "supervisor \<Rightarrow> bool" where
  "phase_inv s =
     (case phase s of
        PhaseWaiting t \<Rightarrow> child s = None \<and> ready_identity s = None \<and>
          (lc_state (snapshot s) = Starting \<and> retry_after_ms (snapshot s) = None \<or>
           lc_state (snapshot s) = RetryWait \<and> retry_after_ms (snapshot s) \<noteq> None)
      | PhaseStarting t \<Rightarrow> child s \<noteq> None \<and> ready_identity s = None \<and>
          lc_state (snapshot s) = Starting \<and> retry_after_ms (snapshot s) = None
      | PhaseRunning t n \<Rightarrow>
          (case child s of
             None \<Rightarrow> False
           | Some c \<Rightarrow> ready_identity s =
               Some \<lparr> supervisor_generation = generation (snapshot s), launch_id = c \<rparr>) \<and>
          lc_state (snapshot s) = Running \<and> retry_after_ms (snapshot s) = None \<and>
          heartbeat_failures (snapshot s) = n \<and> n < heartbeat_failure_limit (timing s)
      | PhaseCircuitOpen t \<Rightarrow> child s = None \<and> ready_identity s = None \<and>
          lc_state (snapshot s) = CircuitOpen \<and> retry_after_ms (snapshot s) \<noteq> None \<and>
          (\<exists>at. opened_at s t at)
      | PhaseBlocked \<Rightarrow> child s = None \<and> ready_identity s = None \<and>
          lc_state (snapshot s) = Blocked \<and> retry_after_ms (snapshot s) = None)"

definition sup_inv :: "supervisor \<Rightarrow> bool" where
  "sup_inv s \<longleftrightarrow> sup_base s \<and> phase_inv s"

fun run_inv :: "run_state \<Rightarrow> bool" where
  "run_inv (Looping s) = sup_inv s"
| "run_inv (Returned s) = (child s = None \<and> ready_identity s = None)"

subsection \<open>What the small steps keep\<close>

lemma restart_attempts_keep [simp]:
  "config (fst (restart_attempts p t)) = config p"
  "manual_half_open_at (fst (restart_attempts p t)) = manual_half_open_at p"
  by (simp_all add: restart_attempts_def Let_def)

lemmas small_steps = publish_state_def clear_ready_identity_def update_snapshot_def
  record_snapshot_def Let_def

lemma publish_state_keeps [simp]:
  "timing (publish_state s k r d n t) = timing s"
  "started_at (publish_state s k r d n t) = started_at s"
  "phase (publish_state s k r d n t) = phase s"
  "child (publish_state s k r d n t) = child s"
  "stopped_children (publish_state s k r d n t) = stopped_children s"
  "config (policy (publish_state s k r d n t)) = config (policy s)"
  "manual_half_open_at (policy (publish_state s k r d n t)) = manual_half_open_at (policy s)"
  "generation (snapshot (publish_state s k r d n t)) = generation (snapshot s)"
  by (simp_all add: small_steps split_beta)

lemma publish_state_sets [simp]:
  "lc_state (snapshot (publish_state s k r d n t)) = k"
  "transition_reason (snapshot (publish_state s k r d n t)) = r"
  "retry_after_ms (snapshot (publish_state s k r d n t)) = map_option duration_millis d"
  "heartbeat_failures (snapshot (publish_state s k r d n t)) = n"
  "ready_identity (publish_state s k r d n t) = (if k \<noteq> Running then None else ready_identity s)"
  by (simp_all add: small_steps split_beta)

lemma sup_base_publish [simp]:
  assumes "sup_base s"
  shows "sup_base (publish_state s k r d n t)"
  using assms rp.attempts_le [of "policy s"] rp.invar_attempts [of "policy s"]
  by (auto simp: sup_base_def small_steps split_beta elapsed_def)

lemma sup_base_updates [simp]:
  "sup_base (s\<lparr>child := c\<rparr>) = sup_base s"
  "sup_base (s\<lparr>phase := ph\<rparr>) = sup_base s"
  "sup_base (s\<lparr>ready_identity := i\<rparr>) = sup_base s"
  "sup_base (s\<lparr>next_start_reason := r\<rparr>) = sup_base s"
  "sup_base (s\<lparr>stopped_children := cs\<rparr>) = sup_base s"
  "sup_base (clear_ready_identity s) = sup_base s"
  by (simp_all add: sup_base_def clear_ready_identity_def)

lemma on_failure_config [simp]: "config (fst (on_failure p t)) = config p"
  by (simp add: on_failure_def Let_def)

lemma on_failure_OpenCircuit:
  assumes "on_failure p t = (p', OpenCircuit d)"
  shows "d = circuit_open (config p)"
    and "manual_half_open_at p' =
      Some (dur_saturating_add (policy_time p t) (circuit_open (config p)))"
  using assms by (auto simp: on_failure_def Let_def split: if_splits)

lemma sup_base_policy:
  assumes "sup_base s" and "policy_inv p" and "config p = config (policy s)"
  shows "sup_base (s\<lparr>policy := p\<rparr>)"
  using assms by (simp add: sup_base_def)

lemma sup_inv_block: "sup_base s \<Longrightarrow> sup_inv (block s r t)"
  by (simp add: sup_inv_def block_def phase_inv_def clear_ready_identity_def)

lemma stop_child_simps [simp]:
  "child (stop_child s) = None"
  "ready_identity (stop_child s) = None"
  "timing (stop_child s) = timing s"
  "policy (stop_child s) = policy s"
  "started_at (stop_child s) = started_at s"
  "snapshot (stop_child s) = snapshot s"
  by (simp_all add: stop_child_def clear_ready_identity_def split: option.split)

lemma sup_base_stop_child [simp]: "sup_base (stop_child s) = sup_base s"
  by (simp add: sup_base_def)


lemma sup_inv_recover:
  assumes "sup_base s" and "started_at s \<le> now"
  shows "sup_inv (recover s ex now pub)"
proof -
  obtain p d where fail: "on_failure (policy s) (elapsed s now) = (p, d)"
    by (cases "on_failure (policy s) (elapsed s now)")
  have p: "policy_inv p" "config p = config (policy s)"
    using fail assms(1) rp.invar_fail [of "policy s" "elapsed s now"]
      on_failure_config [of "policy s" "elapsed s now"]
    by (simp_all add: sup_base_def)
  let ?s = "clear_ready_identity (s\<lparr>child := None\<rparr>)
      \<lparr> snapshot := snapshot s\<lparr> last_exit := Some ex \<rparr>, policy := p \<rparr>"
  have base: "sup_base ?s"
    using assms(1) p by (simp add: sup_base_def clear_ready_identity_def)
  have el: "elapsed (clear_ready_identity (s\<lparr>child := None\<rparr>)\<lparr> snapshot := y\<rparr>) now = elapsed s now" for y
    by (simp add: elapsed_def clear_ready_identity_def)
  show ?thesis
  proof (cases d)
    case (RetryAfter delay)
    then show ?thesis
      using base fail
      by (simp add: recover_def sup_inv_def phase_inv_def clear_ready_identity_def
          update_snapshot_def elapsed_def)
  next
    case (OpenCircuit delay)
    note oc = on_failure_OpenCircuit [OF fail [unfolded OpenCircuit]]
    show ?thesis
      using base fail oc p assms(2) OpenCircuit
      by (auto simp: recover_def sup_inv_def phase_inv_def clear_ready_identity_def
          update_snapshot_def elapsed_def opened_at_def policy_time_def intro!: exI [of _ now])
  qed
qed

lemma sup_inv_attempt_start:
  assumes "sup_inv s" and "phase s = PhaseWaiting t" and "started_at s \<le> now_recover e"
  shows "sup_inv (attempt_start s e)"
proof -
  have base: "sup_base s" using assms(1) by (simp add: sup_inv_def)
  show ?thesis
  proof (cases "spawn_result e")
    case (Inl f)
    then show ?thesis
      using sup_inv_block [OF base] sup_inv_recover [OF base assms(3)]
      by (cases f) (simp_all add: attempt_start_def)
  next
    case (Inr c)
    then show ?thesis
      using base by (simp add: attempt_start_def sup_inv_def phase_inv_def)
  qed
qed

lemma handle_child_exit_cases:
  assumes "sup_base s" and "started_at s \<le> now_recover e"
  obtains (gone) s' where "handle_child_exit s e = (s', True)" and "sup_inv s'"
  | (live) c where "handle_child_exit s e = (s, False)" and "child s = Some c"
      and "poll_exit e = ChildRunning"
proof -
  let ?s = "s\<lparr>child := None\<rparr>"
  have "sup_inv (recover ?s x (now_recover e) pub)" "sup_inv (block ?s r pub)" for x r pub
    using sup_inv_recover [of ?s] sup_inv_block [of ?s] assms by simp_all
  then show thesis
    using that by (cases "child s"; cases "poll_exit e") (auto simp: handle_child_exit_def)
qed

lemma sup_inv_enter_running:
  assumes "sup_base s" and "child s = Some c"
  shows "sup_inv (enter_running s now)"
  using assms rp.invar_ready [of "policy s"]
  by (simp add: enter_running_def sup_inv_def sup_base_def phase_inv_def update_snapshot_def
      record_snapshot_def on_ready_def Let_def)

lemma sup_inv_observe_starting:
  assumes "sup_inv s" and "phase s = PhaseStarting d" and "started_at s \<le> now_recover e"
  shows "sup_inv (observe_starting s e d)"
proof -
  have base: "sup_base s" using assms(1) by (simp add: sup_inv_def)
  from base assms(3) show ?thesis
  proof (cases rule: handle_child_exit_cases)
    case (gone s')
    then show ?thesis by (simp add: observe_starting_def)
  next
    case (live c)
    then show ?thesis
      using assms base sup_inv_enter_running [OF base live(2)] sup_inv_block [of "stop_child s"]
        sup_inv_recover [of "stop_child s"]
      by (cases "probe e") (simp_all add: observe_starting_def child_probe_def)
  qed
qed

lemma sup_inv_ready_heartbeat:
  assumes "sup_inv s" and "phase s = PhaseRunning h n" and "child s = Some c"
    and "handle_child_exit s e = (s, False)" and "h \<le> now_tick e" and "probe e = ProbeReady"
  shows "sup_inv (observe_running s e h n)"
proof -
  have base: "sup_base s" and ph: "phase_inv s" using assms(1) by (simp_all add: sup_inv_def)
  have "policy_inv (policy s)" using base by (simp add: sup_base_def)
  then have "policy_inv (fst (restart_attempts (complete_stable_reset (policy s) t) t))"
    "snd (restart_attempts (complete_stable_reset (policy s) t) t) = 0" for t
    by (simp_all add: rp.invar_attempts rp.invar_reset rp.attempts_reset)
  then show ?thesis
    using assms base ph
    by (auto simp: observe_running_def child_probe_def sup_inv_def sup_base_def phase_inv_def
        update_snapshot_def record_snapshot_def Let_def split_beta elapsed_def
        complete_stable_reset_def)
qed

lemma sup_inv_observe_running:
  assumes "sup_inv s" and "phase s = PhaseRunning h n" and "started_at s \<le> now_recover e"
  shows "sup_inv (observe_running s e h n)"
proof -
  have base: "sup_base s" and ph: "phase_inv s" using assms(1) by (simp_all add: sup_inv_def)
  from base assms(3) show ?thesis
  proof (cases rule: handle_child_exit_cases)
    case (gone s')
    then show ?thesis by (simp add: observe_running_def)
  next
    case (live c)
    show ?thesis
    proof (cases "now_tick e < h \<or> probe e \<noteq> ProbeUnavailable")
      case True
      then show ?thesis
        using assms(1) live base sup_inv_block [of "stop_child s"]
          sup_inv_ready_heartbeat [OF assms(1,2) live(2,1)]
        by (cases "probe e"; cases "now_tick e < h")
          (simp_all add: observe_running_def child_probe_def not_less)
    next
      case False
      then show ?thesis
        using live base ph assms sup_inv_recover [of "stop_child s"]
        by (auto simp: observe_running_def child_probe_def Let_def sup_inv_def sup_base_def
            phase_inv_def update_snapshot_def record_snapshot_def)
    qed
  qed
qed

lemma sup_inv_tick:
  assumes "sup_inv s" and "started_at s \<le> now_recover e"
  shows "sup_inv (tick s e)"
proof (cases "phase s")
  case (PhaseCircuitOpen r)
  then show ?thesis
    using assms(1)
    by (auto simp: tick_def sup_inv_def sup_base_def phase_inv_def update_snapshot_def Let_def
        opened_at_def policy_time_def elapsed_def)
qed (use assms sup_inv_attempt_start sup_inv_observe_starting sup_inv_observe_running
      in \<open>simp_all add: tick_def\<close>)

lemma begin_manual_config [simp]: "config (fst (begin_manual_half_open p t)) = config p"
  by (simp add: begin_manual_half_open_def begin_half_open_def Let_def split: option.split)

lemma begin_manual_rejected: "\<not> snd (begin_manual_half_open p t) \<Longrightarrow> fst (begin_manual_half_open p t) = p"
  by (auto simp: begin_manual_half_open_def Let_def split: option.splits)

lemma manual_retry_started_at [simp]: "started_at (fst (manual_retry s t u)) = started_at s"
  by (auto simp: manual_retry_def Let_def split: actor_phase.split prod.split)

lemma sup_inv_manual_retry:
  assumes "sup_inv s"
  shows "sup_inv (fst (manual_retry s t u))"
proof (cases "phase s")
  case (PhaseCircuitOpen r)
  let ?m = "begin_manual_half_open (policy s) (elapsed s t)"
  have base: "sup_base s" and ph: "phase_inv s" using assms by (simp_all add: sup_inv_def)
  have "sup_base (s\<lparr>policy := fst ?m\<rparr>)"
    using base rp.invar_half_open [of "policy s"] by (simp add: sup_base_def)
  moreover have "s\<lparr>policy := policy s\<rparr> = s" by simp
  ultimately show ?thesis
    using PhaseCircuitOpen assms ph begin_manual_rejected [of "policy s" "elapsed s t"]
    by (cases ?m) (auto simp: manual_retry_def Let_def sup_inv_def phase_inv_def)
next
  case PhaseBlocked
  then show ?thesis
    using assms by (simp add: manual_retry_def sup_inv_def phase_inv_def)
qed (use assms in \<open>simp_all add: manual_retry_def\<close>)

definition run_init :: "run_state \<Rightarrow> bool" where
  "run_init r \<longleftrightarrow> (\<exists>tm now. 0 < heartbeat_failure_limit tm \<and> r = Looping (supervisor_new tm now))"

lemma sup_inv_new: "0 < heartbeat_failure_limit tm \<Longrightarrow> sup_inv (supervisor_new tm now)"
  using rp.invar_new [of "policy_config tm"]
  by (simp add: sup_inv_def sup_base_def phase_inv_def supervisor_new_def snapshot_initial_def
      policy_new_def)

interpretation sup: safety run_init run_step run_inv
proof unfold_locales
  fix r assume "run_init r"
  then show "run_inv r" by (auto simp: run_init_def sup_inv_new)
next
  fix r r' assume "run_inv r" and "run_step r r'"
  then show "run_inv r'"
    by (auto elim!: run_stepE simp: clock_ok_def intro!: sup_inv_tick sup_inv_manual_retry)
qed

section \<open>Properties of the supervisor\<close>

text \<open>
  C27. In every reachable state of the supervisor loop, the identity published to clients is
  exactly that of the supervised child: it is there only in the running phase, it names
  the child that is held and the generation of the snapshot, and a child is held exactly
  in the starting and running phases.
\<close>

theorem published_identity_is_live_child:
  assumes "reach run_init run_step (Looping s)"
  shows "public_ready_identity s =
      (case phase s of
         PhaseRunning h n \<Rightarrow>
           map_option (\<lambda>c. \<lparr> supervisor_generation = generation (snapshot s), launch_id = c \<rparr>) (child s)
       | _ \<Rightarrow> None) \<and>
    (child s \<noteq> None \<longleftrightarrow>
      (\<exists>d. phase s = PhaseStarting d) \<or> (\<exists>h n. phase s = PhaseRunning h n))"
  using sup.reach_inv [OF assms]
  by (auto simp: sup_inv_def phase_inv_def public_ready_identity_def
      split: actor_phase.splits option.splits)

definition sample_turn :: "nat \<Rightarrow> daemon_probe \<Rightarrow> turn" where
  "sample_turn t pr =
     \<lparr> now_tick = t, now_recover = t, now_publish = t, spawn_result = Ok ''launch-1'',
       poll_exit = ChildRunning, probe = pr \<rparr>"

definition sample_running :: supervisor where
  "sample_running =
     tick (tick (supervisor_new production_timing 0) (sample_turn 0 ProbeReady)) (sample_turn 1 ProbeReady)"

lemma sample_running_reach: "reach run_init run_step (Looping sample_running)"
proof -
  have "reach run_init run_step (Looping (supervisor_new production_timing 0))"
    by (rule reach_init, unfold run_init_def, rule exI [of _ production_timing])
      (auto simp: production_timing_def)
  then have "reach run_init run_step (Looping (tick (supervisor_new production_timing 0) (sample_turn 0 ProbeReady)))"
    by (rule reach_step) (rule turn_timeout [of _ 0], simp add: clock_ok_def supervisor_new_def sample_turn_def)
  then show ?thesis
    unfolding sample_running_def
    by (rule reach_step) (rule turn_timeout [of _ 1],
        simp add: clock_ok_def supervisor_new_def sample_turn_def tick_def attempt_start_def)
qed

lemma sample_running_state:
  "phase sample_running = PhaseRunning 5000000001 0" "child sample_running = Some ''launch-1''"
  "generation (snapshot sample_running) = 1" "stopped_children sample_running = []"
  "timing sample_running = production_timing"
  "public_ready_identity sample_running =
     Some \<lparr> supervisor_generation = 1, launch_id = ''launch-1'' \<rparr>"
  by (simp_all add: sample_running_def tick_def attempt_start_def supervisor_new_def sample_turn_def
      production_timing_def observe_starting_def handle_child_exit_def child_probe_def
      enter_running_def update_snapshot_def record_snapshot_def snapshot_initial_def Let_def
      from_secs_def sat_add64_def u64_max_def public_ready_identity_def)

theorem published_identity_witness:
  "public_ready_identity sample_running = Some \<lparr> supervisor_generation = 1, launch_id = ''launch-1'' \<rparr>"
  using published_identity_is_live_child [OF sample_running_reach]
  by (simp add: sample_running_state)

subsection \<open>Generations name launches\<close>

definition same_or_next :: "supervisor \<Rightarrow> supervisor \<Rightarrow> bool" where
  "same_or_next s s' \<longleftrightarrow>
     generation (snapshot s') = generation (snapshot s) \<and>
       (ready_identity s' = None \<or> ready_identity s' = ready_identity s) \<or>
     generation (snapshot s') = sat_add64 (generation (snapshot s)) 1"

lemma recover_generation [simp]:
  "generation (snapshot (recover s x t u)) = generation (snapshot s)"
  "ready_identity (recover s x t u) = None"
  by (simp_all add: recover_def clear_ready_identity_def update_snapshot_def Let_def split_beta
      split: recovery_decision.split)

lemma block_generation [simp]:
  "generation (snapshot (block s r t)) = generation (snapshot s)"
  "ready_identity (block s r t) = None"
  by (simp_all add: block_def clear_ready_identity_def)

lemma handle_child_exit_generation:
  "handle_child_exit s e = (s', b) \<Longrightarrow>
     s' = s \<or> generation (snapshot s') = generation (snapshot s) \<and> ready_identity s' = None"
  by (auto simp: handle_child_exit_def split: child_exit_outcome.splits if_splits)

lemma enter_running_generation:
  "generation (snapshot (enter_running s t)) = sat_add64 (generation (snapshot s)) 1"
  by (simp add: enter_running_def update_snapshot_def record_snapshot_def Let_def)

lemma tick_generation: "same_or_next s (tick s e)"
proof (cases "phase s")
  case (PhaseStarting d)
  then show ?thesis
    using handle_child_exit_generation [of s e]
    by (cases "handle_child_exit s e")
      (auto simp: same_or_next_def tick_def observe_starting_def enter_running_generation
        split: daemon_probe.splits)
next
  case (PhaseRunning h n)
  then show ?thesis
    using handle_child_exit_generation [of s e]
    by (cases "handle_child_exit s e")
      (auto simp: same_or_next_def tick_def observe_running_def update_snapshot_def
        record_snapshot_def Let_def split_beta split: daemon_probe.splits)
qed (auto simp: same_or_next_def tick_def attempt_start_def update_snapshot_def Let_def
      split: sum.split runtime_failure.split)

lemma manual_retry_generation:
  "generation (snapshot (fst (manual_retry s t u))) = generation (snapshot s)"
  "ready_identity (fst (manual_retry s t u)) = None \<or>
   ready_identity (fst (manual_retry s t u)) = ready_identity s"
  by (auto simp: manual_retry_def Let_def split: actor_phase.split prod.split)

lemma public_ready_identity_inv: "sup_inv s \<Longrightarrow> public_ready_identity s = ready_identity s"
  by (auto simp: sup_inv_def phase_inv_def public_ready_identity_def split: actor_phase.splits)

fun names_launch :: "ready_daemon_identity \<Rightarrow> run_state \<Rightarrow> bool" where
  "names_launch i (Looping s) =
     (supervisor_generation i \<le> generation (snapshot s) \<and>
      (generation (snapshot s) = supervisor_generation i \<longrightarrow>
         ready_identity s = None \<or> ready_identity s = Some i))"
| "names_launch i (Returned s) = True"

lemma names_launch_step:
  assumes "names_launch i r" and "run_step r r'" and "supervisor_generation i < u64_max"
  shows "names_launch i r'"
  using assms(2)
proof (cases rule: run_step.cases)
  case (turn_timeout s t e)
  then show ?thesis
    using assms tick_generation [of s e] by (auto simp: same_or_next_def sat_add64_def)
next
  case (turn_retry s t1 e t0)
  then show ?thesis
    using assms tick_generation [of "fst (manual_retry s t0 t1)" e] manual_retry_generation [of s t0 t1]
    by (auto simp: same_or_next_def sat_add64_def)
qed simp

lemma names_launch_run:
  "run_step\<^sup>*\<^sup>* r r' \<Longrightarrow> names_launch i r \<Longrightarrow> supervisor_generation i < u64_max \<Longrightarrow> names_launch i r'"
  by (induction rule: rtranclp_induct) (auto intro: names_launch_step)

text \<open>
  A supervisor generation identifies one launch for the life of the supervisor: two
  identities published at any two moments of a run with the same generation (below the
  saturation value) are equal, so they name the same launch.
\<close>

theorem generation_identifies_launch:
  assumes "reach run_init run_step (Looping s)" and "run_step\<^sup>*\<^sup>* (Looping s) (Looping s')"
    and "public_ready_identity s = Some i" and "public_ready_identity s' = Some j"
    and "supervisor_generation i = supervisor_generation j" and "supervisor_generation i < u64_max"
  shows "i = j"
proof -
  have inv: "sup_inv s" "sup_inv s'"
    using sup.reach_inv [OF assms(1)] sup.steps_inv [OF _ assms(2)] by auto
  then have ids: "ready_identity s = Some i" "ready_identity s' = Some j"
    using assms(3,4) by (simp_all add: public_ready_identity_inv)
  moreover have "names_launch i (Looping s)"
    using inv ids by (auto simp: sup_inv_def phase_inv_def split: actor_phase.splits option.splits)
  ultimately have "names_launch i (Looping s')"
    using names_launch_run [OF assms(2)] assms(6) by blast
  moreover have "generation (snapshot s') = supervisor_generation j"
    using inv(2) ids by (auto simp: sup_inv_def phase_inv_def split: actor_phase.splits option.splits)
  ultimately have "ready_identity s' = None \<or> ready_identity s' = Some i"
    using assms(5) by (metis names_launch.simps(1))
  then show ?thesis using ids(2) by (metis option.distinct(1) option.inject)
qed

theorem generation_identifies_launch_witness:
  "\<exists>i. public_ready_identity sample_running = Some i \<and> i = \<lparr> supervisor_generation = 1, launch_id = ''launch-1'' \<rparr>"
  using generation_identifies_launch [OF sample_running_reach rtranclp.rtrancl_refl
      sample_running_state(6) sample_running_state(6)]
  by (simp add: sample_running_state u64_max_def)

subsection \<open>Manual retry\<close>

lemma dur_sat_chain: "dur_saturating_add (dur_saturating_add w a) c = min (w + a + c) dur_max"
  by (auto simp: dur_saturating_add_def)

text \<open>
  In every reachable state a manual retry is accepted exactly when the supervisor is
  blocked, or its circuit is open and the published retry instant has passed: the second,
  independent clock kept by the restart policy never refuses what the first one allows.
\<close>

theorem manual_retry_accepted_iff:
  assumes "reach run_init run_step (Looping s)"
  shows "snd (manual_retry s now pub) = Ok () \<longleftrightarrow>
    phase s = PhaseBlocked \<or> (\<exists>r. phase s = PhaseCircuitOpen r \<and> r \<le> now)"
proof (cases "phase s")
  case (PhaseCircuitOpen r)
  then obtain t where t: "opened_at s r t"
    using sup.reach_inv [OF assms] by (auto simp: sup_inv_def phase_inv_def)
  have "\<not> policy_time (policy s) (elapsed s now) <
      dur_saturating_add (policy_time (policy s) (elapsed s t)) (circuit_open (config (policy s)))"
    if "r \<le> now"
    using t that
    by (simp add: opened_at_def elapsed_def policy_time_def dur_sat_chain)
      (auto simp: dur_saturating_add_def)
  then show ?thesis
    using PhaseCircuitOpen t
    by (auto simp: manual_retry_def begin_manual_half_open_def opened_at_def Let_def)
qed (simp_all add: manual_retry_def)

definition sample_blocked :: supervisor where
  "sample_blocked = tick sample_running (sample_turn 5000000001 ProbeProtocolMismatch)"

theorem manual_retry_accepted_witness:
  "phase sample_blocked = PhaseBlocked \<and> snd (manual_retry sample_blocked 7 8) = Ok ()"
proof -
  have "started_at sample_running = 0"
    by (simp add: sample_running_def tick_def attempt_start_def supervisor_new_def sample_turn_def
      observe_starting_def handle_child_exit_def child_probe_def
      enter_running_def update_snapshot_def record_snapshot_def Let_def)
  then have "reach run_init run_step (Looping sample_blocked)"
    unfolding sample_blocked_def
    by (intro reach_step [OF sample_running_reach] turn_timeout [of _ 5])
      (simp add: clock_ok_def sample_turn_def)
  moreover have "phase sample_blocked = PhaseBlocked"
    by (simp add: sample_blocked_def tick_def sample_running_state observe_running_def
        sample_turn_def handle_child_exit_def child_probe_def block_def)
  ultimately show ?thesis
    using manual_retry_accepted_iff [of sample_blocked 7 8] by simp
qed

subsection \<open>Heartbeats\<close>

fun ticks :: "supervisor \<Rightarrow> turn list \<Rightarrow> supervisor" where
  "ticks s [] = s"
| "ticks s (e # es) = ticks (tick s e) es"

text \<open>Turns at which the child lives, is due for a heartbeat and does not answer.\<close>

fun silent :: "duration \<Rightarrow> instant \<Rightarrow> turn list \<Rightarrow> bool" where
  "silent gap due [] = True"
| "silent gap due (e # es) \<longleftrightarrow> due \<le> now_tick e \<and> poll_exit e = ChildRunning \<and>
     probe e = ProbeUnavailable \<and> silent gap (now_tick e + gap) es"

lemma silent_take:
  "silent g h (es @ fs) \<Longrightarrow> silent g h (take k es)"
proof (induction es arbitrary: h k)
  case (Cons e es)
  then show ?case by (cases k) auto
qed simp

lemma ticks_append: "ticks s (es @ fs) = ticks (ticks s es) fs"
  by (induction es arbitrary: s) auto

lemma recover_phase:
  "(\<exists>t. phase (recover s x n p) = PhaseWaiting t) \<or> (\<exists>t. phase (recover s x n p) = PhaseCircuitOpen t)"
  by (simp add: recover_def Let_def split_beta split: recovery_decision.split)

lemma recover_stopped [simp]: "stopped_children (recover s x n p) = stopped_children s"
  "child (recover s x n p) = None"
  "last_exit (snapshot (recover s x n p)) = Some x"
  by (simp_all add: recover_def Let_def split_beta clear_ready_identity_def update_snapshot_def
      small_steps split: recovery_decision.split)

lemma silent_tick:
  assumes "phase s = PhaseRunning h n" and "child s = Some c" and "n < 255"
    and "silent (heartbeat_interval (timing s)) h [e]"
  shows "n + 1 < heartbeat_failure_limit (timing s) \<Longrightarrow>
      phase (tick s e) = PhaseRunning (now_tick e + heartbeat_interval (timing s)) (n + 1) \<and>
      child (tick s e) = Some c \<and> timing (tick s e) = timing s \<and>
      stopped_children (tick s e) = stopped_children s"
    and "heartbeat_failure_limit (timing s) \<le> n + 1 \<Longrightarrow>
      tick s e = recover (stop_child s) ExitHeartbeatTimeout (now_recover e) (now_publish e)"
  using assms
  by (simp_all add: tick_def observe_running_def handle_child_exit_def child_probe_def Let_def
      update_snapshot_def record_snapshot_def min_def)

lemma silent_ticks:
  assumes "phase s = PhaseRunning h n" and "child s = Some c"
    and "silent (heartbeat_interval (timing s)) h es"
    and "n + length es < heartbeat_failure_limit (timing s)" and "heartbeat_failure_limit (timing s) \<le> 255"
  shows "\<exists>h'. phase (ticks s es) = PhaseRunning h' (n + length es) \<and> child (ticks s es) = Some c \<and>
    timing (ticks s es) = timing s \<and> stopped_children (ticks s es) = stopped_children s \<and>
    (\<forall>e. silent (heartbeat_interval (timing s)) h (es @ [e]) \<longrightarrow>
         silent (heartbeat_interval (timing s)) h' [e])"
  using assms
proof (induction es arbitrary: s h n)
  case (Cons e es)
  have "phase (tick s e) = PhaseRunning (now_tick e + heartbeat_interval (timing s)) (n + 1) \<and>
      child (tick s e) = Some c \<and> timing (tick s e) = timing s \<and>
      stopped_children (tick s e) = stopped_children s"
    using silent_tick(1) [of s h n c e] Cons.prems by simp
  then show ?case
    using Cons.IH [of "tick s e" _ "n + 1"] Cons.prems by simp
qed simp

text \<open>
  A running child that stops answering survives every heartbeat short of the limit and
  is stopped at the limit, neither earlier nor later: after fewer consecutive missed
  heartbeats than \<open>heartbeat_failure_limit\<close> the phase is still running with the same
  child; the heartbeat that reaches the limit stops that very child, records the timeout and
  leaves the supervisor waiting for a retry or with its circuit open.
\<close>

theorem heartbeat_limit_exact:
  assumes "phase s = PhaseRunning h 0" and "child s = Some c"
    and "silent (heartbeat_interval (timing s)) h (es @ [e])"
    and "heartbeat_failure_limit (timing s) \<le> 255"
    and "length es + 1 = heartbeat_failure_limit (timing s)"
  shows "(\<forall>k \<le> length es. \<exists>h'. phase (ticks s (take k es)) = PhaseRunning h' k \<and>
            child (ticks s (take k es)) = Some c) \<and>
    (let s' = ticks s (es @ [e])
     in child s' = None \<and> stopped_children s' = stopped_children s @ [c] \<and>
        last_exit (snapshot s') = Some ExitHeartbeatTimeout \<and>
        ((\<exists>t. phase s' = PhaseWaiting t) \<or> (\<exists>t. phase s' = PhaseCircuitOpen t)))"
proof (intro conjI allI impI)
  fix k assume k: "k \<le> length es"
  then have "length (take k es) = k" "0 + k < heartbeat_failure_limit (timing s)"
    using assms(5) by simp_all
  then show "\<exists>h'. phase (ticks s (take k es)) = PhaseRunning h' k \<and> child (ticks s (take k es)) = Some c"
    using silent_ticks [OF assms(1,2), of "take k es"] silent_take [OF assms(3), of k] assms(4)
    by (metis add_0)
next
  obtain h' where run: "phase (ticks s es) = PhaseRunning h' (length es)"
    "child (ticks s es) = Some c" "timing (ticks s es) = timing s"
    "stopped_children (ticks s es) = stopped_children s"
    "silent (heartbeat_interval (timing s)) h' [e]"
    using silent_ticks [OF assms(1,2), of es] silent_take [OF assms(3), of "length es"] assms(3-5)
    by auto
  have "tick (ticks s es) e =
      recover (stop_child (ticks s es)) ExitHeartbeatTimeout (now_recover e) (now_publish e)"
    using silent_tick(2) [OF run(1,2), of e] run(3,5) assms(4,5) by simp
  moreover have "stopped_children (stop_child (ticks s es)) = stopped_children s @ [c]"
    using run by (simp add: stop_child_def clear_ready_identity_def)
  ultimately show "let s' = ticks s (es @ [e])
     in child s' = None \<and> stopped_children s' = stopped_children s @ [c] \<and>
        last_exit (snapshot s') = Some ExitHeartbeatTimeout \<and>
        ((\<exists>t. phase s' = PhaseWaiting t) \<or> (\<exists>t. phase s' = PhaseCircuitOpen t))"
    by (simp add: ticks_append recover_phase Let_def)
qed

definition silent_turns :: "turn list" where
  "silent_turns = map (\<lambda>t. sample_turn (from_secs t) ProbeUnavailable) [6, 12, 18]"

theorem heartbeat_limit_witness:
  "stopped_children (ticks sample_running silent_turns) = [''launch-1'']"
  using heartbeat_limit_exact [of sample_running 5000000001 "''launch-1''"
      "butlast silent_turns" "last silent_turns"]
  by (simp add: sample_running_state silent_turns_def sample_turn_def production_timing_def
      from_secs_def Let_def)

end
