(* ===== verification/RustText.thy ===== *)
theory RustText
  imports Prelude
begin

text \<open>
  Unicode text as the program sees it: a string is the list of its scalar values, its
  length in bytes is the length of its UTF-8 encoding, and the character classes that do
  not need Unicode tables are written out (\<open>char::is_control\<close>, \<open>char::is_whitespace\<close>,
  \<open>is_ascii_*\<close>).  Identifiers that are only compared or hold ASCII are HOL strings.
\<close>

type_synonym uchar = nat

type_synonym rtext = "uchar list"

abbreviation lit :: "string \<Rightarrow> rtext" where
  "lit \<equiv> map of_char"

definition is_control :: "uchar \<Rightarrow> bool" where
  "is_control c \<longleftrightarrow> c < 32 \<or> 127 \<le> c \<and> c < 160"

definition is_whitespace :: "uchar \<Rightarrow> bool" where
  "is_whitespace c \<longleftrightarrow> 9 \<le> c \<and> c \<le> 13 \<or> c = 32 \<or> c = 0x85 \<or> c = 0xA0 \<or> c = 0x1680 \<or>
     0x2000 \<le> c \<and> c \<le> 0x200A \<or> c = 0x2028 \<or> c = 0x2029 \<or> c = 0x202F \<or> c = 0x205F \<or> c = 0x3000"

definition len_utf8 :: "uchar \<Rightarrow> nat" where
  "len_utf8 c = (if c < 0x80 then 1 else if c < 0x800 then 2 else if c < 0x10000 then 3 else 4)"

definition utf8_len :: "rtext \<Rightarrow> nat" where
  "utf8_len s = sum_list (map len_utf8 s)"

definition trim_start :: "rtext \<Rightarrow> rtext" where
  "trim_start s = dropWhile is_whitespace s"

definition trim_end :: "rtext \<Rightarrow> rtext" where
  "trim_end s = rev (dropWhile is_whitespace (rev s))"

definition trim :: "rtext \<Rightarrow> rtext" where
  "trim s = trim_start (trim_end s)"

lemma utf8_len_simps [simp]:
  "utf8_len [] = 0"
  "utf8_len (c # s) = len_utf8 c + utf8_len s"
  "utf8_len (s @ t) = utf8_len s + utf8_len t"
  by (simp_all add: utf8_len_def)

lemma len_utf8_pos [simp]: "0 < len_utf8 c"
  by (simp add: len_utf8_def)

lemma len_utf8_ascii [simp]: "c < 128 \<Longrightarrow> len_utf8 c = 1"
  by (simp add: len_utf8_def)

lemma len_utf8_le_4: "len_utf8 c \<le> 4"
  by (simp add: len_utf8_def)

lemma length_le_utf8_len: "length s \<le> utf8_len s"
proof (induction s)
  case (Cons c s)
  then show ?case using len_utf8_pos [of c] by (simp del: len_utf8_pos)
qed simp

lemma utf8_len_eq_0 [simp]: "utf8_len s = 0 \<longleftrightarrow> s = []"
  using length_le_utf8_len [of s] by auto

lemma trim_start_Nil_iff: "trim_start s = [] \<longleftrightarrow> (\<forall>c \<in> set s. is_whitespace c)"
  by (simp add: trim_start_def dropWhile_eq_Nil_iff)

section \<open>Printing integers\<close>

fun nat_digits :: "nat \<Rightarrow> string" where
  "nat_digits n = (if n < 10 then [char_of (48 + n)] else nat_digits (n div 10) @ [char_of (48 + n mod 10)])"

declare nat_digits.simps [simp del]

definition decimal :: "int \<Rightarrow> string" where
  "decimal v = (if v < 0 then ''-'' @ nat_digits (nat (- v)) else nat_digits (nat v))"

text \<open>\<open>i64::to_le_bytes\<close>: two's complement, least significant byte first.\<close>

definition le_bytes64 :: "int \<Rightarrow> nat list" where
  "le_bytes64 v = map (\<lambda>i. nat (v div 2 ^ (8 * i) mod 256)) [0..<8]"

section \<open>UTF-8\<close>

definition utf8_char :: "uchar \<Rightarrow> nat list" where
  "utf8_char c =
     (if c < 0x80 then [c]
      else if c < 0x800 then [0xC0 + c div 64, 0x80 + c mod 64]
      else if c < 0x10000 then [0xE0 + c div 4096, 0x80 + c div 64 mod 64, 0x80 + c mod 64]
      else [0xF0 + c div 262144, 0x80 + c div 4096 mod 64, 0x80 + c div 64 mod 64, 0x80 + c mod 64])"

text \<open>The bytes of a string (\<open>str::as_bytes\<close>).\<close>

definition encode_utf8 :: "rtext \<Rightarrow> nat list" where
  "encode_utf8 s = concat (map utf8_char s)"

lemma length_encode_utf8: "length (encode_utf8 s) = utf8_len s"
  by (induction s) (simp_all add: encode_utf8_def utf8_char_def len_utf8_def)

text \<open>The scalar value that a group of bytes encodes.\<close>

fun utf8_scalar :: "nat list \<Rightarrow> uchar" where
  "utf8_scalar [a] = a"
| "utf8_scalar [a, b] = (a - 0xC0) * 64 + (b - 0x80)"
| "utf8_scalar [a, b, c] = (a - 0xE0) * 4096 + (b - 0x80) * 64 + (c - 0x80)"
| "utf8_scalar [a, b, c, d] = (a - 0xF0) * 262144 + (b - 0x80) * 4096 + (c - 0x80) * 64 + (d - 0x80)"
| "utf8_scalar bs = 0"

lemma base64_digits:
  "c div 4096 * 4096 + c div 64 mod 64 * 64 + c mod 64 = (c :: nat)"
  "c div 262144 * 262144 + c div 4096 mod 64 * 4096 + c div 64 mod 64 * 64 + c mod 64 = (c :: nat)"
proof -
  have step: "c div n div 64 * (64 * n) + c div n mod 64 * n = c div n * n" for n
    by (metis add_mult_distrib div_mult_mod_eq mult.assoc)
  have d: "c div 4096 = c div 64 div 64" "c div 262144 = c div 4096 div 64" by (simp_all add: div_mult2_eq [symmetric])
  show "c div 4096 * 4096 + c div 64 mod 64 * 64 + c mod 64 = c"
    using step [of 64] d(1) by simp
  then show "c div 262144 * 262144 + c div 4096 mod 64 * 4096 + c div 64 mod 64 * 64 + c mod 64 = c"
    using step [of 4096] d(2) by simp
qed

lemma utf8_scalar_char [simp]: "utf8_scalar (utf8_char c) = c"
  using base64_digits [of c] by (simp add: utf8_char_def)

text \<open>The first byte tells how many bytes follow.\<close>

lemma utf8_char_length:
  assumes "c < 0x110000"
  shows "\<exists>b bs. utf8_char c = b # bs \<and>
    length bs = (if b < 0x80 then 0 else if b < 0xE0 then 1 else if b < 0xF0 then 2 else 3)"
  using assms by (auto simp: utf8_char_def less_mult_imp_div_less)

lemma encode_utf8_inj:
  "encode_utf8 s = encode_utf8 t \<Longrightarrow> \<forall>c \<in> set s. c < 0x110000 \<Longrightarrow> \<forall>c \<in> set t. c < 0x110000 \<Longrightarrow> s = t"
proof (induction s arbitrary: t)
  case Nil
  then show ?case using utf8_char_length by (cases t) (fastforce simp: encode_utf8_def)+
next
  case (Cons c s)
  obtain b bs where c: "utf8_char c = b # bs"
    "length bs = (if b < 0x80 then 0 else if b < 0xE0 then 1 else if b < 0xF0 then 2 else 3)"
    using utf8_char_length [of c] Cons.prems(2) by auto
  then obtain d u where t: "t = d # u" using Cons.prems(1) by (cases t) (auto simp: encode_utf8_def)
  obtain b' bs' where d: "utf8_char d = b' # bs'"
    "length bs' = (if b' < 0x80 then 0 else if b' < 0xE0 then 1 else if b' < 0xF0 then 2 else 3)"
    using utf8_char_length [of d] Cons.prems(3) t by auto
  have "b = b'" "bs @ encode_utf8 s = bs' @ encode_utf8 u" using Cons.prems(1) t c(1) d(1) by (auto simp: encode_utf8_def)
  then have "utf8_char c = utf8_char d" "encode_utf8 s = encode_utf8 u" using c d by auto
  then show ?case using Cons t utf8_scalar_char by (metis list.set_intros(2))
qed

end
