(* ===== verification/SearchModel.thy ===== *)
theory SearchModel
  imports RustText
begin

text \<open>
  The data that the search components share: search publications and their snapshot
  descriptors (\<open>crates/meta-store/src/search_publication/model.rs\<close>), the vector model
  contract (\<open>crates/index-vector/src/model_contract.rs\<close>), the summaries that the opened
  indexes report, the ready head of the metadata store and the transaction around a query
  (\<open>crates/meta-store/src/search_snapshot.rs\<close> and its \<open>head.rs\<close>, \<open>error.rs\<close>).  Digests and
  generations are compared only, so they are strings.
\<close>

section \<open>Publications\<close>

datatype search_publication_state = Preparing | Validated | Ready | Abandoned

record fulltext_descriptor =
  ftd_generation :: string
  ftd_document_count :: nat
  ftd_projection_digest :: string
  ftd_logical_content_digest :: string

datatype vector_snapshot_mode = ModeDisabled | ModeEnabled rtext nat

record vector_descriptor =
  vd_generation :: string
  vd_mode :: vector_snapshot_mode
  vd_projection_count :: nat
  vd_projection_digest :: string
  vd_coverage_digest :: string
  vd_vector_count :: nat
  vd_document_count :: nat
  vd_resume_version_count :: nat
  vd_logical_content_digest :: string

definition disabled_descriptor ::
  "string \<Rightarrow> nat \<Rightarrow> string \<Rightarrow> string \<Rightarrow> string \<Rightarrow> vector_descriptor" where
  "disabled_descriptor gen n proj cov logical =
     \<lparr> vd_generation = gen, vd_mode = ModeDisabled, vd_projection_count = n,
       vd_projection_digest = proj, vd_coverage_digest = cov, vd_vector_count = 0,
       vd_document_count = 0, vd_resume_version_count = 0, vd_logical_content_digest = logical \<rparr>"

record search_publication =
  pub_generation :: string
  pub_base_generation :: "string option"
  pub_expected_visible_epoch :: nat
  pub_classifier_epoch :: string
  pub_projection_digest :: string
  pub_fingerprint :: "string option"
  pub_state :: search_publication_state
  pub_fulltext :: "fulltext_descriptor option"
  pub_vector :: "vector_descriptor option"
  pub_created_at :: int
  pub_updated_at :: int

record active_projection =
  document_id :: string
  resume_version_id :: string

section \<open>The vector model contract\<close>

datatype vector_index_error =
    VectorCancelled | PublicationBusy
  | InvalidDimension nat nat \<comment> \<open>expected, actual\<close>
  | InvalidVectorValue | InvalidModelId | InvalidVectorIdentity | InvalidVectorGeneration | InvalidModelContract
  | SemanticUnavailable | PublicationProjectionMismatch | DuplicateVectorId | ConflictingDocumentVersion
  | GenerationAlreadyExists | GenerationNotFound | LeaseRootMismatch | SchemaMismatch | CorruptSnapshot
  | StorageLayoutInvalid | VectorStorage

datatype vector_model_contract = ContractDisabled | ContractEnabled rtext nat

definition MAX_MODEL_ID_CHARS :: nat where
  "MAX_MODEL_ID_CHARS = 128"

definition MAX_VECTOR_DIMENSION :: nat where
  "MAX_VECTOR_DIMENSION = 65536"

definition validate_model_id :: "rtext \<Rightarrow> (vector_index_error, unit) result" where
  "validate_model_id m =
     (if length m = 0 \<or> MAX_MODEL_ID_CHARS < length m \<or> list_ex is_control m
      then Err InvalidModelId else Ok ())"

fun validate_contract :: "vector_model_contract \<Rightarrow> (vector_index_error, unit) result" where
  "validate_contract ContractDisabled = Ok ()"
| "validate_contract (ContractEnabled model dim) =
     rbind (validate_model_id model) (\<lambda>_.
       if dim = 0 then Err (InvalidDimension 1 0)
       else if MAX_VECTOR_DIMENSION < dim then Err (InvalidDimension MAX_VECTOR_DIMENSION dim)
       else Ok ())"

definition contract_enabled :: "rtext \<Rightarrow> nat \<Rightarrow> (vector_index_error, vector_model_contract) result" where
  "contract_enabled model dim =
     rbind (validate_contract (ContractEnabled model dim)) (\<lambda>_. Ok (ContractEnabled model dim))"

section \<open>Opened indexes\<close>

text \<open>A score is an \<open>f32\<close> that is passed on unread, kept as its bit pattern.\<close>

record fulltext_hit =
  fh_doc_id :: string
  fh_resume_version_id :: string
  fh_rank :: nat
  fh_score :: "32 word"
  fh_file_name :: rtext
  fh_snippet :: rtext

record published_snapshot_metadata =
  psm_generation :: string
  psm_document_count :: nat
  psm_projection_digest :: string
  psm_logical_content_digest :: string

record fulltext_index =
  ft_metadata :: "published_snapshot_metadata option"
  ft_identity_pairs :: "(string \<times> string) list option"
  ft_search :: "rtext \<Rightarrow> nat \<Rightarrow> string list option \<Rightarrow> fulltext_hit list option"

record vector_hit =
  vh_document_id :: string
  vh_resume_version_id :: string
  vh_score :: "32 word"

record vector_summary =
  vs_generation :: string
  vs_model_contract :: vector_model_contract
  vs_vector_count :: nat
  vs_projection_count :: nat
  vs_vector_document_count :: nat
  vs_projection_digest :: string
  vs_coverage_digest :: string
  vs_logical_content_digest :: string
  vs_artifact_digest :: string

record vector_reader =
  vr_summary :: vector_summary
  vr_projection :: "active_projection list"
  vr_knn :: "32 word list \<Rightarrow> nat \<Rightarrow> vector_hit list option"

section \<open>The metadata snapshot\<close>

datatype search_repair_reason =
  MigrationRebuild | ArtifactUnavailable | SourceUnavailable | RuntimeInvariant

datatype meta_store_error_class =
    Storage | Migration | MigrationOwnershipRequired | UnsupportedStoreSchema | InvalidValue
  | NotFound | InvalidTransition | ImmutableIdentityConflict | StorageInvariant
  | WeakPassphrase | InvalidBackup | Crypto | KeyAlreadyExists

datatype search_metadata_unavailable =
  Repairing search_repair_reason | RepairBlocked search_repair_reason

datatype 'e transaction_error =
  TxUnavailable search_metadata_unavailable | TxStore meta_store_error_class | TxOperation 'e

record search_metadata_head =
  hd_generation :: string
  hd_visible_epoch :: nat
  hd_publication :: search_publication

definition search_repair_reason_from_storage :: "string \<Rightarrow> search_repair_reason option" where
  "search_repair_reason_from_storage v =
     (if v = ''migration_rebuild'' then Some MigrationRebuild
      else if v = ''artifact_unavailable'' then Some ArtifactUnavailable
      else if v = ''source_unavailable'' then Some SourceUnavailable
      else if v = ''runtime_invariant'' then Some RuntimeInvariant
      else None)"

text \<open>
  \<open>read_ready_head\<close> on the row of \<open>search_projection_state\<close> and the publication lookup that
  the connection answers; the two constructors of \<open>SearchMetadataOpenError\<close> are those of the
  transaction error.
\<close>

record projection_state_row =
  row_service_state :: string
  row_generation :: "string option"
  row_visible_epoch :: int
  row_repair_reason :: "string option"

definition read_ready_head ::
  "(meta_store_error_class, projection_state_row) result \<Rightarrow>
   (string \<Rightarrow> (meta_store_error_class, search_publication option) result) \<Rightarrow>
   ('e transaction_error, search_metadata_head) result" where
  "read_ready_head row_result lookup =
     rbind (map_err TxStore row_result) (\<lambda>row.
     if row_service_state row \<noteq> ''ready'' then
       rbind (ok_or (TxStore StorageInvariant)
                (Option.bind (row_repair_reason row) search_repair_reason_from_storage)) (\<lambda>reason.
       if row_service_state row = ''repairing'' then Err (TxUnavailable (Repairing reason))
       else if row_service_state row = ''repair_blocked'' then Err (TxUnavailable (RepairBlocked reason))
       else Err (TxStore StorageInvariant))
     else if row_repair_reason row \<noteq> None then Err (TxStore StorageInvariant)
     else
       rbind (ok_or (TxStore StorageInvariant) (row_generation row)) (\<lambda>generation.
       rbind (map_err TxStore (lookup generation)) (\<lambda>found.
       rbind (ok_or (TxStore StorageInvariant)
                (case found of None \<Rightarrow> None | Some p \<Rightarrow> if pub_state p = Ready then Some p else None))
         (\<lambda>publication.
       if row_visible_epoch row < 0 then Err (TxStore StorageInvariant)
       else if u64_max < pub_expected_visible_epoch publication + 1
             \<or> pub_expected_visible_epoch publication + 1 \<noteq> nat (row_visible_epoch row)
       then Err (TxStore StorageInvariant)
       else Ok \<lparr> hd_generation = generation, hd_visible_epoch = nat (row_visible_epoch row),
                 hd_publication = publication \<rparr>))))"

lemma read_ready_head_Ready:
  assumes "read_ready_head r lookup = Ok h"
  shows "pub_state (hd_publication h) = Ready"
    and "lookup (hd_generation h) = Ok (Some (hd_publication h))"
    and "hd_visible_epoch h = pub_expected_visible_epoch (hd_publication h) + 1"
  using assms
  by (auto simp: read_ready_head_def result_simps split: if_splits option.splits)

end
