(* ===== verification/QueryCoordinator.thy ===== *)
theory QueryCoordinator
  imports SearchModel "HOL-Library.List_Lexorder" "HOL-Library.Char_ord"
begin

text \<open>
  The query coordinator (\<open>crates/search-runtime/src/coordinator.rs\<close>): the cached readers of
  the active generation, the pending prepared generation, and every operation that changes
  them.  The files on disk and the metadata store are the environment of a call
  (\<open>world\<close>): which leases are granted, which snapshot the metadata transaction sees, and what
  opening an index of a generation returns.  A read lease is moved into the open that uses
  it, so only whether it is granted matters.
\<close>

section \<open>Errors, keys and the state\<close>

datatype search_runtime_error =
  Unavailable | Integrity | SemanticDisabled | SelectionTooLarge | InvalidRequest

record cache_key =
  ck_generation :: string
  ck_publication_fingerprint :: string

record validated_fulltext =
  vf_key :: cache_key
  vf_fulltext :: fulltext_index

record validated_vector =
  vv_key :: cache_key
  vv_vector :: vector_reader

record prepared_generation =
  pg_data_dir :: string
  pg_fulltext :: validated_fulltext
  pg_vector :: validated_vector

record query_coordinator =
  data_dir :: string
  fulltext_cache :: "validated_fulltext option"
  vector_cache :: "validated_vector option"
  pending_generation :: "prepared_generation option"
  pending_artifact_fault :: "cache_key option"

record metadata_snapshot =
  ms_head :: search_metadata_head
  ms_projections :: "active_projection list option" \<comment> \<open>\<open>validated_active_projections\<close>\<close>

record world =
  w_canonical_dir :: "string option"
  w_store_open :: "(meta_store_error_class, unit) result"
  w_vector_root :: bool \<comment> \<open>\<open>VectorSnapshotRoot::new\<close> succeeds\<close>
  w_ft_lease :: "(unit, bool) result" \<comment> \<open>granted, or absent\<close>
  w_vec_lease :: bool
  w_begin :: "(search_runtime_error transaction_error, metadata_snapshot) result"
  w_commit :: "(meta_store_error_class, unit) result"
  w_open_fulltext :: "string \<Rightarrow> (unit, fulltext_index option) result"
  w_open_vector :: "string \<Rightarrow> vector_model_contract \<Rightarrow> vector_reader option"

section \<open>Errors of the store\<close>

fun map_store_error :: "meta_store_error_class \<Rightarrow> search_runtime_error" where
  "map_store_error Storage = Unavailable"
| "map_store_error Migration = Unavailable"
| "map_store_error MigrationOwnershipRequired = Unavailable"
| "map_store_error UnsupportedStoreSchema = Unavailable"
| "map_store_error Crypto = Unavailable"
| "map_store_error WeakPassphrase = Unavailable"
| "map_store_error InvalidBackup = Unavailable"
| "map_store_error KeyAlreadyExists = Unavailable"
| "map_store_error InvalidValue = Integrity"
| "map_store_error NotFound = Integrity"
| "map_store_error InvalidTransition = Integrity"
| "map_store_error ImmutableIdentityConflict = Integrity"
| "map_store_error StorageInvariant = Integrity"

fun map_transaction_error :: "search_runtime_error transaction_error \<Rightarrow> search_runtime_error" where
  "map_transaction_error (TxOperation e) = e"
| "map_transaction_error (TxStore c) = map_store_error c"
| "map_transaction_error (TxUnavailable u) = Unavailable"

text \<open>The closure runs on the snapshot; a successful closure is followed by the commit.\<close>

definition with_search_metadata_snapshot ::
  "world \<Rightarrow> (metadata_snapshot \<Rightarrow> ('s, search_runtime_error, 't) sr)
   \<Rightarrow> ('s, search_runtime_error transaction_error, 't) sr" where
  "with_search_metadata_snapshot w operation s =
     (case w_begin w of
        Inl e \<Rightarrow> (s, Inl e)
      | Inr snapshot \<Rightarrow>
          (case operation snapshot s of
             (s', Inr v) \<Rightarrow>
               (case w_commit w of Inl c \<Rightarrow> (s', Inl (TxStore c)) | Inr _ \<Rightarrow> (s', Inr v))
           | (s', Inl e) \<Rightarrow> (s', Inl (TxOperation e))))"

section \<open>Validation of a generation\<close>

definition cache_key_of :: "search_publication \<Rightarrow> (search_runtime_error, cache_key) result" where
  "cache_key_of p =
     rbind (ok_or Integrity (pub_fingerprint p)) (\<lambda>fp.
       Ok \<lparr> ck_generation = pub_generation p, ck_publication_fingerprint = fp \<rparr>)"

datatype generation_failure =
  MetadataError search_runtime_error | ArtifactError cache_key search_runtime_error

definition record_generation_error ::
  "generation_failure \<Rightarrow> (query_coordinator, search_runtime_error, 'a) sr" where
  "record_generation_error e q =
     (case e of
        MetadataError err \<Rightarrow> (q, Err err)
      | ArtifactError key err \<Rightarrow> (q\<lparr> pending_artifact_fault := Some key \<rparr>, Err err))"

fun generation_validation_error :: "generation_failure \<Rightarrow> search_runtime_error" where
  "generation_validation_error (MetadataError e) = e"
| "generation_validation_error (ArtifactError k e) = e"

definition validate_fulltext ::
  "fulltext_index \<Rightarrow> fulltext_descriptor \<Rightarrow> active_projection list \<Rightarrow> (search_runtime_error, unit) result" where
  "validate_fulltext ft d projections =
     rbind (ok_or Integrity (ft_metadata ft)) (\<lambda>m.
     rbind (ok_or Integrity (ft_identity_pairs ft)) (\<lambda>identities.
     let identities_match = (length identities = length projections \<and>
           list_all (\<lambda>(i, p). fst i = document_id p \<and> snd i = resume_version_id p)
             (zip identities projections))
     in if psm_generation m \<noteq> ftd_generation d
          \<or> psm_document_count m \<noteq> ftd_document_count d
          \<or> psm_projection_digest m \<noteq> ftd_projection_digest d
          \<or> psm_logical_content_digest m \<noteq> ftd_logical_content_digest d
          \<or> \<not> identities_match
        then Err Integrity else Ok ()))"

definition validate_vector ::
  "vector_reader \<Rightarrow> vector_descriptor \<Rightarrow> active_projection list \<Rightarrow> vector_model_contract
   \<Rightarrow> (search_runtime_error, unit) result" where
  "validate_vector v d projections contract =
     (let s = vr_summary v
      in if vs_generation s \<noteq> vd_generation d
           \<or> vs_model_contract s \<noteq> contract
           \<or> vs_projection_count s \<noteq> vd_projection_count d
           \<or> vs_vector_count s \<noteq> vd_vector_count d
           \<or> vs_vector_document_count s \<noteq> vd_document_count d
           \<or> vs_projection_digest s \<noteq> vd_projection_digest d
           \<or> vs_coverage_digest s \<noteq> vd_coverage_digest d
           \<or> vs_logical_content_digest s \<noteq> vd_logical_content_digest d
           \<or> vr_projection v \<noteq> projections
         then Err Integrity else Ok ())"

fun vector_contract :: "vector_snapshot_mode \<Rightarrow> (search_runtime_error, vector_model_contract) result" where
  "vector_contract ModeDisabled = Ok ContractDisabled"
| "vector_contract (ModeEnabled model dim) = map_err (\<lambda>_. Integrity) (contract_enabled model dim)"

definition open_fulltext_generation ::
  "world \<Rightarrow> cache_key \<Rightarrow> fulltext_descriptor \<Rightarrow> active_projection list
   \<Rightarrow> (generation_failure, validated_fulltext) result" where
  "open_fulltext_generation w key d projections =
     rbind (map_err (\<lambda>_. ArtifactError key Integrity) (w_open_fulltext w (ck_generation key))) (\<lambda>found.
     rbind (ok_or (ArtifactError key Unavailable) found) (\<lambda>ft.
     rbind (map_err (ArtifactError key) (validate_fulltext ft d projections)) (\<lambda>_.
       Ok \<lparr> vf_key = key, vf_fulltext = ft \<rparr>)))"

definition open_vector_generation ::
  "world \<Rightarrow> cache_key \<Rightarrow> vector_descriptor \<Rightarrow> active_projection list
   \<Rightarrow> (generation_failure, validated_vector) result" where
  "open_vector_generation w key d projections =
     rbind (map_err MetadataError (vector_contract (vd_mode d))) (\<lambda>contract.
     rbind (ok_or (ArtifactError key Integrity) (w_open_vector w (ck_generation key) contract)) (\<lambda>v.
     rbind (map_err (ArtifactError key) (validate_vector v d projections contract)) (\<lambda>_.
       Ok \<lparr> vv_key = key, vv_vector = v \<rparr>)))"

definition validate_fulltext_generation ::
  "world \<Rightarrow> metadata_snapshot \<Rightarrow> cache_key \<Rightarrow> active_projection list
   \<Rightarrow> (generation_failure, validated_fulltext) result" where
  "validate_fulltext_generation w snapshot key projections =
     rbind (ok_or (MetadataError Integrity) (pub_fulltext (hd_publication (ms_head snapshot)))) (\<lambda>d.
     if hd_generation (ms_head snapshot) \<noteq> ck_generation key \<or> ftd_generation d \<noteq> ck_generation key
     then Err (MetadataError Integrity)
     else open_fulltext_generation w key d projections)"

definition validate_vector_generation ::
  "world \<Rightarrow> metadata_snapshot \<Rightarrow> cache_key \<Rightarrow> active_projection list
   \<Rightarrow> (generation_failure, validated_vector) result" where
  "validate_vector_generation w snapshot key projections =
     rbind (ok_or (MetadataError Integrity) (pub_vector (hd_publication (ms_head snapshot)))) (\<lambda>d.
     if hd_generation (ms_head snapshot) \<noteq> ck_generation key \<or> vd_generation d \<noteq> ck_generation key
     then Err (MetadataError Integrity)
     else open_vector_generation w key d projections)"

section \<open>Prepared generations\<close>

definition prepared_open ::
  "world \<Rightarrow> search_publication \<Rightarrow> active_projection list
   \<Rightarrow> (search_runtime_error, prepared_generation) result" where
  "prepared_open w publication projections =
     rbind (ensure (pub_state publication = Validated \<or> pub_state publication = Ready) Unavailable) (\<lambda>_.
     rbind (ok_or Unavailable (w_canonical_dir w)) (\<lambda>dir.
     rbind (cache_key_of publication) (\<lambda>key.
     rbind (ok_or Integrity (pub_fulltext publication)) (\<lambda>ftd.
     rbind (ok_or Integrity (pub_vector publication)) (\<lambda>vd.
     rbind (map_err (\<lambda>_. Unavailable) (w_ft_lease w)) (\<lambda>granted.
     rbind (ensure granted Unavailable) (\<lambda>_.
     rbind (ensure (w_vector_root w) Unavailable) (\<lambda>_.
     rbind (ensure (w_vec_lease w) Unavailable) (\<lambda>_.
     rbind (map_err generation_validation_error
              (open_fulltext_generation w key ftd projections)) (\<lambda>ft.
     rbind (map_err generation_validation_error
              (open_vector_generation w key vd projections)) (\<lambda>v.
       Ok \<lparr> pg_data_dir = dir, pg_fulltext = ft, pg_vector = v \<rparr>)))))))))))"

definition coordinator_open :: "world \<Rightarrow> (search_runtime_error, query_coordinator) result" where
  "coordinator_open w =
     rbind (ok_or Unavailable (w_canonical_dir w)) (\<lambda>dir.
     rbind (map_err map_store_error (w_store_open w)) (\<lambda>_.
     rbind (ensure (w_vector_root w) Unavailable) (\<lambda>_.
       Ok \<lparr> data_dir = dir, fulltext_cache = None, vector_cache = None,
            pending_generation = None, pending_artifact_fault = None \<rparr>)))"

definition ft_matches :: "cache_key \<Rightarrow> query_coordinator \<Rightarrow> bool" where
  "ft_matches key q = (case fulltext_cache q of None \<Rightarrow> False | Some c \<Rightarrow> vf_key c = key)"

definition vec_matches :: "cache_key \<Rightarrow> query_coordinator \<Rightarrow> bool" where
  "vec_matches key q = (case vector_cache q of None \<Rightarrow> False | Some c \<Rightarrow> vv_key c = key)"

lemma matches_simps [simp]:
  "fulltext_cache q = None \<Longrightarrow> \<not> ft_matches key q"
  "fulltext_cache q = Some f \<Longrightarrow> ft_matches key q \<longleftrightarrow> vf_key f = key"
  "vector_cache q = None \<Longrightarrow> \<not> vec_matches key q"
  "vector_cache q = Some v \<Longrightarrow> vec_matches key q \<longleftrightarrow> vv_key v = key"
  by (simp_all add: ft_matches_def vec_matches_def)

definition prepare_current_generation :: "world \<Rightarrow> (query_coordinator, search_runtime_error, unit) sr" where
  "prepare_current_generation w =
     sr_bind (sr_map_err map_transaction_error (with_search_metadata_snapshot w (\<lambda>snapshot.
        sr_lift (rbind (ok_or Integrity (ms_projections snapshot)) (\<lambda>projections.
          Ok (hd_publication (ms_head snapshot), projections)))))) (\<lambda>(publication, projections).
     sr_bind (sr_lift (prepared_open w publication projections)) (\<lambda>prepared.
     sr_modify (\<lambda>q. q\<lparr> fulltext_cache := Some (pg_fulltext prepared),
                       vector_cache := Some (pg_vector prepared),
                       pending_generation := None \<rparr>)))"

definition install_prepared_generation ::
  "prepared_generation \<Rightarrow> (query_coordinator, search_runtime_error, unit) sr" where
  "install_prepared_generation prepared q =
     (if pg_data_dir prepared \<noteq> data_dir q then (q, Err Integrity)
      else if pending_generation q \<noteq> None then (q, Err Unavailable)
      else (q\<lparr> pending_generation := Some prepared \<rparr>, Ok ()))"

definition activate_prepared_generation :: "world \<Rightarrow> (query_coordinator, search_runtime_error, unit) sr" where
  "activate_prepared_generation w =
     sr_bind (sr_map_err map_transaction_error (with_search_metadata_snapshot w (\<lambda>snapshot.
        sr_lift (cache_key_of (hd_publication (ms_head snapshot)))))) (\<lambda>key q.
     case pending_generation q of
       Some prepared \<Rightarrow>
         (let q = q\<lparr> pending_generation := None \<rparr>
          in if vf_key (pg_fulltext prepared) \<noteq> key \<or> vv_key (pg_vector prepared) \<noteq> key
             then (q, Err Integrity)
             else (q\<lparr> fulltext_cache := Some (pg_fulltext prepared),
                      vector_cache := Some (pg_vector prepared) \<rparr>, Ok ()))
     | None \<Rightarrow> (q, ensure (ft_matches key q \<and> vec_matches key q) Unavailable))"

definition discard_prepared_generation :: "query_coordinator \<Rightarrow> query_coordinator" where
  "discard_prepared_generation q = q\<lparr> pending_generation := None \<rparr>"

definition resident_generation_count :: "query_coordinator \<Rightarrow> nat" where
  "resident_generation_count q =
     (let keys = (case fulltext_cache q of None \<Rightarrow> [] | Some c \<Rightarrow> [vf_key c])
               @ (case vector_cache q of None \<Rightarrow> [] | Some c \<Rightarrow> [vv_key c])
               @ (case pending_generation q of None \<Rightarrow> [] | Some p \<Rightarrow> [vf_key (pg_fulltext p)])
      in length (remdups_adj (sort_key ck_generation keys)))"

definition take_artifact_fault :: "query_coordinator \<Rightarrow> query_coordinator \<times> cache_key option" where
  "take_artifact_fault q = (q\<lparr> pending_artifact_fault := None \<rparr>, pending_artifact_fault q)"

section \<open>Queries\<close>

definition adopt_pending_generation :: "cache_key \<Rightarrow> (query_coordinator, search_runtime_error, unit) sr" where
  "adopt_pending_generation key q =
     (if ft_matches key q \<and> vec_matches key q then (q, Ok ())
      else case pending_generation q of
          Some p \<Rightarrow>
            if vf_key (pg_fulltext p) = key \<and> vv_key (pg_vector p) = key
            then (q\<lparr> pending_generation := None, fulltext_cache := Some (pg_fulltext p),
                     vector_cache := Some (pg_vector p) \<rparr>, Ok ())
            else (q, Err Unavailable)
        | None \<Rightarrow> (q, Ok ()))"

record query_scope =
  qs_metadata :: metadata_snapshot
  qs_fulltext :: fulltext_index
  qs_vector :: vector_reader

record lexical_scope =
  ls_metadata :: metadata_snapshot
  ls_fulltext :: fulltext_index

definition cached_or_record ::
  "(generation_failure, 'g) result \<Rightarrow> ('g \<Rightarrow> query_coordinator \<Rightarrow> query_coordinator)
   \<Rightarrow> (query_coordinator, search_runtime_error, unit) sr" where
  "cached_or_record r store =
     (case r of Inl e \<Rightarrow> record_generation_error e | Inr g \<Rightarrow> sr_modify (store g))"

text \<open>
  The part of \<open>with_query\<close> between the adoption of the pending generation and the call of
  the operation: both caches are dropped when either is stale, and each stale one is opened
  and validated again.
\<close>

definition refresh_caches ::
  "world \<Rightarrow> metadata_snapshot \<Rightarrow> cache_key \<Rightarrow> (query_coordinator, search_runtime_error, unit) sr" where
  "refresh_caches w snapshot key =
     sr_bind (sr_gets (\<lambda>q. (\<not> ft_matches key q, \<not> vec_matches key q))) (\<lambda>(fulltext_changed, vector_changed).
     sr_bind (sr_lift (if fulltext_changed \<or> vector_changed
                       then ok_or Integrity (ms_projections snapshot) else Ok [])) (\<lambda>projections.
     sr_bind (sr_modify (\<lambda>q. if fulltext_changed \<or> vector_changed
                              then q\<lparr> fulltext_cache := None, vector_cache := None \<rparr> else q)) (\<lambda>_.
     sr_bind (if fulltext_changed
              then cached_or_record (validate_fulltext_generation w snapshot key projections)
                     (\<lambda>g q. q\<lparr> fulltext_cache := Some g \<rparr>)
              else sr_return ()) (\<lambda>_.
     if vector_changed
     then cached_or_record (validate_vector_generation w snapshot key projections)
            (\<lambda>g q. q\<lparr> vector_cache := Some g \<rparr>)
     else sr_return ()))))"

definition query_body ::
  "world \<Rightarrow> (query_scope \<Rightarrow> (search_runtime_error, 't) result) \<Rightarrow> metadata_snapshot
   \<Rightarrow> (query_coordinator, search_runtime_error, 't) sr" where
  "query_body w operation snapshot =
     sr_bind (sr_lift (cache_key_of (hd_publication (ms_head snapshot)))) (\<lambda>key.
     sr_bind (adopt_pending_generation key) (\<lambda>_.
     sr_bind (refresh_caches w snapshot key) (\<lambda>_ q.
     sr_lift (rbind (ok_or Integrity (fulltext_cache q)) (\<lambda>fulltext.
              rbind (ok_or Integrity (vector_cache q)) (\<lambda>vector.
              operation \<lparr> qs_metadata = snapshot, qs_fulltext = vf_fulltext fulltext,
                          qs_vector = vv_vector vector \<rparr>))) q)))"

definition with_query ::
  "world \<Rightarrow> (query_scope \<Rightarrow> (search_runtime_error, 't) result)
   \<Rightarrow> (query_coordinator, search_runtime_error, 't) sr" where
  "with_query w operation =
     sr_bind (sr_lift (map_err (\<lambda>_. Unavailable) (w_ft_lease w))) (\<lambda>granted.
     sr_bind (sr_lift (ensure granted Unavailable)) (\<lambda>_.
     sr_bind (sr_lift (ensure (w_vec_lease w) Unavailable)) (\<lambda>_.
     sr_map_err map_transaction_error (with_search_metadata_snapshot w (query_body w operation)))))"

text \<open>The corresponding part of \<open>with_lexical_query\<close>, which never opens a vector artifact.\<close>

definition refresh_fulltext ::
  "world \<Rightarrow> metadata_snapshot \<Rightarrow> cache_key \<Rightarrow> (query_coordinator, search_runtime_error, unit) sr" where
  "refresh_fulltext w snapshot key q =
     (if ft_matches key q then (q, Ok ())
      else sr_bind (sr_modify (\<lambda>q. q\<lparr> fulltext_cache := None, vector_cache := None \<rparr>)) (\<lambda>_.
           sr_bind (sr_lift (ok_or Integrity (ms_projections snapshot))) (\<lambda>projections.
           cached_or_record (validate_fulltext_generation w snapshot key projections)
             (\<lambda>g q. q\<lparr> fulltext_cache := Some g \<rparr>))) q)"

definition lexical_body ::
  "world \<Rightarrow> (lexical_scope \<Rightarrow> (search_runtime_error, 't) result) \<Rightarrow> metadata_snapshot
   \<Rightarrow> (query_coordinator, search_runtime_error, 't) sr" where
  "lexical_body w operation snapshot =
     sr_bind (sr_lift (cache_key_of (hd_publication (ms_head snapshot)))) (\<lambda>key.
     sr_bind (adopt_pending_generation key) (\<lambda>_.
     sr_bind (refresh_fulltext w snapshot key) (\<lambda>_ q.
     sr_lift (rbind (ok_or Integrity (fulltext_cache q)) (\<lambda>fulltext.
              operation \<lparr> ls_metadata = snapshot, ls_fulltext = vf_fulltext fulltext \<rparr>)) q)))"

definition with_lexical_query ::
  "world \<Rightarrow> (lexical_scope \<Rightarrow> (search_runtime_error, 't) result)
   \<Rightarrow> (query_coordinator, search_runtime_error, 't) sr" where
  "with_lexical_query w operation =
     sr_bind (sr_lift (map_err (\<lambda>_. Unavailable) (w_ft_lease w))) (\<lambda>granted.
     sr_bind (sr_lift (ensure granted Unavailable)) (\<lambda>_.
     sr_map_err map_transaction_error (with_search_metadata_snapshot w (lexical_body w operation))))"

section \<open>Invariant of the caches\<close>

text \<open>A reader is valid for its key when it passed deep validation against a publication with that key.\<close>

definition ft_valid :: "validated_fulltext \<Rightarrow> bool" where
  "ft_valid g \<longleftrightarrow> (\<exists>pub d projections. cache_key_of pub = Ok (vf_key g) \<and> pub_fulltext pub = Some d \<and>
     validate_fulltext (vf_fulltext g) d projections = Ok ())"

definition vec_valid :: "validated_vector \<Rightarrow> bool" where
  "vec_valid g \<longleftrightarrow> (\<exists>pub d projections contract. cache_key_of pub = Ok (vv_key g) \<and> pub_vector pub = Some d \<and>
     vector_contract (vd_mode d) = Ok contract \<and>
     validate_vector (vv_vector g) d projections contract = Ok ())"

definition prepared_ok :: "prepared_generation \<Rightarrow> bool" where
  "prepared_ok p \<longleftrightarrow> ft_valid (pg_fulltext p) \<and> vec_valid (pg_vector p) \<and>
     vf_key (pg_fulltext p) = vv_key (pg_vector p)"

definition coord_inv :: "query_coordinator \<Rightarrow> bool" where
  "coord_inv q \<longleftrightarrow>
     (\<forall>f. fulltext_cache q = Some f \<longrightarrow> ft_valid f) \<and>
     (\<forall>v. vector_cache q = Some v \<longrightarrow> vec_valid v) \<and>
     (\<forall>f v. fulltext_cache q = Some f \<longrightarrow> vector_cache q = Some v \<longrightarrow> vf_key f = vv_key v) \<and>
     (\<forall>p. pending_generation q = Some p \<longrightarrow> prepared_ok p)"

inductive coord_step :: "query_coordinator \<Rightarrow> query_coordinator \<Rightarrow> bool" where
  step_prepare: "coord_step q (fst (prepare_current_generation w q))"
| step_install: "prepared_open w pub projections = Ok p \<Longrightarrow>
    coord_step q (fst (install_prepared_generation p q))"
| step_activate: "coord_step q (fst (activate_prepared_generation w q))"
| step_discard: "coord_step q (discard_prepared_generation q)"
| step_take: "coord_step q (fst (take_artifact_fault q))"
| step_query: "coord_step q (fst (with_query w (op :: query_scope \<Rightarrow> (search_runtime_error, unit) result) q))"
| step_lexical: "coord_step q (fst (with_lexical_query w (lop :: lexical_scope \<Rightarrow> (search_runtime_error, unit) result) q))"

definition coord_init :: "query_coordinator \<Rightarrow> bool" where
  "coord_init q \<longleftrightarrow> (\<exists>w. coordinator_open w = Ok q)"

lemma open_fulltext_generation_Ok:
  assumes "open_fulltext_generation w key d projections = Ok g"
  shows "vf_key g = key" and "validate_fulltext (vf_fulltext g) d projections = Ok ()"
  using assms by (auto simp: open_fulltext_generation_def result_simps)

lemma open_vector_generation_Ok:
  assumes "open_vector_generation w key d projections = Ok g"
  obtains contract where "vv_key g = key" and "vector_contract (vd_mode d) = Ok contract"
    and "validate_vector (vv_vector g) d projections contract = Ok ()"
  using assms by (auto simp: open_vector_generation_def result_simps)

lemma validate_fulltext_generation_Ok:
  assumes "validate_fulltext_generation w snapshot key projections = Ok g"
    and "cache_key_of (hd_publication (ms_head snapshot)) = Ok key"
  shows "vf_key g = key" and "ft_valid g"
  using assms open_fulltext_generation_Ok
  by (auto simp: validate_fulltext_generation_def ft_valid_def result_simps split: if_splits)
    fastforce+

lemma validate_vector_generation_Ok:
  assumes "validate_vector_generation w snapshot key projections = Ok g"
    and "cache_key_of (hd_publication (ms_head snapshot)) = Ok key"
  shows "vv_key g = key \<and> vec_valid g"
proof -
  obtain d where d: "pub_vector (hd_publication (ms_head snapshot)) = Some d"
    "open_vector_generation w key d projections = Ok g"
    using assms(1) by (auto simp: validate_vector_generation_def result_simps split: if_splits)
  then show ?thesis
    using assms(2) unfolding vec_valid_def by (metis open_vector_generation_Ok)
qed

lemma prepared_open_ok:
  assumes "prepared_open w pub projections = Ok p"
  shows "prepared_ok p"
proof -
  obtain key ftd vd where k: "cache_key_of pub = Ok key" "pub_fulltext pub = Some ftd"
      "pub_vector pub = Some vd"
    and f: "open_fulltext_generation w key ftd projections = Ok (pg_fulltext p)"
    and v: "open_vector_generation w key vd projections = Ok (pg_vector p)"
    using assms by (auto simp: prepared_open_def result_simps)
  obtain contract where "vv_key (pg_vector p) = key" "vector_contract (vd_mode vd) = Ok contract"
    "validate_vector (vv_vector (pg_vector p)) vd projections contract = Ok ()"
    using open_vector_generation_Ok [OF v] .
  with k open_fulltext_generation_Ok [OF f] show ?thesis
    unfolding prepared_ok_def ft_valid_def vec_valid_def by metis
qed

lemma coord_inv_updates [simp]:
  "coord_inv (q\<lparr>pending_artifact_fault := x\<rparr>) = coord_inv q"
  by (simp add: coord_inv_def)

lemma coord_inv_clear: "coord_inv q \<Longrightarrow> coord_inv (q\<lparr>fulltext_cache := None, vector_cache := None\<rparr>)"
  by (simp add: coord_inv_def)

lemma coord_inv_discard: "coord_inv q \<Longrightarrow> coord_inv (q\<lparr>pending_generation := None\<rparr>)"
  by (simp add: coord_inv_def)

lemma coord_inv_adopt_caches:
  "coord_inv q \<Longrightarrow> prepared_ok p \<Longrightarrow>
   coord_inv (q\<lparr>pending_generation := None, fulltext_cache := Some (pg_fulltext p),
                vector_cache := Some (pg_vector p)\<rparr>)"
  by (simp add: coord_inv_def prepared_ok_def)

lemma coord_inv_adopt:
  assumes "coord_inv q"
  shows "coord_inv (fst (adopt_pending_generation key q))"
proof (cases "pending_generation q")
  case (Some p)
  then have "prepared_ok p" using assms by (simp add: coord_inv_def)
  then show ?thesis
    using Some assms coord_inv_adopt_caches [OF assms] by (simp add: adopt_pending_generation_def)
qed (simp add: adopt_pending_generation_def assms)

text \<open>After a successful adoption the two caches match the key together, or nothing is pending.\<close>

lemma adopt_Ok:
  assumes "adopt_pending_generation key q = (q', Ok ())"
  shows "ft_matches key q' \<and> vec_matches key q' \<or>
    q' = q \<and> pending_generation q = None \<and> \<not> (ft_matches key q \<and> vec_matches key q)"
  using assms by (auto simp: adopt_pending_generation_def split: if_splits option.splits)

lemma with_snapshot_inv:
  assumes "\<And>snapshot. w_begin w = Inr snapshot \<Longrightarrow> I (fst (body snapshot s))" and "I s"
  shows "I (fst (with_search_metadata_snapshot w body s))"
  using assms
  by (auto simp: with_search_metadata_snapshot_def split: sum.split prod.split)

lemma fst_sr_map_err [simp]: "fst (sr_map_err f m s) = fst (m s)"
  by (simp add: sr_map_err_def split: prod.split)

lemma sr_bind_inv:
  assumes "I (fst (m s))" and "\<And>x s'. m s = (s', Ok x) \<Longrightarrow> I s' \<Longrightarrow> I (fst (f x s'))"
  shows "I (fst (sr_bind m f s))"
  using assms by (auto simp: sr_bind_def split: prod.split sum.split)

lemmas coord_inv_bind = sr_bind_inv [where I = coord_inv]

lemma cached_or_record_simps [simp]:
  "cached_or_record (Inr g) store q = (store g q, Ok ())"
  "cached_or_record (Inl (MetadataError e)) store q = (q, Err e)"
  "cached_or_record (Inl (ArtifactError k e)) store q = (q\<lparr>pending_artifact_fault := Some k\<rparr>, Err e)"
  by (simp_all add: cached_or_record_def record_generation_error_def sr_modify_def)

abbreviation store_ft :: "validated_fulltext \<Rightarrow> query_coordinator \<Rightarrow> query_coordinator" where
  "store_ft g q \<equiv> q\<lparr>fulltext_cache := Some g\<rparr>"

abbreviation store_vec :: "validated_vector \<Rightarrow> query_coordinator \<Rightarrow> query_coordinator" where
  "store_vec g q \<equiv> q\<lparr>vector_cache := Some g\<rparr>"

abbreviation clear_caches :: "query_coordinator \<Rightarrow> query_coordinator" where
  "clear_caches q \<equiv> q\<lparr>fulltext_cache := None, vector_cache := None\<rparr>"

lemma refresh_warm:
  "ft_matches key q \<Longrightarrow> vec_matches key q \<Longrightarrow> refresh_caches w snapshot key q = (q, Ok ())"
  by (simp add: refresh_caches_def sr_simps)

lemma refresh_no_projections:
  "\<not> (ft_matches key q \<and> vec_matches key q) \<Longrightarrow> ms_projections snapshot = None \<Longrightarrow>
   refresh_caches w snapshot key q = (q, Err Integrity)"
  by (auto simp: refresh_caches_def sr_simps)

lemma refresh_cold:
  "\<not> ft_matches key q \<Longrightarrow> \<not> vec_matches key q \<Longrightarrow> ms_projections snapshot = Some ps \<Longrightarrow>
   refresh_caches w snapshot key q =
     sr_bind (cached_or_record (validate_fulltext_generation w snapshot key ps) store_ft)
       (\<lambda>_. cached_or_record (validate_vector_generation w snapshot key ps) store_vec) (clear_caches q)"
  by (simp add: refresh_caches_def sr_simps)

lemma refresh_ft_stale:
  "\<not> ft_matches key q \<Longrightarrow> vec_matches key q \<Longrightarrow> ms_projections snapshot = Some ps \<Longrightarrow>
   refresh_caches w snapshot key q =
     cached_or_record (validate_fulltext_generation w snapshot key ps) store_ft (clear_caches q)"
  by (cases "validate_fulltext_generation w snapshot key ps")
    (auto simp: refresh_caches_def sr_simps sr_bind_def split: prod.split sum.split)

lemma refresh_vec_stale:
  "ft_matches key q \<Longrightarrow> \<not> vec_matches key q \<Longrightarrow> ms_projections snapshot = Some ps \<Longrightarrow>
   refresh_caches w snapshot key q =
     cached_or_record (validate_vector_generation w snapshot key ps) store_vec (clear_caches q)"
  by (simp add: refresh_caches_def sr_simps)

lemma cached_or_record_inv:
  assumes "coord_inv q" and "\<And>g. r = Inr g \<Longrightarrow> coord_inv (store g q)"
  shows "coord_inv (fst (cached_or_record r store q))"
proof (cases r)
  case (Inl e)
  then show ?thesis using assms(1) by (cases e) simp_all
qed (simp add: assms(2))

lemma cached_or_record_Ok: "cached_or_record r store q = (q', Ok x) \<longleftrightarrow> (\<exists>g. r = Inr g \<and> q' = store g q)"
  by (auto simp: cached_or_record_def record_generation_error_def sr_modify_def
      split: sum.split generation_failure.split)

lemma coord_inv_refresh:
  assumes "coord_inv q" and "cache_key_of (hd_publication (ms_head snapshot)) = Ok key"
  shows "coord_inv (fst (refresh_caches w snapshot key q))"
proof -
  note ft = validate_fulltext_generation_Ok [OF _ assms(2)]
  note vec = validate_vector_generation_Ok [OF _ assms(2)]
  have clear: "coord_inv (clear_caches q)" using assms(1) by (rule coord_inv_clear)
  have store: "coord_inv (store_ft g (clear_caches q))"
    if "validate_fulltext_generation w snapshot key ps = Inr g" for g ps
    using clear ft(2) [OF that] by (simp add: coord_inv_def)
  have both: "coord_inv (store_vec h (store_ft g (clear_caches q)))"
    if "validate_fulltext_generation w snapshot key ps = Inr g"
      "validate_vector_generation w snapshot key ps = Inr h" for g h ps
    using clear ft [OF that(1)] vec [OF that(2)] by (simp add: coord_inv_def)
  have only: "coord_inv (store_vec h (clear_caches q))"
    if "validate_vector_generation w snapshot key ps = Inr h" for h ps
    using clear vec [OF that] by (simp add: coord_inv_def)
  show ?thesis
  proof (cases "ms_projections snapshot")
    case None
    then show ?thesis
      using assms(1) refresh_warm refresh_no_projections
      by (cases "ft_matches key q \<and> vec_matches key q") auto
  next
    case ps: (Some ps)
    consider "ft_matches key q \<and> vec_matches key q" | "\<not> ft_matches key q \<and> \<not> vec_matches key q"
      | "\<not> ft_matches key q \<and> vec_matches key q" | "ft_matches key q \<and> \<not> vec_matches key q"
      by blast
    then show ?thesis
    proof cases
      case 1
      then show ?thesis using assms(1) by (simp add: refresh_warm)
    next
      case 2
      then show ?thesis
        by (subst refresh_cold [OF _ _ ps])
          (auto intro!: coord_inv_bind cached_or_record_inv clear store both [simplified] simp: cached_or_record_Ok)
    next
      case 3
      then show ?thesis by (subst refresh_ft_stale [OF _ _ ps]) (auto intro!: cached_or_record_inv clear store [simplified])
    next
      case 4
      then show ?thesis by (subst refresh_vec_stale [OF _ _ ps]) (auto intro!: cached_or_record_inv clear only [simplified])
    qed
  qed
qed

lemma coord_inv_refresh_fulltext:
  assumes "coord_inv q" and "cache_key_of (hd_publication (ms_head snapshot)) = Ok key"
  shows "coord_inv (fst (refresh_fulltext w snapshot key q))"
proof -
  have "coord_inv (store_ft g (clear_caches q))"
    if "validate_fulltext_generation w snapshot key ps = Inr g" for g ps
    using assms(1) validate_fulltext_generation_Ok(2) [OF that assms(2)] by (simp add: coord_inv_def)
  then show ?thesis
    using assms(1) coord_inv_clear [OF assms(1)]
    by (cases "ms_projections snapshot")
      (auto simp: refresh_fulltext_def sr_simps intro!: cached_or_record_inv)
qed

text \<open>The skeleton that the two query bodies share.\<close>

lemma coord_inv_adopt_then:
  assumes "coord_inv q" and "\<And>s. coord_inv s \<Longrightarrow> coord_inv (fst (refresh s))"
  shows "coord_inv (fst (sr_bind (adopt_pending_generation key) (\<lambda>_.
           sr_bind refresh (\<lambda>_ q. sr_lift (f q) q)) q))"
proof (rule coord_inv_bind)
  show "coord_inv (fst (adopt_pending_generation key q))"
    using assms(1) by (rule coord_inv_adopt)
next
  fix s assume s: "coord_inv s"
  show "coord_inv (fst (sr_bind refresh (\<lambda>_ q. sr_lift (f q) q) s))"
    by (rule coord_inv_bind, rule assms(2) [OF s]) (simp add: sr_lift_def)
qed

lemma coord_inv_query_body:
  assumes "coord_inv q"
  shows "coord_inv (fst (query_body w operation snapshot q))"
proof (cases "cache_key_of (hd_publication (ms_head snapshot))")
  case (Inr key)
  show ?thesis
    unfolding query_body_def Inr sr_bind_return
    by (rule coord_inv_adopt_then [OF assms coord_inv_refresh [OF _ Inr]])
qed (simp add: query_body_def sr_simps assms)

lemma coord_inv_lexical_body:
  assumes "coord_inv q"
  shows "coord_inv (fst (lexical_body w operation snapshot q))"
proof (cases "cache_key_of (hd_publication (ms_head snapshot))")
  case (Inr key)
  show ?thesis
    unfolding lexical_body_def Inr sr_bind_return
    by (rule coord_inv_adopt_then [OF assms coord_inv_refresh_fulltext [OF _ Inr]])
qed (simp add: lexical_body_def sr_simps assms)

lemma ft_lease_cases: "w_ft_lease w = Ok True \<or> w_ft_lease w = Ok False \<or> w_ft_lease w = Err ()"
  by (cases "w_ft_lease w") auto

lemma with_query_unfold:
  "with_query w operation q =
     (if w_ft_lease w = Ok True \<and> w_vec_lease w
      then sr_map_err map_transaction_error (with_search_metadata_snapshot w (query_body w operation)) q
      else (q, Err Unavailable))"
  using ft_lease_cases [of w] by (auto simp: with_query_def sr_bind_return ensure_def)

lemma with_lexical_query_unfold:
  "with_lexical_query w operation q =
     (if w_ft_lease w = Ok True
      then sr_map_err map_transaction_error (with_search_metadata_snapshot w (lexical_body w operation)) q
      else (q, Err Unavailable))"
  using ft_lease_cases [of w] by (auto simp: with_lexical_query_def sr_bind_return ensure_def)

lemma coord_inv_with_query: "coord_inv q \<Longrightarrow> coord_inv (fst (with_query w operation q))"
  by (simp add: with_query_unfold with_snapshot_inv [where I = coord_inv] coord_inv_query_body)

lemma coord_inv_with_lexical_query:
  "coord_inv q \<Longrightarrow> coord_inv (fst (with_lexical_query w operation q))"
  by (simp add: with_lexical_query_unfold with_snapshot_inv [where I = coord_inv] coord_inv_lexical_body)

lemma with_snapshot_lift:
  "fst (with_search_metadata_snapshot w (\<lambda>snapshot. sr_lift (f snapshot)) q) = q"
  by (simp add: with_search_metadata_snapshot_def sr_lift_def split: sum.split)

lemma coord_inv_prepare:
  assumes "coord_inv q"
  shows "coord_inv (fst (prepare_current_generation w q))"
  unfolding prepare_current_generation_def
proof (rule coord_inv_bind)
  show "coord_inv (fst (sr_map_err map_transaction_error (with_search_metadata_snapshot w (\<lambda>snapshot.
        sr_lift (rbind (ok_or Integrity (ms_projections snapshot)) (\<lambda>projections.
          Ok (hd_publication (ms_head snapshot), projections))))) q))"
    using assms by (simp add: with_snapshot_lift)
next
  fix x :: "search_publication \<times> active_projection list" and s assume s: "coord_inv s"
  then have "coord_inv (s\<lparr>fulltext_cache := Some (pg_fulltext p), vector_cache := Some (pg_vector p),
      pending_generation := None\<rparr>)" if "prepared_open w (fst x) (snd x) = Inr p" for p
    using prepared_open_ok [OF that] by (simp add: coord_inv_def prepared_ok_def)
  then show "coord_inv (fst ((case x of (publication, projections) \<Rightarrow>
      sr_bind (sr_lift (prepared_open w publication projections)) (\<lambda>prepared.
        sr_modify (\<lambda>q. q\<lparr>fulltext_cache := Some (pg_fulltext prepared),
          vector_cache := Some (pg_vector prepared), pending_generation := None\<rparr>))) s))"
    using s by (cases x; cases "prepared_open w (fst x) (snd x)") (simp_all add: sr_simps)
qed

lemma activate_cases:
  assumes "activate_prepared_generation w q = (q', r)"
  obtains (early) e where "q' = q" "r = Err e"
  | (key) snapshot key where "w_begin w = Inr snapshot"
      "cache_key_of (hd_publication (ms_head snapshot)) = Ok key"
      "(case pending_generation q of
          None \<Rightarrow> q' = q \<and> r = ensure (ft_matches key q \<and> vec_matches key q) Unavailable
        | Some p \<Rightarrow>
            if vf_key (pg_fulltext p) = key \<and> vv_key (pg_vector p) = key
            then q' = q\<lparr>pending_generation := None, fulltext_cache := Some (pg_fulltext p),
                        vector_cache := Some (pg_vector p)\<rparr> \<and> r = Ok ()
            else q' = q\<lparr>pending_generation := None\<rparr> \<and> r = Err Integrity)"
proof (cases "w_begin w")
  case (Inl e)
  then show thesis
    using assms early
    by (auto simp: activate_prepared_generation_def sr_bind_def sr_map_err_def
        with_search_metadata_snapshot_def)
next
  case (Inr snapshot)
  show thesis
  proof (cases "w_commit w")
    case (Inl c)
    then show thesis
      using assms early Inr
      by (cases "cache_key_of (hd_publication (ms_head snapshot))")
        (auto simp: activate_prepared_generation_def sr_bind_def sr_map_err_def sr_lift_def
          with_search_metadata_snapshot_def)
  next
    case commit: (Inr u)
    show thesis
    proof (cases "cache_key_of (hd_publication (ms_head snapshot))")
      case (Inl e)
      then show thesis
        using assms early Inr
        by (auto simp: activate_prepared_generation_def sr_bind_def sr_map_err_def sr_lift_def
            with_search_metadata_snapshot_def)
    next
      case k: (Inr k)
      show thesis
        by (rule key [OF Inr k])
          (use assms Inr k commit in \<open>auto simp: activate_prepared_generation_def sr_bind_def
            sr_map_err_def sr_lift_def with_search_metadata_snapshot_def Let_def split: option.splits if_splits\<close>)
    qed
  qed
qed

lemma coord_inv_activate:
  assumes "coord_inv q"
  shows "coord_inv (fst (activate_prepared_generation w q))"
proof -
  obtain q' r where act: "activate_prepared_generation w q = (q', r)" by (cases "activate_prepared_generation w q")
  then show ?thesis
  proof (cases rule: activate_cases)
    case (key snapshot k)
    then show ?thesis
      using act assms coord_inv_adopt_caches [OF assms] coord_inv_discard [OF assms]
      by (cases "pending_generation q") (auto simp: coord_inv_def split: if_splits)
  qed (use act assms in auto)
qed

lemma coord_inv_install:
  assumes "coord_inv q" and "prepared_ok p"
  shows "coord_inv (fst (install_prepared_generation p q))"
  using assms by (auto simp: install_prepared_generation_def coord_inv_def)

interpretation coord: safety coord_init coord_step coord_inv
proof unfold_locales
  fix q assume "coord_init q"
  then show "coord_inv q"
    by (auto simp: coord_init_def coordinator_open_def coord_inv_def result_simps)
next
  fix q q' assume q: "coord_inv q" and step: "coord_step q q'"
  from step show "coord_inv q'"
  proof cases
    case (step_discard)
    then show ?thesis using coord_inv_discard [OF q] by (simp add: discard_prepared_generation_def)
  qed (use q in \<open>auto simp: take_artifact_fault_def intro!: coord_inv_prepare coord_inv_install
      coord_inv_activate coord_inv_with_query coord_inv_with_lexical_query prepared_open_ok\<close>)
qed

section \<open>Properties\<close>









subsection \<open>Composite queries in a healthy store\<close>

text \<open>Everything that a call can open or read succeeds for the head of the snapshot.\<close>

definition healthy ::
  "world \<Rightarrow> metadata_snapshot \<Rightarrow> cache_key \<Rightarrow> validated_fulltext \<Rightarrow> validated_vector \<Rightarrow> bool" where
  "healthy w snapshot key f g \<longleftrightarrow>
     w_ft_lease w = Ok True \<and> w_vec_lease w \<and> w_begin w = Ok snapshot \<and> w_commit w = Ok () \<and>
     cache_key_of (hd_publication (ms_head snapshot)) = Ok key \<and>
     (case ms_projections snapshot of
        None \<Rightarrow> False
      | Some ps \<Rightarrow> validate_fulltext_generation w snapshot key ps = Ok f \<and>
          validate_vector_generation w snapshot key ps = Ok g)"

lemma healthy_validated:
  assumes "healthy w snapshot key f g"
  obtains ps where "ms_projections snapshot = Some ps"
    "validate_fulltext_generation w snapshot key ps = Ok f"
    "validate_vector_generation w snapshot key ps = Ok g" "vf_key f = key" "vv_key g = key"
  using assms validate_fulltext_generation_Ok(1) validate_vector_generation_Ok
  by (auto simp: healthy_def split: option.splits)

lemma healthy_with_query:
  assumes "healthy w snapshot key f g" and "adopt_pending_generation key q = (q1, Ok ())"
    and "refresh_caches w snapshot key q1 = (q2, Ok ())"
  shows "with_query w operation q =
    (q2, rbind (ok_or Integrity (fulltext_cache q2)) (\<lambda>f.
         rbind (ok_or Integrity (vector_cache q2)) (\<lambda>g.
         operation \<lparr> qs_metadata = snapshot, qs_fulltext = vf_fulltext f, qs_vector = vv_vector g \<rparr>)))"
proof -
  have body: "query_body w operation snapshot q =
    (q2, rbind (ok_or Integrity (fulltext_cache q2)) (\<lambda>f.
         rbind (ok_or Integrity (vector_cache q2)) (\<lambda>g.
         operation \<lparr> qs_metadata = snapshot, qs_fulltext = vf_fulltext f, qs_vector = vv_vector g \<rparr>)))"
    using assms by (simp add: query_body_def healthy_def sr_simps) (simp add: sr_bind_def sr_lift_def)
  then show ?thesis
    using assms(1)
    by (auto simp: with_query_unfold healthy_def sr_map_err_def with_search_metadata_snapshot_def
        split: sum.split prod.split)
qed

lemma cold_query:
  assumes "healthy w snapshot key f g" and "pending_generation q = None"
    and "\<not> ft_matches key q" and "\<not> vec_matches key q"
  shows "with_query w operation q = (store_vec g (store_ft f q),
    operation \<lparr> qs_metadata = snapshot, qs_fulltext = vf_fulltext f, qs_vector = vv_vector g \<rparr>)"
proof -
  obtain ps where ps: "ms_projections snapshot = Some ps"
    and f: "validate_fulltext_generation w snapshot key ps = Ok f"
    and g: "validate_vector_generation w snapshot key ps = Ok g"
    using healthy_validated [OF assms(1)] by metis
  have "adopt_pending_generation key q = (q, Ok ())"
    using assms(2) by (simp add: adopt_pending_generation_def)
  moreover have "refresh_caches w snapshot key q = (store_vec g (store_ft f q), Ok ())"
    using f g assms(3,4) by (simp add: refresh_cold [OF _ _ ps] sr_bind_def)
  ultimately show ?thesis
    using healthy_with_query [OF assms(1), of q q _ operation] by simp
qed


subsection \<open>A half-warm coordinator\<close>

definition half_warm :: "cache_key \<Rightarrow> query_coordinator \<Rightarrow> bool" where
  "half_warm key q \<longleftrightarrow> pending_generation q = None \<and>
     (ft_matches key q \<and> vector_cache q = None \<or> fulltext_cache q = None \<and> vec_matches key q)"

lemma half_warm_query:
  assumes "healthy w snapshot key f g" and "half_warm key q"
  shows "snd (with_query w operation q) = Err Integrity \<and> half_warm key (fst (with_query w operation q))"
proof -
  obtain ps where ps: "ms_projections snapshot = Some ps"
    and f: "validate_fulltext_generation w snapshot key ps = Ok f" "vf_key f = key"
    and g: "validate_vector_generation w snapshot key ps = Ok g" "vv_key g = key"
    using healthy_validated [OF assms(1)] by metis
  have adopt: "adopt_pending_generation key q = (q, Ok ())"
    using assms(2) by (simp add: adopt_pending_generation_def half_warm_def)
  from assms(2) consider "ft_matches key q" "vector_cache q = None"
    | "fulltext_cache q = None" "vec_matches key q"
    by (auto simp: half_warm_def)
  then show ?thesis
  proof cases
    case 1
    then have "refresh_caches w snapshot key q = (store_vec g (clear_caches q), Ok ())"
      using g by (simp add: refresh_vec_stale [OF _ _ ps])
    from healthy_with_query [OF assms(1) adopt this, of operation] show ?thesis
      using assms(2) g by (simp add: half_warm_def)
  next
    case 2
    then have "refresh_caches w snapshot key q = (store_ft f (clear_caches q), Ok ())"
      using f by (simp add: refresh_ft_stale [OF _ _ ps])
    from healthy_with_query [OF assms(1) adopt this, of operation] show ?thesis
      using assms(2) f by (simp add: half_warm_def)
  qed
qed

lemma lexical_then_half_warm:
  assumes "healthy w snapshot key f g" and "coordinator_open w0 = Ok q"
  shows "half_warm key (fst (with_lexical_query w lexical q))"
proof -
  obtain ps where ps: "ms_projections snapshot = Some ps"
    and f: "validate_fulltext_generation w snapshot key ps = Ok f" "vf_key f = key"
    using healthy_validated [OF assms(1)] by metis
  have q: "fulltext_cache q = None" "vector_cache q = None" "pending_generation q = None"
    using assms(2) by (auto simp: coordinator_open_def result_simps)
  then have "adopt_pending_generation key q = (q, Ok ())"
    and "refresh_fulltext w snapshot key q = (store_ft f (clear_caches q), Ok ())"
    using f ps by (simp_all add: adopt_pending_generation_def refresh_fulltext_def sr_simps)
  then have "fst (lexical_body w lexical snapshot q) = store_ft f (clear_caches q)"
    using assms(1) by (simp add: lexical_body_def healthy_def sr_simps) (simp add: sr_bind_def sr_lift_def)
  then have "fst (with_lexical_query w lexical q) = store_ft f (clear_caches q)"
    using assms(1)
    by (auto simp: with_lexical_query_unfold healthy_def with_search_metadata_snapshot_def
        split: sum.split prod.split)
  then show ?thesis using q f by (simp add: half_warm_def)
qed

text \<open>
  C31. A defect of \<open>with_query\<close>: in a healthy store, once a freshly opened coordinator has served one
  lexical query, every later composite query on that head fails with an integrity error,
  however often it is repeated; each failed call drops the reader that was current and
  reopens the other one.  The same composite query issued first is served.
\<close>

theorem composite_query_fails_after_lexical_query:
  assumes "healthy w snapshot key f g" and "coordinator_open w0 = Ok q"
  shows "(\<forall>n. snd (with_query w operation
            (((\<lambda>q. fst (with_query w operation q)) ^^ n) (fst (with_lexical_query w lexical q))))
          = Err Integrity) \<and>
    snd (with_query w operation q) =
      operation \<lparr> qs_metadata = snapshot, qs_fulltext = vf_fulltext f, qs_vector = vv_vector g \<rparr>"
proof (intro conjI allI)
  fix n
  have "half_warm key (((\<lambda>q. fst (with_query w operation q)) ^^ n) (fst (with_lexical_query w lexical q)))"
    by (induction n) (use half_warm_query [OF assms(1)] lexical_then_half_warm [OF assms] in auto)
  then show "snd (with_query w operation
      (((\<lambda>q. fst (with_query w operation q)) ^^ n) (fst (with_lexical_query w lexical q)))) = Err Integrity"
    using half_warm_query [OF assms(1)] by blast
next
  have "fulltext_cache q = None" "vector_cache q = None" "pending_generation q = None"
    using assms(2) by (auto simp: coordinator_open_def result_simps)
  then show "snd (with_query w operation q) =
      operation \<lparr> qs_metadata = snapshot, qs_fulltext = vf_fulltext f, qs_vector = vv_vector g \<rparr>"
    by (simp add: cold_query [OF assms(1)])
qed

subsection \<open>Residency, activation and faults\<close>

lemma two_keys: "length (remdups_adj (sort_key h [a, b])) \<le> 2"
  by (auto simp: length_sort intro: order_trans [OF remdups_adj_length])

lemma three_keys: "length (remdups_adj (sort_key h [a, a, b])) \<le> 2"
  by (auto simp: sort_key_simps)

text \<open>
  C32. Reader memory is bounded: in every reachable coordinator the readers of at most two
  generations are resident, the active one and one pending.
\<close>

theorem residency_at_most_two:
  assumes "reach coord_init coord_step q"
  shows "resident_generation_count q \<le> 2"
proof -
  have inv: "coord_inv q" using coord.reach_inv [OF assms] .
  show ?thesis
  proof (cases "fulltext_cache q"; cases "vector_cache q"; cases "pending_generation q")
    fix f v p assume "fulltext_cache q = Some f" "vector_cache q = Some v" "pending_generation q = Some p"
    moreover from this inv have "vf_key f = vv_key v" by (simp add: coord_inv_def)
    ultimately show ?thesis
      using three_keys [of ck_generation "vv_key v" "vf_key (pg_fulltext p)"]
      by (simp add: resident_generation_count_def)
  qed (use two_keys in \<open>simp_all add: resident_generation_count_def\<close>)
qed

text \<open>
  C33. Activation is all or nothing: it succeeds only when both active readers then carry the
  key of the committed head, and a failed activation leaves both active readers as they were
  and never keeps a mismatching pending generation.
\<close>

theorem activation_is_atomic:
  assumes "activate_prepared_generation w q = (q', r)"
  shows "(r = Ok () \<longrightarrow> (\<exists>snapshot key. w_begin w = Ok snapshot \<and>
            cache_key_of (hd_publication (ms_head snapshot)) = Ok key \<and>
            ft_matches key q' \<and> vec_matches key q' \<and> pending_generation q' = None)) \<and>
    (\<forall>e. r = Err e \<longrightarrow> fulltext_cache q' = fulltext_cache q \<and> vector_cache q' = vector_cache q) \<and>
    (r = Err Integrity \<longrightarrow> pending_generation q' = None \<or> q' = q)"
  using assms
proof (cases rule: activate_cases)
  case (key snapshot k)
  then show ?thesis
    by (cases "pending_generation q") (auto simp: ensure_def split: if_splits)
qed auto

lemma validate_ft_fault:
  "validate_fulltext_generation w snapshot key ps = Err (ArtifactError k e) \<Longrightarrow> k = key"
  by (auto simp: validate_fulltext_generation_def open_fulltext_generation_def result_simps
      map_err_eq_Inl split: if_splits)

lemma validate_vec_fault:
  "validate_vector_generation w snapshot key ps = Err (ArtifactError k e) \<Longrightarrow> k = key"
  by (auto simp: validate_vector_generation_def open_vector_generation_def result_simps
      map_err_eq_Inl split: if_splits)

definition fault_step :: "cache_key \<Rightarrow> query_coordinator \<Rightarrow> query_coordinator \<Rightarrow> ('e, 'a) result \<Rightarrow> bool" where
  "fault_step key q q' r \<longleftrightarrow> pending_artifact_fault q' = pending_artifact_fault q \<or>
     pending_artifact_fault q' = Some key \<and> \<not> is_ok r"

lemma fault_step_bind:
  assumes "fault_step key q (fst (m q)) (snd (m q))"
    and "\<And>x s. m q = (s, Ok x) \<Longrightarrow> fault_step key s (fst (f x s)) (snd (f x s))"
  shows "fault_step key q (fst (sr_bind m f q)) (snd (sr_bind m f q))"
  using assms by (auto simp: sr_bind_def fault_step_def split: prod.split sum.split)

lemma fault_step_cached:
  assumes "\<And>k e. r = Err (ArtifactError k e) \<Longrightarrow> k = key"
    and "\<And>g. pending_artifact_fault (store g q) = pending_artifact_fault q"
  shows "fault_step key q (fst (cached_or_record r store q)) (snd (cached_or_record r store q))"
proof (cases r)
  case (Inl e)
  then show ?thesis using assms(1) by (cases e) (auto simp: fault_step_def)
qed (simp add: fault_step_def assms(2))

lemma fault_step_refresh:
  "fault_step key q (fst (refresh_caches w snapshot key q)) (snd (refresh_caches w snapshot key q))"
proof (cases "ft_matches key q \<and> vec_matches key q")
  case True
  then show ?thesis by (simp add: refresh_warm fault_step_def)
next
  case changed: False
  show ?thesis
  proof (cases "ms_projections snapshot")
    case None
    show ?thesis
      unfolding refresh_no_projections [OF changed None] by (simp add: fault_step_def)
  next
    case ps: (Some ps)
    have clear: "fault_step key (clear_caches q) s r \<Longrightarrow> fault_step key q s r" for s and r :: "(search_runtime_error, unit) result"
      by (simp add: fault_step_def)
    note step = fault_step_cached [OF validate_ft_fault] fault_step_cached [OF validate_vec_fault]
    from changed consider "\<not> ft_matches key q" "\<not> vec_matches key q"
      | "\<not> ft_matches key q" "vec_matches key q" | "ft_matches key q" "\<not> vec_matches key q"
      by blast
    then show ?thesis
    proof cases
      case 1
      show ?thesis
        unfolding refresh_cold [OF 1 ps] by (intro clear fault_step_bind step) auto
    next
      case 2
      show ?thesis unfolding refresh_ft_stale [OF 2 ps] by (intro clear step) auto
    next
      case 3
      show ?thesis unfolding refresh_vec_stale [OF 3 ps] by (intro clear step) auto
    qed
  qed
qed

lemma fault_step_adopt:
  "fault_step key q (fst (adopt_pending_generation key q)) (snd (adopt_pending_generation key q))"
  by (auto simp: adopt_pending_generation_def fault_step_def split: option.split)

lemma fault_step_lift: "fault_step key q q r"
  by (simp add: fault_step_def)

text \<open>
  An artifact fault is recorded only against the head that the call saw and only by a call
  that failed: whatever the caches and whatever the operation answers, \<open>with_query\<close> leaves the
  pending fault alone or sets it to the key of the snapshot's head and returns an error.
\<close>

theorem query_fault_names_head:
  assumes "with_query w operation q = (q', r)"
    and "pending_artifact_fault q' \<noteq> pending_artifact_fault q"
  shows "\<not> is_ok r \<and> (\<exists>snapshot key. w_begin w = Ok snapshot \<and>
     cache_key_of (hd_publication (ms_head snapshot)) = Ok key \<and> pending_artifact_fault q' = Some key)"
proof -
  obtain snapshot r' where snap: "w_begin w = Ok snapshot" "query_body w operation snapshot q = (q', r')"
    and r: "is_ok r \<Longrightarrow> is_ok r'"
    using assms
    by (auto simp: with_query_unfold sr_map_err_def with_search_metadata_snapshot_def
        split: if_splits sum.splits prod.splits)
  then obtain key where key: "cache_key_of (hd_publication (ms_head snapshot)) = Ok key"
    using assms(2)
    by (cases "cache_key_of (hd_publication (ms_head snapshot))") (auto simp: query_body_def sr_simps)
  have "fault_step key q (fst (query_body w operation snapshot q)) (snd (query_body w operation snapshot q))"
    unfolding query_body_def key sr_bind_return
    by (intro fault_step_bind fault_step_adopt fault_step_refresh) (simp add: sr_lift_def fault_step_lift)
  then show ?thesis
    using assms(2) snap key r by (auto simp: fault_step_def)
qed

subsection \<open>A concrete store\<close>

definition sample_publication :: search_publication where
  "sample_publication =
     \<lparr> pub_generation = ''g1'', pub_base_generation = None, pub_expected_visible_epoch = 0,
       pub_classifier_epoch = ''c'', pub_projection_digest = ''p'', pub_fingerprint = Some ''fp'',
       pub_state = Ready,
       pub_fulltext = Some \<lparr> ftd_generation = ''g1'', ftd_document_count = 1,
         ftd_projection_digest = ''p'', ftd_logical_content_digest = ''l'' \<rparr>,
       pub_vector = Some (disabled_descriptor ''g1'' 1 ''p'' ''cov'' ''vl''),
       pub_created_at = 0, pub_updated_at = 0 \<rparr>"

definition sample_projection :: active_projection where
  "sample_projection = \<lparr> document_id = ''doc_1'', resume_version_id = ''ver_1'' \<rparr>"

definition sample_fulltext :: fulltext_index where
  "sample_fulltext =
     \<lparr> ft_metadata = Some \<lparr> psm_generation = ''g1'', psm_document_count = 1,
         psm_projection_digest = ''p'', psm_logical_content_digest = ''l'' \<rparr>,
       ft_identity_pairs = Some [(''doc_1'', ''ver_1'')],
       ft_search = (\<lambda>_ _ _. Some []) \<rparr>"

definition sample_vector :: vector_reader where
  "sample_vector =
     \<lparr> vr_summary = \<lparr> vs_generation = ''g1'', vs_model_contract = ContractDisabled,
         vs_vector_count = 0, vs_projection_count = 1, vs_vector_document_count = 0,
         vs_projection_digest = ''p'', vs_coverage_digest = ''cov'',
         vs_logical_content_digest = ''vl'', vs_artifact_digest = ''a'' \<rparr>,
       vr_projection = [sample_projection], vr_knn = (\<lambda>_ _. Some []) \<rparr>"

definition sample_snapshot :: metadata_snapshot where
  "sample_snapshot =
     \<lparr> ms_head = \<lparr> hd_generation = ''g1'', hd_visible_epoch = 1, hd_publication = sample_publication \<rparr>,
       ms_projections = Some [sample_projection] \<rparr>"

definition sample_world :: world where
  "sample_world =
     \<lparr> w_canonical_dir = Some ''/data'', w_store_open = Ok (), w_vector_root = True,
       w_ft_lease = Ok True, w_vec_lease = True, w_begin = Ok sample_snapshot, w_commit = Ok (),
       w_open_fulltext = (\<lambda>_. Ok (Some sample_fulltext)), w_open_vector = (\<lambda>_ _. Some sample_vector) \<rparr>"

definition sample_key :: cache_key where
  "sample_key = \<lparr> ck_generation = ''g1'', ck_publication_fingerprint = ''fp'' \<rparr>"

definition sample_coordinator :: query_coordinator where
  "sample_coordinator =
     \<lparr> data_dir = ''/data'', fulltext_cache = None, vector_cache = None,
       pending_generation = None, pending_artifact_fault = None \<rparr>"

lemmas sample_defs = sample_publication_def sample_projection_def sample_fulltext_def
  sample_vector_def sample_snapshot_def sample_world_def sample_key_def disabled_descriptor_def

lemma sample_healthy:
  "healthy sample_world sample_snapshot sample_key
     \<lparr> vf_key = sample_key, vf_fulltext = sample_fulltext \<rparr> \<lparr> vv_key = sample_key, vv_vector = sample_vector \<rparr>"
  by (simp add: healthy_def cache_key_of_def validate_fulltext_generation_def
      open_fulltext_generation_def validate_fulltext_def validate_vector_generation_def
      open_vector_generation_def validate_vector_def Let_def sample_defs)

lemma sample_open: "coordinator_open sample_world = Ok sample_coordinator"
  by (simp add: coordinator_open_def sample_world_def sample_coordinator_def ensure_def)

lemma sample_reach: "reach coord_init coord_step sample_coordinator"
  by (rule reach_init) (auto simp: coord_init_def intro: sample_open)




theorem composite_query_fails_witness:
  "snd (with_query sample_world (\<lambda>s. Ok (7 :: nat))
     (fst (with_lexical_query sample_world (\<lambda>s. Ok (3 :: nat)) sample_coordinator))) = Err Integrity \<and>
   snd (with_query sample_world (\<lambda>s. Ok (7 :: nat)) sample_coordinator) = Ok 7"
  using composite_query_fails_after_lexical_query [OF sample_healthy sample_open,
      of "\<lambda>s. Ok (7 :: nat)" "\<lambda>s. Ok (3 :: nat)"]
  by (metis funpow_0)

theorem residency_witness: "resident_generation_count sample_coordinator \<le> 2"
  using residency_at_most_two [OF sample_reach] .

theorem activation_witness:
  "fulltext_cache (fst (activate_prepared_generation sample_world sample_coordinator)) = None"
  using activation_is_atomic [of sample_world sample_coordinator sample_coordinator "Err Unavailable"]
  by (simp add: activate_prepared_generation_def sr_map_err_def with_search_metadata_snapshot_def
      sample_defs sample_coordinator_def sr_lift_def cache_key_of_def ensure_def sr_bind_def)

definition broken_world :: world where
  "broken_world = sample_world\<lparr> w_open_fulltext := (\<lambda>_. Err ()) \<rparr>"

theorem query_fault_witness:
  "pending_artifact_fault (fst (with_query broken_world (\<lambda>s. Ok ()) sample_coordinator)) = Some sample_key"
proof -
  have run: "with_query broken_world (\<lambda>s. Ok ()) sample_coordinator =
      (sample_coordinator\<lparr>pending_artifact_fault := Some sample_key\<rparr>, Err Integrity)"
    by (simp add: with_query_unfold broken_world_def sr_map_err_def with_search_metadata_snapshot_def
        query_body_def sr_simps sample_defs cache_key_of_def refresh_caches_def
        validate_fulltext_generation_def open_fulltext_generation_def adopt_pending_generation_def
        sample_coordinator_def sr_bind_def ft_matches_def vec_matches_def)
  have "pending_artifact_fault (sample_coordinator\<lparr>pending_artifact_fault := Some sample_key\<rparr>)
      \<noteq> pending_artifact_fault sample_coordinator"
    by (simp add: sample_coordinator_def)
  from query_fault_names_head [OF run this] show ?thesis
    unfolding run by auto
qed

end
