(* ===== verification/Admission.thy ===== *)
theory Admission
  imports Prelude
begin

text \<open>
  Admission control.  The search service (\<open>crates/daemon/src/ipc/search_service/admission.rs\<close>) counts
  requests in flight in lock-free counters, one per client class and one in total; every atomic
  operation is one step here and the threads interleave freely.  The desktop bridge
  (\<open>apps/desktop/src-tauri/src/bridge_admission.rs\<close>) counts requests per lane under a mutex.
  Counters of the service are 64-bit words, so that a decrement below zero would wrap.
\<close>

section \<open>Client classes\<close>

datatype client_class = InteractiveGui | CodexValidation | Benchmark | Background

definition client_class_parse :: "string \<Rightarrow> client_class option" where
  "client_class_parse value =
     (if value = ''interactive_gui'' then Some InteractiveGui
      else if value = ''codex_validation'' then Some CodexValidation
      else if value = ''benchmark'' then Some Benchmark
      else if value = ''background'' then Some Background
      else None)"

fun class_index :: "client_class \<Rightarrow> nat" where
  "class_index InteractiveGui = 0"
| "class_index CodexValidation = 1"
| "class_index Benchmark = 2"
| "class_index Background = 3"

fun in_flight_limit :: "client_class \<Rightarrow> nat" where
  "in_flight_limit InteractiveGui = 8"
| "in_flight_limit CodexValidation = 2"
| "in_flight_limit Benchmark = 8"
| "in_flight_limit Background = 4"

definition TOTAL_IN_FLIGHT_LIMIT :: nat where
  "TOTAL_IN_FLIGHT_LIMIT = 16"

interpretation class_slots: indexed_counters class_index 4
proof
  show "c = d" if "class_index c = class_index d" for c d
    using that by (cases c; cases d) auto
  show "class_index c < 4" for c by (cases c) auto
qed

section \<open>The atomic operations\<close>

record admission_state =
  ad_total :: "64 word"
  ad_by_class :: "64 word list"

definition admission_new :: admission_state where
  "admission_new = \<lparr> ad_total = 0, ad_by_class = replicate 4 0 \<rparr>"

record permit =
  pm_class :: client_class
  pm_released :: bool

text \<open>The closure of both \<open>fetch_update\<close> calls: increment below the limit.\<close>

definition bump_below :: "nat \<Rightarrow> 64 word \<Rightarrow> 64 word option" where
  "bump_below limit current = (if unat current < limit then Some (current + 1) else None)"

text \<open>
  Where a thread stands.  \<open>acquire\<close> runs from \<open>AcquireClass\<close>; \<open>release\<close> and the \<open>drop\<close> of the last
  clone have the same body and run from \<open>ReleaseSwap\<close>.  A permit is named by its position in the
  list of permits ever issued.
\<close>

datatype thread_pc =
    AcquireClass client_class
  | AcquireTotal client_class
  | UndoClass client_class
  | ReleaseSwap nat
  | ReleaseTotal client_class
  | ReleaseClass client_class
  | Finished "nat option"

record service =
  sv_admission :: admission_state
  sv_permits :: "permit list"

definition set_class :: "client_class \<Rightarrow> 64 word \<Rightarrow> service \<Rightarrow> service" where
  "set_class c v s = s\<lparr> sv_admission := (sv_admission s)\<lparr>
     ad_by_class := (ad_by_class (sv_admission s))[class_index c := v] \<rparr> \<rparr>"

definition class_count :: "client_class \<Rightarrow> service \<Rightarrow> 64 word" where
  "class_count c s = ad_by_class (sv_admission s) ! class_index c"

definition set_total :: "64 word \<Rightarrow> service \<Rightarrow> service" where
  "set_total v s = s\<lparr> sv_admission := (sv_admission s)\<lparr> ad_total := v \<rparr> \<rparr>"

fun atomic_step :: "thread_pc \<Rightarrow> service \<Rightarrow> thread_pc \<times> service" where
  "atomic_step (AcquireClass c) s =
     (case bump_below (in_flight_limit c) (class_count c s) of
        None \<Rightarrow> (Finished None, s)
      | Some v \<Rightarrow> (AcquireTotal c, set_class c v s))"
| "atomic_step (AcquireTotal c) s =
     (case bump_below TOTAL_IN_FLIGHT_LIMIT (ad_total (sv_admission s)) of
        None \<Rightarrow> (UndoClass c, s)
      | Some v \<Rightarrow> (Finished (Some (length (sv_permits s))),
           (set_total v s)\<lparr> sv_permits := sv_permits s @ [\<lparr> pm_class = c, pm_released = False \<rparr>] \<rparr>))"
| "atomic_step (UndoClass c) s = (Finished None, set_class c (class_count c s - 1) s)"
| "atomic_step (ReleaseSwap p) s =
     (let permit = sv_permits s ! p
      in (if pm_released permit then Finished None else ReleaseTotal (pm_class permit),
          s\<lparr> sv_permits := (sv_permits s)[p := permit\<lparr> pm_released := True \<rparr>] \<rparr>))"
| "atomic_step (ReleaseTotal c) s =
     (ReleaseClass c, set_total (ad_total (sv_admission s) - 1) s)"
| "atomic_step (ReleaseClass c) s = (Finished None, set_class c (class_count c s - 1) s)"
| "atomic_step (Finished r) s = (Finished r, s)"

text \<open>A call that runs without interference: at most three atomic operations.\<close>

fun run_alone :: "nat \<Rightarrow> thread_pc \<Rightarrow> service \<Rightarrow> thread_pc \<times> service" where
  "run_alone 0 pc s = (pc, s)"
| "run_alone (Suc n) pc s = (case atomic_step pc s of (pc', s') \<Rightarrow> run_alone n pc' s')"

definition acquire :: "client_class \<Rightarrow> service \<Rightarrow> thread_pc \<times> service" where
  "acquire c s = run_alone 3 (AcquireClass c) s"

definition release :: "nat \<Rightarrow> service \<Rightarrow> thread_pc \<times> service" where
  "release p s = run_alone 3 (ReleaseSwap p) s"

text \<open>\<open>acquire_batch\<close>: a compare-and-exchange on one flag; dropping the permit clears it.\<close>

definition acquire_batch :: "bool \<Rightarrow> bool \<times> bool" where
  "acquire_batch active = (True, \<not> active)"

definition drop_batch :: "bool \<Rightarrow> bool" where
  "drop_batch active = False"

section \<open>Interleaved threads\<close>

record world =
  wd_service :: service
  wd_threads :: "thread_pc list"
  wd_batch_active :: bool
  wd_batch_permits :: nat

inductive world_step :: "world \<Rightarrow> world \<Rightarrow> bool" where
  spawn_acquire: "world_step w (w\<lparr> wd_threads := wd_threads w @ [AcquireClass c] \<rparr>)"
| spawn_release: "p < length (sv_permits (wd_service w)) \<Longrightarrow>
    world_step w (w\<lparr> wd_threads := wd_threads w @ [ReleaseSwap p] \<rparr>)"
| thread_runs: "i < length (wd_threads w) \<Longrightarrow> atomic_step (wd_threads w ! i) (wd_service w) = (pc, s) \<Longrightarrow>
    world_step w (w\<lparr> wd_service := s, wd_threads := (wd_threads w)[i := pc] \<rparr>)"
| batch_acquires: "acquire_batch (wd_batch_active w) = (active, granted) \<Longrightarrow>
    world_step w (w\<lparr> wd_batch_active := active,
      wd_batch_permits := wd_batch_permits w + of_bool granted \<rparr>)"
| batch_drops: "0 < wd_batch_permits w \<Longrightarrow>
    world_step w (w\<lparr> wd_batch_active := drop_batch (wd_batch_active w),
      wd_batch_permits := wd_batch_permits w - 1 \<rparr>)"

definition world_init :: "world \<Rightarrow> bool" where
  "world_init w \<longleftrightarrow> wd_service w = \<lparr> sv_admission = admission_new, sv_permits = [] \<rparr> \<and>
     wd_threads w = [] \<and> \<not> wd_batch_active w \<and> wd_batch_permits w = 0"

text \<open>Permits in the hands of requests, per class and in total.\<close>

definition live_class :: "client_class \<Rightarrow> service \<Rightarrow> nat" where
  "live_class c s = length (filter (\<lambda>p. pm_class p = c \<and> \<not> pm_released p) (sv_permits s))"

definition live :: "service \<Rightarrow> nat" where
  "live s = length (filter (\<lambda>p. \<not> pm_released p) (sv_permits s))"

text \<open>A thread that is between two operations and owns one unit of a class, or of the total.\<close>

fun owes_class :: "client_class \<Rightarrow> thread_pc \<Rightarrow> bool" where
  "owes_class c (AcquireTotal d) = (d = c)"
| "owes_class c (UndoClass d) = (d = c)"
| "owes_class c (ReleaseTotal d) = (d = c)"
| "owes_class c (ReleaseClass d) = (d = c)"
| "owes_class c (AcquireClass d) = False"
| "owes_class c (ReleaseSwap p) = False"
| "owes_class c (Finished r) = False"

fun owes_total :: "thread_pc \<Rightarrow> bool" where
  "owes_total (ReleaseTotal d) = True"
| "owes_total (AcquireTotal d) = False"
| "owes_total (UndoClass d) = False"
| "owes_total (ReleaseClass d) = False"
| "owes_total (AcquireClass d) = False"
| "owes_total (ReleaseSwap p) = False"
| "owes_total (Finished r) = False"

fun well_placed :: "nat \<Rightarrow> thread_pc \<Rightarrow> bool" where
  "well_placed n (ReleaseSwap p) = (p < n)"
| "well_placed n pc = True"

definition threads_owing :: "(thread_pc \<Rightarrow> bool) \<Rightarrow> world \<Rightarrow> nat" where
  "threads_owing P w = length (filter P (wd_threads w))"

definition class_balanced :: "client_class \<Rightarrow> world \<Rightarrow> bool" where
  "class_balanced c w \<longleftrightarrow>
     unat (class_count c (wd_service w)) = live_class c (wd_service w) + threads_owing (owes_class c) w \<and>
     unat (class_count c (wd_service w)) \<le> in_flight_limit c"

definition total_balanced :: "world \<Rightarrow> bool" where
  "total_balanced w \<longleftrightarrow>
     unat (ad_total (sv_admission (wd_service w))) = live (wd_service w) + threads_owing owes_total w \<and>
     unat (ad_total (sv_admission (wd_service w))) \<le> TOTAL_IN_FLIGHT_LIMIT"

definition world_inv :: "world \<Rightarrow> bool" where
  "world_inv w \<longleftrightarrow> length (ad_by_class (sv_admission (wd_service w))) = 4 \<and>
     (\<forall>c. class_balanced c w) \<and> total_balanced w \<and>
     (\<forall>pc \<in> set (wd_threads w). well_placed (length (sv_permits (wd_service w))) pc) \<and>
     wd_batch_permits w = of_bool (wd_batch_active w)"

section \<open>One atomic operation keeps the books\<close>

lemma class_count_set_class:
  "length (ad_by_class (sv_admission s)) = 4 \<Longrightarrow>
   class_count d (set_class c v s) = (if d = c then v else class_count d s)"
  by (simp add: class_count_def set_class_def class_slots.slot_update)

lemma set_simps [simp]:
  "class_count d (set_total v s) = class_count d s"
  "class_count d (s\<lparr> sv_permits := ps \<rparr>) = class_count d s"
  "sv_permits (set_class c v s) = sv_permits s"
  "sv_permits (set_total v s) = sv_permits s"
  "ad_total (sv_admission (set_class c v s)) = ad_total (sv_admission s)"
  "ad_total (sv_admission (set_total v s)) = v"
  "length (ad_by_class (sv_admission (set_class c v s))) = length (ad_by_class (sv_admission s))"
  "length (ad_by_class (sv_admission (set_total v s))) = length (ad_by_class (sv_admission s))"
  by (simp_all add: class_count_def set_class_def set_total_def)

lemma live_simps [simp]:
  "live_class d (set_class c v s) = live_class d s" "live (set_class c v s) = live s"
  "live_class d (set_total v s) = live_class d s" "live (set_total v s) = live s"
  "live_class d (s\<lparr> sv_admission := a \<rparr>) = live_class d s" "live (s\<lparr> sv_admission := a \<rparr>) = live s"
  by (simp_all add: live_class_def live_def)

lemma live_issue:
  "live_class d (t\<lparr> sv_permits := sv_permits s @ [\<lparr> pm_class = c, pm_released = False \<rparr>] \<rparr>) =
     live_class d s + of_bool (c = d)"
  "live (t\<lparr> sv_permits := sv_permits s @ [\<lparr> pm_class = c, pm_released = False \<rparr>] \<rparr>) = live s + 1"
  by (simp_all add: live_class_def live_def)

lemma live_retire:
  assumes "p < length (sv_permits s)"
  shows "live_class d (s\<lparr> sv_permits := (sv_permits s)[p := (sv_permits s ! p)\<lparr> pm_released := True \<rparr>] \<rparr>) +
      of_bool (pm_class (sv_permits s ! p) = d \<and> \<not> pm_released (sv_permits s ! p)) = live_class d s"
    and "live (s\<lparr> sv_permits := (sv_permits s)[p := (sv_permits s ! p)\<lparr> pm_released := True \<rparr>] \<rparr>) +
      of_bool (\<not> pm_released (sv_permits s ! p)) = live s"
  using length_filter_update [OF assms, of "\<lambda>p. pm_class p = d \<and> \<not> pm_released p"]
    length_filter_update [OF assms, of "\<lambda>p. \<not> pm_released p"]
  by (simp_all add: live_class_def live_def)

lemma bump_below_Some:
  "bump_below limit x = Some y \<Longrightarrow> limit \<le> 16 \<Longrightarrow> unat y = unat x + 1 \<and> unat y \<le> limit"
  by (auto simp: bump_below_def unat_add_one split: if_splits)

lemma in_flight_limit_le: "in_flight_limit c \<le> 16"
  by (cases c) auto

lemma atomic_step_class:
  assumes "length (ad_by_class (sv_admission s)) = 4" and "well_placed (length (sv_permits s)) pc"
    and "atomic_step pc s = (pc', s')"
    and "unat (class_count d s) = live_class d s + (n + of_bool (owes_class d pc))"
    and "unat (class_count d s) \<le> in_flight_limit d"
  shows "unat (class_count d s') = live_class d s' + (n + of_bool (owes_class d pc')) \<and>
    unat (class_count d s') \<le> in_flight_limit d"
proof (cases pc)
  case (AcquireClass c)
  then show ?thesis
    using assms bump_below_Some [OF _ in_flight_limit_le]
    by (fastforce simp: class_count_set_class split: option.splits if_splits)
next
  case (AcquireTotal c)
  then show ?thesis
    using assms by (auto simp: live_issue split: option.splits)
next
  case (UndoClass c)
  then show ?thesis
    using assms by (auto simp: class_count_set_class unat_sub_one)
next
  case (ReleaseSwap p)
  then show ?thesis
    using assms live_retire(1) [of p s d] by (auto simp: Let_def split: if_splits)
next
  case (ReleaseTotal c)
  then show ?thesis using assms by auto
next
  case (ReleaseClass c)
  then show ?thesis
    using assms by (auto simp: class_count_set_class unat_sub_one)
next
  case (Finished r)
  then show ?thesis using assms by auto
qed

lemma atomic_step_total:
  assumes "well_placed (length (sv_permits s)) pc" and "atomic_step pc s = (pc', s')"
    and "unat (ad_total (sv_admission s)) = live s + (n + of_bool (owes_total pc))"
    and "unat (ad_total (sv_admission s)) \<le> TOTAL_IN_FLIGHT_LIMIT"
  shows "unat (ad_total (sv_admission s')) = live s' + (n + of_bool (owes_total pc')) \<and>
    unat (ad_total (sv_admission s')) \<le> TOTAL_IN_FLIGHT_LIMIT"
proof (cases pc)
  case (AcquireTotal c)
  then show ?thesis
    using assms bump_below_Some [of TOTAL_IN_FLIGHT_LIMIT]
    by (fastforce simp: live_issue TOTAL_IN_FLIGHT_LIMIT_def split: option.splits)
next
  case (ReleaseSwap p)
  then show ?thesis
    using assms live_retire(2) [of p s] by (auto simp: Let_def split: if_splits)
next
  case (ReleaseTotal c)
  then show ?thesis using assms by (auto simp: unat_sub_one)
qed (use assms in \<open>auto split: option.splits\<close>)

lemma atomic_step_shape:
  assumes "atomic_step pc s = (pc', s')"
  shows "length (ad_by_class (sv_admission s')) = length (ad_by_class (sv_admission s))"
    and "length (sv_permits s) \<le> length (sv_permits s')"
    and "well_placed m pc'"
  using assms by (cases pc; auto simp: Let_def split: option.splits)+

lemma well_placed_mono: "well_placed m pc \<Longrightarrow> m \<le> n \<Longrightarrow> well_placed n pc"
  by (cases pc) auto

section \<open>Every interleaving keeps the books\<close>

lemma threads_owing_split:
  assumes "i < length (wd_threads w)"
  obtains n where "threads_owing P w = n + of_bool (P (wd_threads w ! i))"
    and "\<And>pc s. threads_owing P (w\<lparr> wd_service := s, wd_threads := (wd_threads w)[i := pc] \<rparr>) = n + of_bool (P pc)"
proof
  let ?n = "threads_owing P w - of_bool (P (wd_threads w ! i))"
  have "of_bool (P (wd_threads w ! i)) \<le> threads_owing P w"
    using length_filter_pos [OF assms, of P] by (simp add: threads_owing_def Suc_le_eq)
  then show "threads_owing P w = ?n + of_bool (P (wd_threads w ! i))" by simp
  then show "threads_owing P (w\<lparr> wd_service := s, wd_threads := (wd_threads w)[i := pc] \<rparr>) =
      ?n + of_bool (P pc)" for pc s
    using length_filter_update [OF assms, of P pc] by (simp add: threads_owing_def)
qed

lemma world_inv_thread:
  assumes "world_inv w" and "i < length (wd_threads w)"
    and step: "atomic_step (wd_threads w ! i) (wd_service w) = (pc, s)"
  shows "world_inv (w\<lparr> wd_service := s, wd_threads := (wd_threads w)[i := pc] \<rparr>)" (is "world_inv ?w")
proof -
  have placed: "well_placed (length (sv_permits (wd_service w))) (wd_threads w ! i)"
    and four: "length (ad_by_class (sv_admission (wd_service w))) = 4"
    using assms(1,2) by (auto simp: world_inv_def)
  have "class_balanced c ?w" for c
  proof -
    obtain n where "threads_owing (owes_class c) w = n + of_bool (owes_class c (wd_threads w ! i))"
      "\<And>pc s. threads_owing (owes_class c) (w\<lparr> wd_service := s, wd_threads := (wd_threads w)[i := pc] \<rparr>) =
         n + of_bool (owes_class c pc)"
      by (rule threads_owing_split [OF assms(2), of "owes_class c"]) blast
    moreover have "class_balanced c w" using assms(1) by (simp add: world_inv_def)
    ultimately show ?thesis
      using atomic_step_class [OF four placed step, of c n] by (simp add: class_balanced_def)
  qed
  moreover have "total_balanced ?w"
  proof -
    obtain n where "threads_owing owes_total w = n + of_bool (owes_total (wd_threads w ! i))"
      "\<And>pc s. threads_owing owes_total (w\<lparr> wd_service := s, wd_threads := (wd_threads w)[i := pc] \<rparr>) =
         n + of_bool (owes_total pc)"
      by (rule threads_owing_split [OF assms(2), of owes_total]) blast
    moreover have "total_balanced w" using assms(1) by (simp add: world_inv_def)
    ultimately show ?thesis
      using atomic_step_total [OF placed step, of n] by (simp add: total_balanced_def)
  qed
  moreover have "well_placed (length (sv_permits s)) x" if x: "x \<in> set ((wd_threads w)[i := pc])" for x
  proof -
    consider "x = pc" | "x \<in> set (wd_threads w)"
      using x set_update_subset_insert [of "wd_threads w" i pc] by blast
    then show ?thesis
    proof cases
      case 1
      then show ?thesis using atomic_step_shape(3) [OF step] by simp
    next
      case 2
      then have "well_placed (length (sv_permits (wd_service w))) x"
        using assms(1) by (simp add: world_inv_def)
      then show ?thesis by (rule well_placed_mono) (rule atomic_step_shape(2) [OF step])
    qed
  qed
  ultimately show ?thesis
    using assms(1) atomic_step_shape(1) [OF step] by (simp add: world_inv_def)
qed

lemma balanced_frame [simp]:
  "class_balanced c (w\<lparr> wd_threads := wd_threads w @ [AcquireClass d] \<rparr>) = class_balanced c w"
  "class_balanced c (w\<lparr> wd_threads := wd_threads w @ [ReleaseSwap p] \<rparr>) = class_balanced c w"
  "class_balanced c (w\<lparr> wd_batch_active := a, wd_batch_permits := n \<rparr>) = class_balanced c w"
  "total_balanced (w\<lparr> wd_threads := wd_threads w @ [AcquireClass d] \<rparr>) = total_balanced w"
  "total_balanced (w\<lparr> wd_threads := wd_threads w @ [ReleaseSwap p] \<rparr>) = total_balanced w"
  "total_balanced (w\<lparr> wd_batch_active := a, wd_batch_permits := n \<rparr>) = total_balanced w"
  by (simp_all add: class_balanced_def total_balanced_def threads_owing_def)

interpretation admission: safety world_init world_step world_inv
proof
  show "world_inv w" if "world_init w" for w
    using that
    by (simp add: world_init_def world_inv_def class_balanced_def total_balanced_def admission_new_def
        class_count_def live_class_def live_def threads_owing_def class_slots.slot_replicate)
  show "world_inv w'" if "world_inv w" "world_step w w'" for w w'
    using that(2,1)
  proof cases
    case (thread_runs i pc s)
    then show ?thesis using world_inv_thread that(1) by simp
  qed (auto simp: world_inv_def acquire_batch_def drop_batch_def)
qed

section \<open>Properties of the search service\<close>

text \<open>
  C14. Under every interleaving of the atomic operations of any number of threads, no client class
  has more permits in use than its limit, no more than sixteen are in use in total, at most one
  batch runs, and the counters stay within their limits, so no decrement ever wraps around.
\<close>

theorem admission_is_bounded:
  assumes "reach world_init world_step w"
  shows "live_class c (wd_service w) \<le> in_flight_limit c \<and> live (wd_service w) \<le> 16 \<and>
    wd_batch_permits w \<le> 1 \<and>
    unat (class_count c (wd_service w)) \<le> in_flight_limit c \<and>
    unat (ad_total (sv_admission (wd_service w))) \<le> 16"
  using admission.reach_inv [OF assms]
  by (auto simp: world_inv_def class_balanced_def total_balanced_def TOTAL_IN_FLIGHT_LIMIT_def
      of_bool_def dest!: spec [of _ c])

text \<open>No call is in progress.\<close>

definition quiescent :: "world \<Rightarrow> bool" where
  "quiescent w \<longleftrightarrow> list_all (\<lambda>pc. pc \<in> range Finished) (wd_threads w)"

lemma quiescent_owes:
  assumes "quiescent w"
  shows "threads_owing (owes_class c) w = 0" and "threads_owing owes_total w = 0"
proof -
  have "\<not> owes_class c pc \<and> \<not> owes_total pc" if "pc \<in> set (wd_threads w)" for pc
    using that assms by (auto simp: quiescent_def list_all_iff)
  then show "threads_owing (owes_class c) w = 0" "threads_owing owes_total w = 0"
    by (simp_all add: threads_owing_def)
qed

lemma quiescent_counts:
  assumes "world_inv w" and "quiescent w"
  shows "unat (class_count c (wd_service w)) = live_class c (wd_service w)"
    and "unat (ad_total (sv_admission (wd_service w))) = live (wd_service w)"
  using assms(1) quiescent_owes [OF assms(2)]
  by (auto simp: world_inv_def class_balanced_def total_balanced_def)

lemma acquire_unfold:
  "acquire c s =
     (let s1 = set_class c (class_count c s + 1) s; total = ad_total (sv_admission s)
      in if unat (class_count c s) < in_flight_limit c
         then if unat total < TOTAL_IN_FLIGHT_LIMIT
           then (Finished (Some (length (sv_permits s))),
             (set_total (total + 1) s1)\<lparr> sv_permits := sv_permits s @ [\<lparr> pm_class = c, pm_released = False \<rparr>] \<rparr>)
           else (Finished None, set_class c (class_count c s1 - 1) s1)
         else (Finished None, s))"
  by (simp add: acquire_def numeral_3_eq_3 bump_below_def Let_def)

lemma undo_class:
  assumes "length (ad_by_class (sv_admission s)) = 4"
  shows "set_class c (class_count c (set_class c v s) - 1) (set_class c v s) =
    set_class c (v - 1) s" and "set_class c (class_count c s) s = s"
  using assms by (simp_all add: class_count_set_class) (simp_all add: set_class_def class_count_def)

text \<open>
  C36. No capacity is lost: once every call has returned, the counters are exactly the permits in
  use, and a further request is admitted if and only if its class and the whole service are below
  their limits; a refused request leaves the counters as they were.
\<close>

theorem admission_has_no_leak:
  assumes "reach world_init world_step w" and "quiescent w"
  shows "case acquire c (wd_service w) of
      (pc, s) \<Rightarrow> (if live_class c (wd_service w) < in_flight_limit c \<and> live (wd_service w) < 16
        then pc = Finished (Some (length (sv_permits (wd_service w)))) \<and>
          live_class c s = live_class c (wd_service w) + 1
        else pc = Finished None \<and> s = wd_service w)"
proof -
  let ?s = "wd_service w"
  have inv: "world_inv w" using admission.reach_inv [OF assms(1)] .
  note counts = quiescent_counts [OF inv assms(2)]
  have four: "length (ad_by_class (sv_admission ?s)) = 4" using inv by (simp add: world_inv_def)
  show ?thesis
    using counts(1) [of c] counts(2) undo_class [OF four]
    by (simp add: acquire_unfold Let_def TOTAL_IN_FLIGHT_LIMIT_def live_issue)
qed

text \<open>A run: one thread acquires a permit of the class with two slots.\<close>

definition idle_service :: service where
  "idle_service = \<lparr> sv_admission = admission_new, sv_permits = [] \<rparr>"

definition one_service :: service where
  "one_service = \<lparr> sv_admission = \<lparr> ad_total = 1, ad_by_class = [0, 1, 0, 0] \<rparr>,
     sv_permits = [\<lparr> pm_class = CodexValidation, pm_released = False \<rparr>] \<rparr>"

definition world_of :: "service \<Rightarrow> thread_pc list \<Rightarrow> world" where
  "world_of s ts = \<lparr> wd_service = s, wd_threads = ts, wd_batch_active = False, wd_batch_permits = 0 \<rparr>"

lemma one_permit_reach: "reach world_init world_step (world_of one_service [Finished (Some 0)])"
proof -
  let ?half = "set_class CodexValidation 1 idle_service"
  have "reach world_init world_step (world_of idle_service [])"
    by (rule reach_init) (simp add: world_init_def world_of_def idle_service_def)
  then have "reach world_init world_step (world_of idle_service [AcquireClass CodexValidation])"
    by (rule reach_step) (use spawn_acquire [of "world_of idle_service []" CodexValidation]
        in \<open>simp add: world_of_def\<close>)
  then have "reach world_init world_step (world_of ?half [AcquireTotal CodexValidation])"
    by (rule reach_step)
      (use thread_runs [of 0 "world_of idle_service [AcquireClass CodexValidation]"]
        in \<open>simp add: world_of_def bump_below_def idle_service_def admission_new_def class_count_def\<close>)
  then show ?thesis
    by (rule reach_step)
      (use thread_runs [of 0 "world_of ?half [AcquireTotal CodexValidation]"]
        in \<open>simp add: world_of_def bump_below_def idle_service_def one_service_def admission_new_def
          set_class_def set_total_def TOTAL_IN_FLIGHT_LIMIT_def numeral_2_eq_2 numeral_3_eq_3 eval_nat_numeral\<close>)
qed

theorem admission_is_bounded_witness:
  "live_class CodexValidation one_service = 1 \<and> live one_service \<le> 16"
  using admission_is_bounded [OF one_permit_reach, of CodexValidation]
  by (simp add: world_of_def live_class_def one_service_def)

theorem admission_has_no_leak_witness:
  "fst (acquire CodexValidation one_service) = Finished (Some 1) \<and>
   live_class CodexValidation (snd (acquire CodexValidation one_service)) = 2"
  using admission_has_no_leak [OF one_permit_reach, of CodexValidation]
  by (simp add: quiescent_def world_of_def live_class_def live_def one_service_def split: prod.splits)

section \<open>The desktop bridge\<close>

datatype bridge_lane =
  Lifecycle | NativeDialog | Import | Control | Diagnostics | Interactive | Status | Cancel

fun lane_index :: "bridge_lane \<Rightarrow> nat" where
  "lane_index Lifecycle = 0"
| "lane_index NativeDialog = 1"
| "lane_index Import = 2"
| "lane_index Control = 3"
| "lane_index Diagnostics = 4"
| "lane_index Interactive = 5"
| "lane_index Status = 6"
| "lane_index Cancel = 7"

fun lane_capacity :: "bridge_lane \<Rightarrow> nat" where
  "lane_capacity Lifecycle = 1"
| "lane_capacity NativeDialog = 1"
| "lane_capacity Import = 1"
| "lane_capacity Diagnostics = 1"
| "lane_capacity Control = 2"
| "lane_capacity Interactive = 4"
| "lane_capacity Status = 2"
| "lane_capacity Cancel = 2"

interpretation lane_slots: indexed_counters lane_index 8
proof
  show "c = d" if "lane_index c = lane_index d" for c d
    using that by (cases c; cases d) auto
  show "lane_index c < 8" for c by (cases c) auto
qed

text \<open>The mutex is either held for one whole call or poisoned by a panic of a holder.\<close>

record bridge_state =
  br_active :: "nat list"
  br_poisoned :: bool

datatype bridge_error = Internal | BridgeOverloaded

definition bridge_default :: bridge_state where
  "bridge_default = \<lparr> br_active = replicate 8 0, br_poisoned = False \<rparr>"

definition try_acquire :: "bridge_lane \<Rightarrow> bridge_state \<Rightarrow> bridge_state \<times> (bridge_error, bridge_lane) result" where
  "try_acquire lane st =
     (if br_poisoned st then (st, Err Internal)
      else let count = br_active st ! lane_index lane
        in if count \<ge> lane_capacity lane then (st, Err BridgeOverloaded)
           else (st\<lparr> br_active := (br_active st)[lane_index lane := count + 1] \<rparr>, Ok lane))"

text \<open>The drop of a permit: \<open>saturating_sub\<close> is the truncated subtraction of natural numbers.\<close>

definition bridge_release :: "bridge_lane \<Rightarrow> bridge_state \<Rightarrow> bridge_state" where
  "bridge_release lane st =
     (if br_poisoned st then st
      else st\<lparr> br_active := (br_active st)[lane_index lane := br_active st ! lane_index lane - 1] \<rparr>)"

datatype operation =
  OpStatus | OpDiagnostics | OpSearch | OpDetail | OpHydrate | OpPreviewCreate | OpPreviewRange |
  OpPreviewClose | OpCancel | OpRootControl | OpSourceRoots | OpRootDeletion

fun lane_for_operation :: "operation \<Rightarrow> bridge_lane" where
  "lane_for_operation OpStatus = Status"
| "lane_for_operation OpDiagnostics = Diagnostics"
| "lane_for_operation OpRootControl = Control"
| "lane_for_operation OpSourceRoots = Import"
| "lane_for_operation OpRootDeletion = Import"
| "lane_for_operation OpSearch = Interactive"
| "lane_for_operation OpDetail = Interactive"
| "lane_for_operation OpHydrate = Interactive"
| "lane_for_operation OpPreviewCreate = Interactive"
| "lane_for_operation OpPreviewRange = Interactive"
| "lane_for_operation OpPreviewClose = Interactive"
| "lane_for_operation OpCancel = Cancel"

text \<open>The bridge with the permits its callers hold.\<close>

type_synonym bridge_world = "bridge_state \<times> bridge_lane list"

inductive bridge_step :: "bridge_world \<Rightarrow> bridge_world \<Rightarrow> bool" where
  bridge_grants: "try_acquire lane st = (st', Inr permit) \<Longrightarrow> bridge_step (st, held) (st', permit # held)"
| bridge_refuses: "try_acquire lane st = (st', Inl e) \<Longrightarrow> bridge_step (st, held) (st', held)"
| bridge_drops: "bridge_step (st, before @ lane # after) (bridge_release lane st, before @ after)"

definition bridge_init :: "bridge_world \<Rightarrow> bool" where
  "bridge_init w \<longleftrightarrow> w = (bridge_default, [])"

definition bridge_inv :: "bridge_world \<Rightarrow> bool" where
  "bridge_inv w \<longleftrightarrow> (case w of (st, held) \<Rightarrow> \<not> br_poisoned st \<and> length (br_active st) = 8 \<and>
     (\<forall>lane. br_active st ! lane_index lane = count_list held lane) \<and>
     (\<forall>lane. count_list held lane \<le> lane_capacity lane))"

lemma bridge_inv_drop:
  assumes "bridge_inv (st, before @ lane # after)"
  shows "bridge_inv (bridge_release lane st, before @ after)"
proof -
  have "count_list (before @ after) l \<le> lane_capacity l" for l
  proof -
    have "count_list (before @ after) l \<le> count_list (before @ lane # after) l" by simp
    also have "\<dots> \<le> lane_capacity l" using assms unfolding bridge_inv_def by blast
    finally show ?thesis .
  qed
  then show ?thesis
    using assms by (simp add: bridge_inv_def bridge_release_def lane_slots.slot_update)
qed

lemma bridge_inv_grant:
  assumes "bridge_inv (st, held)" and "try_acquire lane st = (st', r)"
  shows "bridge_inv (st', case r of Inl e \<Rightarrow> held | Inr permit \<Rightarrow> permit # held)"
  using assms
  by (auto simp: bridge_inv_def try_acquire_def Let_def lane_slots.slot_update Suc_le_eq split: if_splits)

interpretation bridge: safety bridge_init bridge_step bridge_inv
proof
  show "bridge_inv w" if "bridge_init w" for w
    using that by (simp add: bridge_init_def bridge_inv_def bridge_default_def lane_slots.slot_replicate)
  show "bridge_inv w'" if "bridge_inv w" "bridge_step w w'" for w w'
    using that(2,1) by cases (auto intro: bridge_inv_drop dest: bridge_inv_grant)
qed

text \<open>
  The lanes of the desktop bridge are independent: whatever permits are held and dropped, an
  operation is admitted exactly when fewer permits of its own lane are held than the lane allows,
  so saturated search, import and control lanes never refuse a status or a cancel request.
\<close>

theorem bridge_lanes_are_independent:
  assumes "reach bridge_init bridge_step (st, held)"
  shows "count_list held lane \<le> lane_capacity lane \<and>
    snd (try_acquire lane st) =
      (if count_list held lane < lane_capacity lane then Ok lane else Err BridgeOverloaded)"
  using bridge.reach_inv [OF assms] by (auto simp: bridge_inv_def try_acquire_def Let_def)

lemma bridge_full_reach:
  "\<exists>st. reach bridge_init bridge_step (st, replicate 4 Interactive)"
proof -
  have "reach bridge_init bridge_step (bridge_default\<lparr> br_active := (replicate 8 0)[5 := n] \<rparr>, replicate n Interactive)"
    if "n \<le> 4" for n
    using that
  proof (induction n)
    case 0
    then show ?case
      by (auto intro!: reach_init simp: bridge_init_def bridge_default_def eval_nat_numeral)
  next
    case (Suc n)
    then show ?case
      by (auto intro!: reach_step [OF Suc.IH] bridge_grants [of Interactive]
          simp: try_acquire_def bridge_default_def Let_def)
  qed
  from this [of 4] show ?thesis by auto
qed

theorem bridge_lanes_witness:
  "\<exists>st. snd (try_acquire (lane_for_operation OpSearch) st) = Err BridgeOverloaded \<and>
     snd (try_acquire (lane_for_operation OpCancel) st) = Ok Cancel \<and>
     snd (try_acquire (lane_for_operation OpStatus) st) = Ok Status"
proof -
  obtain st where "reach bridge_init bridge_step (st, replicate 4 Interactive)"
    using bridge_full_reach by blast
  note independent = bridge_lanes_are_independent [OF this]
  show ?thesis
    using independent [of Interactive] independent [of Cancel] independent [of Status]
    by (auto simp: eval_nat_numeral)
qed

end
