(* ===== verification/ContentIdentity.thy ===== *)
theory ContentIdentity
  imports RustText "HOL-Library.List_Lexorder" "HOL-Library.Product_Lexorder" "HOL-Library.Char_ord"
begin

text \<open>
  Identities of \<open>crates/core-domain\<close>: stable ids and their syntax (\<open>lib.rs\<close>), content digests, the
  canonical digest of a search projection and content-addressed ids (\<open>content_identity.rs\<close>).  The hash
  function SHA-256 is the parameter \<open>sha\<close> from bytes to bytes; what is hashed is written out.
\<close>

unbundle bit_operations_syntax

section \<open>Hexadecimal text\<close>

definition hex_digit :: "nat \<Rightarrow> char" where
  "hex_digit n = char_of (if n < 10 then 48 + n else 87 + n)"

definition hex_byte :: "nat \<Rightarrow> string" where
  "hex_byte b = [hex_digit (b div 16 mod 16), hex_digit (b mod 16)]"

definition hex_bytes :: "nat list \<Rightarrow> string" where
  "hex_bytes bs = concat (map hex_byte bs)"

definition is_ascii_hexdigit :: "char \<Rightarrow> bool" where
  "is_ascii_hexdigit c \<longleftrightarrow> (let n = of_char c :: nat
     in 48 \<le> n \<and> n \<le> 57 \<or> 65 \<le> n \<and> n \<le> 70 \<or> 97 \<le> n \<and> n \<le> 102)"

definition is_lower_hexdigit :: "char \<Rightarrow> bool" where
  "is_lower_hexdigit c \<longleftrightarrow> (let n = of_char c :: nat in 48 \<le> n \<and> n \<le> 57 \<or> 97 \<le> n \<and> n \<le> 102)"

section \<open>Stable ids\<close>

definition ID_DIGEST_HEX_LEN :: nat where
  "ID_DIGEST_HEX_LEN = 32"

datatype id_parse_error = InvalidPrefix string | InvalidLength nat nat | InvalidHexDigest

definition validate_stable_id :: "string \<Rightarrow> string \<Rightarrow> (id_parse_error, unit) result" where
  "validate_stable_id expected_prefix value =
     (if take (length expected_prefix) value \<noteq> expected_prefix then Err (InvalidPrefix expected_prefix)
      else let expected_len = length expected_prefix + ID_DIGEST_HEX_LEN
        in if length value \<noteq> expected_len then Err (InvalidLength expected_len (length value))
           else if \<not> list_all is_ascii_hexdigit (drop (length expected_prefix) value) then Err InvalidHexDigest
           else Ok ())"

definition FNV_OFFSET_A :: "64 word" where
  "FNV_OFFSET_A = 0xcbf29ce484222325"

definition FNV_OFFSET_B :: "64 word" where
  "FNV_OFFSET_B = 0x6c62272e07bb0142"

definition FNV_PRIME :: "64 word" where
  "FNV_PRIME = 0x100000001b3"

text \<open>\<open>wrapping_mul\<close> is the product of words.\<close>

definition update_hash :: "64 word \<Rightarrow> nat list \<Rightarrow> 64 word" where
  "update_hash hash bytes = fold (\<lambda>b h. (h XOR word_of_nat b) * FNV_PRIME) bytes hash"

definition stable_hash :: "64 word \<Rightarrow> string \<Rightarrow> string list \<Rightarrow> 64 word" where
  "stable_hash seed namespace parts =
     fold (\<lambda>part h. update_hash (update_hash h (le_bytes64 (int (length part)))) (map of_char part)) parts
       (update_hash (update_hash seed (map of_char namespace)) (le_bytes64 (int (length parts))))"

text \<open>\<open>{:016x}\<close>: sixteen digits, most significant first.\<close>

definition hex16 :: "64 word \<Rightarrow> string" where
  "hex16 w = map (\<lambda>i. hex_digit (unat w div 16 ^ (15 - i) mod 16)) [0..<16]"

definition stable_id_digest :: "string \<Rightarrow> string list \<Rightarrow> string" where
  "stable_id_digest namespace parts =
     hex16 (stable_hash FNV_OFFSET_A namespace parts) @ hex16 (stable_hash FNV_OFFSET_B namespace parts)"

definition from_non_secret_parts :: "string \<Rightarrow> string \<Rightarrow> string list \<Rightarrow> string" where
  "from_non_secret_parts name prefix parts = prefix @ stable_id_digest name parts"

section \<open>Content digests\<close>

type_synonym hash = "nat list \<Rightarrow> nat list"

definition content_digest :: "hash \<Rightarrow> nat list \<Rightarrow> string" where
  "content_digest sha bytes = ''sha256:'' @ hex_bytes (sha bytes)"

definition content_digest_parse :: "string \<Rightarrow> string option" where
  "content_digest_parse value =
     (if take 7 value \<noteq> ''sha256:'' then None
      else let digest = drop 7 value
        in if length digest \<noteq> 64 \<or> \<not> list_all is_lower_hexdigit digest then None else Some value)"

text \<open>A part of a hashed message is its length as eight bytes and then its bytes.\<close>

definition update_content_addressed_part :: "nat list \<Rightarrow> nat list \<Rightarrow> nat list" where
  "update_content_addressed_part message part = message @ le_bytes64 (int (length part)) @ part"

definition content_addressed_message :: "string \<Rightarrow> nat list list \<Rightarrow> nat list" where
  "content_addressed_message namespace parts =
     foldl update_content_addressed_part
       (update_content_addressed_part [] (map of_char namespace) @ le_bytes64 (int (length parts))) parts"

definition content_addressed_id_digest :: "hash \<Rightarrow> string \<Rightarrow> nat list list \<Rightarrow> string" where
  "content_addressed_id_digest sha namespace parts =
     hex_bytes (take (ID_DIGEST_HEX_LEN div 2) (sha (content_addressed_message namespace parts)))"

definition source_revision_id :: "hash \<Rightarrow> string \<Rightarrow> string \<Rightarrow> string" where
  "source_revision_id sha document_id content =
     ''rev_'' @ content_addressed_id_digest sha ''SourceRevisionId'' [map of_char document_id, map of_char content]"

definition resume_version_id_of :: "hash \<Rightarrow> string \<Rightarrow> string \<Rightarrow> string \<Rightarrow> string \<Rightarrow> string \<Rightarrow> string" where
  "resume_version_id_of sha document_id source_revision normalized_text parser_version schema_version =
     ''ver_'' @ content_addressed_id_digest sha ''ResumeVersionId''
       [map of_char document_id, map of_char source_revision, map of_char normalized_text,
        map of_char parser_version, map of_char schema_version]"

section \<open>The digest of a search projection\<close>

datatype projection_digest_error = InvalidIdentity | DuplicateDocument | DuplicateResumeVersion

text \<open>The loop of \<open>from_pairs\<close> with the two sets of ids seen so far.\<close>

fun check_pairs :: "string set \<Rightarrow> string set \<Rightarrow> (string \<times> string) list \<Rightarrow> (projection_digest_error, unit) result" where
  "check_pairs docs versions [] = Ok ()"
| "check_pairs docs versions ((d, v) # ps) =
     (if \<not> is_ok (validate_stable_id ''doc_'' d) then Err InvalidIdentity
      else if \<not> is_ok (validate_stable_id ''ver_'' v) then Err InvalidIdentity
      else if d \<in> docs then Err DuplicateDocument
      else if v \<in> versions then Err DuplicateResumeVersion
      else check_pairs (insert d docs) (insert v versions) ps)"

definition projection_message :: "(string \<times> string) list \<Rightarrow> nat list" where
  "projection_message canonical =
     foldl (\<lambda>m (d, v). update_content_addressed_part (update_content_addressed_part m (map of_char d)) (map of_char v))
       (update_content_addressed_part [] (map of_char ''resume-ir.search-projection.v1'')
          @ le_bytes64 (int (length canonical))) canonical"

definition from_pairs_message :: "(string \<times> string) list \<Rightarrow> (projection_digest_error, nat list) result" where
  "from_pairs_message pairs = rbind (check_pairs {} {} pairs) (\<lambda>_. Ok (projection_message (sort pairs)))"

definition from_pairs :: "hash \<Rightarrow> (string \<times> string) list \<Rightarrow> (projection_digest_error, string) result" where
  "from_pairs sha pairs = rbind (from_pairs_message pairs) (\<lambda>m. Ok (content_digest sha m))"

section \<open>Framing is injective\<close>

lemma length_le_bytes64 [simp]: "length (le_bytes64 v) = 8"
  by (simp add: le_bytes64_def)

lemma mod_bytes_eq:
  assumes "\<And>i. i < n \<Longrightarrow> v div 2 ^ (8 * i) mod 256 = w div 2 ^ (8 * i) mod (256 :: int)"
  shows "v mod 2 ^ (8 * n) = w mod 2 ^ (8 * n)"
  using assms
proof (induction n)
  case (Suc n)
  have split: "x mod 2 ^ (8 * Suc n) = 2 ^ (8 * n) * (x div 2 ^ (8 * n) mod 256) + x mod 2 ^ (8 * n)"
    for x :: int
    using zmod_zmult2_eq [of 256 x "2 ^ (8 * n)"] by (simp add: power_add mult.commute)
  show ?case
    using Suc.IH Suc.prems by (simp only: split)
qed simp

lemma le_bytes64_inj:
  assumes "le_bytes64 (int m) = le_bytes64 (int n)" and "m < 2 ^ 64" and "n < 2 ^ 64"
  shows "m = n"
proof -
  have eq: "int m div 2 ^ (8 * i) mod 256 = int n div 2 ^ (8 * i) mod 256" if "i < 8" for i
  proof -
    have "nat (int m div 2 ^ (8 * i) mod 256) = nat (int n div 2 ^ (8 * i) mod 256)"
      using assms(1) that by (auto simp: le_bytes64_def)
    then show ?thesis by (simp add: eq_nat_nat_iff)
  qed
  have "int m mod 2 ^ (8 * 8) = int n mod 2 ^ (8 * 8)"
    by (rule mod_bytes_eq) (rule eq)
  then show ?thesis using assms(2,3) by simp
qed

lemma framed_eq:
  assumes "le_bytes64 (int (length p)) @ p @ r = le_bytes64 (int (length q)) @ q @ s"
    and "length p < 2 ^ 64" and "length q < 2 ^ 64"
  shows "p = q \<and> r = s"
proof -
  have "le_bytes64 (int (length p)) = le_bytes64 (int (length q)) \<and> p @ r = q @ s"
    using assms(1) by simp
  then show ?thesis using le_bytes64_inj assms(2,3) by (metis append_eq_append_conv)
qed

text \<open>The concatenation of framed parts.\<close>

definition frames :: "nat list list \<Rightarrow> nat list" where
  "frames ps = concat (map (\<lambda>p. le_bytes64 (int (length p)) @ p) ps)"

lemma foldl_parts: "foldl update_content_addressed_part m ps = m @ frames ps"
  by (induction ps arbitrary: m) (simp_all add: frames_def update_content_addressed_part_def)

lemma frames_inj:
  assumes "frames ps = frames qs"
    and "\<forall>p \<in> set ps. length p < 2 ^ 64" and "\<forall>q \<in> set qs. length q < 2 ^ 64"
  shows "ps = qs"
  using assms
proof (induction ps arbitrary: qs)
  case Nil
  then show ?case by (cases qs) (auto simp: frames_def dest: arg_cong [of _ _ length])
next
  case (Cons p ps)
  then obtain q rest where qs: "qs = q # rest" by (cases qs) (auto simp: frames_def dest: arg_cong [of _ _ length])
  with Cons.prems have "p = q \<and> frames ps = frames rest"
    by (intro framed_eq) (simp_all add: frames_def)
  then show ?case using Cons qs by simp
qed

section \<open>What a digest identifies\<close>

lemma check_pairs_Ok:
  "check_pairs docs versions ps = Ok () \<longleftrightarrow>
     (\<forall>(d, v) \<in> set ps. is_ok (validate_stable_id ''doc_'' d) \<and> is_ok (validate_stable_id ''ver_'' v)) \<and>
     distinct (map fst ps) \<and> distinct (map snd ps) \<and>
     set (map fst ps) \<inter> docs = {} \<and> set (map snd ps) \<inter> versions = {}"
  by (induction docs versions ps rule: check_pairs.induct) auto

lemma validate_stable_id_Ok:
  "is_ok (validate_stable_id prefix value) \<longleftrightarrow>
     (\<exists>digest. value = prefix @ digest \<and> length digest = 32 \<and> list_all is_ascii_hexdigit digest)"
proof
  assume "is_ok (validate_stable_id prefix value)"
  then have "take (length prefix) value = prefix" "length value = length prefix + 32"
    "list_all is_ascii_hexdigit (drop (length prefix) value)"
    by (auto simp: validate_stable_id_def Let_def ID_DIGEST_HEX_LEN_def split: if_splits)
  then show "\<exists>digest. value = prefix @ digest \<and> length digest = 32 \<and> list_all is_ascii_hexdigit digest"
    by (intro exI [of _ "drop (length prefix) value"]) (metis append_take_drop_id diff_add_inverse length_drop)
qed (auto simp: validate_stable_id_def ID_DIGEST_HEX_LEN_def)

lemma stable_id_length: "is_ok (validate_stable_id prefix value) \<Longrightarrow> length value = length prefix + 32"
  by (auto simp: validate_stable_id_Ok)

text \<open>The message of a projection is its header, the count and the framed ids.\<close>

definition pair_parts :: "(string \<times> string) list \<Rightarrow> nat list list" where
  "pair_parts ps = concat (map (\<lambda>(d, v). [map of_char d, map of_char v]) ps)"

lemma projection_message_frames:
  "projection_message ps = frames [map of_char ''resume-ir.search-projection.v1'']
     @ le_bytes64 (int (length ps)) @ frames (pair_parts ps)"
proof -
  have "foldl (\<lambda>m (d, v). update_content_addressed_part (update_content_addressed_part m (map of_char d)) (map of_char v))
      m ps = m @ frames (pair_parts ps)" for m
    by (induction ps arbitrary: m)
      (auto simp: pair_parts_def frames_def update_content_addressed_part_def)
  then show ?thesis
    unfolding projection_message_def by (simp add: frames_def update_content_addressed_part_def)
qed

lemma map_of_char_inj: "map of_char s = (map of_char t :: nat list) \<longleftrightarrow> s = t"
proof -
  have "inj (of_char :: char \<Rightarrow> nat)" by (rule injI) simp
  then show ?thesis by (simp add: inj_map_eq_map)
qed

lemma pair_parts_inj: "length ps = length qs \<Longrightarrow> pair_parts ps = pair_parts qs \<Longrightarrow> ps = qs"
  by (induction ps qs rule: list_induct2) (auto simp: pair_parts_def map_of_char_inj)

lemma projection_message_inj:
  assumes "projection_message ps = projection_message qs"
    and "length ps < 2 ^ 64" and "length qs < 2 ^ 64"
    and "\<forall>p \<in> set (pair_parts ps). length p < 2 ^ 64" and "\<forall>p \<in> set (pair_parts qs). length p < 2 ^ 64"
  shows "ps = qs"
proof -
  have "le_bytes64 (int (length ps)) = le_bytes64 (int (length qs))"
    and eq: "frames (pair_parts ps) = frames (pair_parts qs)"
    using assms(1) by (simp_all add: projection_message_frames)
  then have "length ps = length qs" using le_bytes64_inj assms(2,3) by blast
  then show ?thesis
    using frames_inj [OF eq assms(4,5)] pair_parts_inj by simp
qed

lemma checked_parts_short:
  assumes "check_pairs {} {} ps = Ok ()" and "p \<in> set (pair_parts (sort ps))"
  shows "length p < 2 ^ 64"
proof -
  obtain d v where dv: "(d, v) \<in> set ps" "p = map of_char d \<or> p = map of_char v"
    using assms(2) by (auto simp: pair_parts_def)
  then have "is_ok (validate_stable_id ''doc_'' d)" "is_ok (validate_stable_id ''ver_'' v)"
    using assms(1) by (auto simp: check_pairs_Ok)
  then have "length d = 36" "length v = 36" using stable_id_length by fastforce+
  then show ?thesis using dv(2) by auto
qed

text \<open>
  C28. The digest of a search projection identifies the mapping: for any two mappings that are
  accepted, the bytes that are hashed are equal if and only if the mappings have the same pairs, in
  whatever order they were given.
\<close>

theorem projection_digest_identifies_mapping:
  assumes "from_pairs_message ps = Ok m" and "from_pairs_message qs = Ok n"
    and "length ps < 2 ^ 64" and "length qs < 2 ^ 64"
  shows "m = n \<longleftrightarrow> set ps = set qs"
proof -
  have ok: "check_pairs {} {} ps = Ok ()" "check_pairs {} {} qs = Ok ()"
    and mn: "m = projection_message (sort ps)" "n = projection_message (sort qs)"
    using assms(1,2) by (auto simp: from_pairs_message_def result_simps)
  have dist: "distinct ps" "distinct qs"
    using ok by (auto simp: check_pairs_Ok distinct_map)
  show ?thesis
  proof
    assume "m = n"
    then have "sort ps = sort qs"
      using projection_message_inj [of "sort ps" "sort qs"] mn assms(3,4)
        checked_parts_short [OF ok(1)] checked_parts_short [OF ok(2)] by simp
    then show "set ps = set qs" by (metis set_sort)
  next
    assume "set ps = set qs"
    then have "sort ps = sort qs" using dist by (metis sorted_distinct_set_unique distinct_sort set_sort sorted_sort)
    then show "m = n" using mn by simp
  qed
qed

text \<open>Two mappings of two documents, given in both orders.\<close>

definition sample_document :: "nat \<Rightarrow> string" where
  "sample_document n = ''doc_'' @ replicate 31 (hex_digit 0) @ [hex_digit (n mod 16)]"

definition sample_version :: "nat \<Rightarrow> string" where
  "sample_version n = ''ver_'' @ replicate 31 (hex_digit 0) @ [hex_digit (n mod 16)]"

lemma hex_digit_valid:
  assumes "n < 16"
  shows "is_lower_hexdigit (hex_digit n)" and "is_ascii_hexdigit (hex_digit n)"
  using assms by (auto simp: is_lower_hexdigit_def is_ascii_hexdigit_def hex_digit_def Let_def)

lemma sample_ids_valid:
  "is_ok (validate_stable_id ''doc_'' (sample_document n))"
  "is_ok (validate_stable_id ''ver_'' (sample_version n))"
  by (auto simp: validate_stable_id_Ok sample_document_def sample_version_def hex_digit_valid
      list_all_iff)

lemma sample_pairs_message:
  assumes "hex_digit (m mod 16) \<noteq> hex_digit (n mod 16)"
  shows "from_pairs_message [(sample_document m, sample_version m), (sample_document n, sample_version n)]
     = Ok (projection_message (sort [(sample_document m, sample_version m), (sample_document n, sample_version n)]))"
  using assms
  by (simp add: from_pairs_message_def sample_ids_valid) (simp add: sample_document_def sample_version_def)

theorem projection_digest_witness:
  "\<exists>m. from_pairs_message [(sample_document 0, sample_version 0), (sample_document 1, sample_version 1)] = Ok m \<and>
       from_pairs_message [(sample_document 1, sample_version 1), (sample_document 0, sample_version 0)] = Ok m"
proof -
  have ne: "hex_digit (0 mod 16) \<noteq> hex_digit (1 mod 16)" "hex_digit (1 mod 16) \<noteq> hex_digit (0 mod 16)"
    by (simp_all add: hex_digit_def)
  show ?thesis
    using projection_digest_identifies_mapping [OF sample_pairs_message [OF ne(1)] sample_pairs_message [OF ne(2)]]
      sample_pairs_message [OF ne(1)] sample_pairs_message [OF ne(2)]
    by (auto simp: insert_commute)
qed

section \<open>Generated identities are well formed\<close>

lemma hex_bytes_valid: "list_all is_lower_hexdigit (hex_bytes bs)" "list_all is_ascii_hexdigit (hex_bytes bs)"
  "length (hex_bytes bs) = 2 * length bs"
  by (induction bs) (simp_all add: hex_bytes_def hex_byte_def hex_digit_valid)

lemma stable_id_digest_valid:
  "length (stable_id_digest name parts) = 32" "list_all is_ascii_hexdigit (stable_id_digest name parts)"
  by (auto simp: stable_id_digest_def hex16_def hex_digit_valid list_all_iff)

text \<open>
  Every identity the code generates is accepted by its own parser: ids made from non-secret
  parts for any prefix, content-addressed revision and version ids and content digests, for a hash
  function that returns thirty-two bytes.
\<close>

theorem generated_identities_parse:
  assumes "\<And>m. length (sha m) = 32"
  shows "is_ok (validate_stable_id prefix (from_non_secret_parts name prefix parts)) \<and>
    is_ok (validate_stable_id ''rev_'' (source_revision_id sha doc content)) \<and>
    is_ok (validate_stable_id ''ver_'' (resume_version_id_of sha doc revision normalized parser schema)) \<and>
    content_digest_parse (content_digest sha bytes) = Some (content_digest sha bytes)"
  using assms
  by (auto simp: validate_stable_id_Ok from_non_secret_parts_def stable_id_digest_valid
      source_revision_id_def resume_version_id_of_def content_addressed_id_digest_def hex_bytes_valid
      ID_DIGEST_HEX_LEN_def content_digest_parse_def content_digest_def Let_def)

theorem generated_identities_witness:
  "is_ok (validate_stable_id ''imp_'' (from_non_secret_parts ''ImportTaskId'' ''imp_'' [''a'']))"
  using generated_identities_parse [of "\<lambda>_. replicate 32 0" "''imp_''" "''ImportTaskId''" "[''a'']"] by simp

end
