(* ===== verification/Publication.thy ===== *)
theory Publication
  imports SearchModel ContentIdentity
begin

text \<open>
  What the publication protocol of the metadata store works on: the journal and its authorities
  (\<open>crates/meta-store/src/search_publication/model.rs\<close>, \<open>authority.rs\<close>), the fingerprint of a
  publication and the checks of drafts, descriptors and commits (\<open>validation.rs\<close>), reading a journal
  row (\<open>persistence.rs\<close>).  Rows are typed: what \<open>parse_state\<close> and its siblings reject cannot be
  written here, everything else that reading a row checks is checked.
\<close>

section \<open>Data\<close>

datatype publication_failure =
    InvalidGeneration | InvalidClassifierEpoch | InvalidDescriptor | DescriptorMismatch | InvalidState
  | InvalidPersistedState | ProjectionMismatch | InvalidProjectionTransition | VectorCoverageMismatch
  | ExactClassificationMissing | InvalidDocumentState

text \<open>
  The errors of the store: a publication failure; the storage invariant, an invalid transition, an
  invalid value and a failure of the random source raised by the code; an abort of SQLite (a
  constraint or a trigger).
\<close>

datatype store_failure =
    Failed publication_failure | InvariantFailed | TransitionFailed | InvalidValueFailed | RandomFailed | Aborted

datatype service_state = ServiceRepairing | ServiceReady | ServiceRepairBlocked

record head_row =
  hr_service :: service_state
  hr_generation :: "string option"
  hr_epoch :: nat
  hr_reason :: "search_repair_reason option"
  hr_updated_at :: int

record artifact_repair_key =
  rk_generation :: string
  rk_fingerprint :: string
  rk_epoch :: nat

datatype publication_authority =
    CurrentHead
  | MigrationRebuildAuthority string string string nat \<comment> \<open>contract, barrier digest, attempt, count\<close>
  | ArtifactRepairAuthority artifact_repair_key string nat

record journal_row =
  jr_publication :: search_publication
  jr_authority :: publication_authority

datatype document_status =
    Discovered | Fingerprinted | ParseQueued | ParseRunning | TextExtracted | OcrRequired | OcrRunning
  | OcrDone | TextCleaned | FieldsExtracted | EmbeddingDone | IndexedPartial | Searchable | Excluded
  | FailedRetryable | FailedPermanent | Deleted

text \<open>A document; the columns the protocol only copies are \<open>doc_other\<close>.\<close>

record document =
  doc_id :: string
  doc_content_hash :: "string option"
  doc_byte_size :: nat
  doc_is_deleted :: bool
  doc_status :: document_status
  doc_updated_at :: int
  doc_other :: string

datatype projected_snapshot =
    RetainedUnchanged active_projection
  | MetadataChanged active_projection document
  | Replacement active_projection document

fun snapshot_projection :: "projected_snapshot \<Rightarrow> active_projection" where
  "snapshot_projection (RetainedUnchanged p) = p"
| "snapshot_projection (MetadataChanged p d) = p"
| "snapshot_projection (Replacement p d) = p"

fun snapshot_document :: "projected_snapshot \<Rightarrow> document option" where
  "snapshot_document (RetainedUnchanged p) = None"
| "snapshot_document (MetadataChanged p d) = Some d"
| "snapshot_document (Replacement p d) = Some d"

record terminal_update =
  td_document :: string
  td_expected_status :: document_status
  td_expected_is_deleted :: bool
  td_expected_content_hash :: string
  td_terminal_status :: document_status
  td_terminal_is_deleted :: bool

record publication_draft =
  dr_generation :: string
  dr_base_generation :: "string option"
  dr_expected_epoch :: nat
  dr_classifier_epoch :: string
  dr_projection_digest :: string
  dr_now :: int

record publication_validation =
  va_generation :: string
  va_fulltext :: fulltext_descriptor
  va_vector :: vector_descriptor
  va_now :: int

record publication_commit =
  cm_generation :: string
  cm_terminals :: "terminal_update list"
  cm_projections :: "active_projection list"
  cm_projected :: "projected_snapshot list"
  cm_coverage :: "active_projection list"
  cm_now :: int

section \<open>The fingerprint of a publication\<close>

definition FULLTEXT_MANIFEST_SCHEMA_V3 :: string where
  "FULLTEXT_MANIFEST_SCHEMA_V3 = ''fulltext.snapshot.v3''"

definition FULLTEXT_INDEX_SCHEMA_V3 :: string where
  "FULLTEXT_INDEX_SCHEMA_V3 = ''tantivy.fulltext.v3''"

definition VECTOR_MANIFEST_SCHEMA_V4 :: string where
  "VECTOR_MANIFEST_SCHEMA_V4 = ''vector.snapshot.v4''"

definition VECTOR_INDEX_SCHEMA_V4 :: string where
  "VECTOR_INDEX_SCHEMA_V4 = ''hnsw-vector.v4''"

definition le_bytes32 :: "nat \<Rightarrow> nat list" where
  "le_bytes32 n = map (\<lambda>i. n div 2 ^ (8 * i) mod 256) [0..<4]"

abbreviation bytes :: "string \<Rightarrow> nat list" where
  "bytes \<equiv> map of_char"

text \<open>\<open>append_fingerprint_part\<close>; the parts in the order the function appends them.\<close>

definition append_fingerprint_part :: "nat list \<Rightarrow> nat list \<Rightarrow> nat list" where
  "append_fingerprint_part target part = target @ le_bytes64 (int (length part)) @ part"

fun mode_parts :: "vector_snapshot_mode \<Rightarrow> nat list list" where
  "mode_parts ModeDisabled = [bytes ''disabled'']"
| "mode_parts (ModeEnabled model dim) = [bytes ''enabled'', encode_utf8 model, le_bytes32 dim]"

definition fingerprint_parts ::
  "string \<Rightarrow> string \<Rightarrow> fulltext_descriptor \<Rightarrow> vector_descriptor \<Rightarrow> nat list list" where
  "fingerprint_parts classifier_epoch projection_digest fulltext vector =
     [bytes ''resume-ir.search-publication.v1'', bytes classifier_epoch, bytes projection_digest,
      bytes FULLTEXT_MANIFEST_SCHEMA_V3, bytes FULLTEXT_INDEX_SCHEMA_V3,
      le_bytes64 (int (ftd_document_count fulltext)), bytes (ftd_projection_digest fulltext),
      bytes (ftd_logical_content_digest fulltext), bytes VECTOR_MANIFEST_SCHEMA_V4,
      bytes VECTOR_INDEX_SCHEMA_V4, le_bytes64 (int (vd_projection_count vector)),
      bytes (vd_projection_digest vector), bytes (vd_coverage_digest vector),
      le_bytes64 (int (vd_vector_count vector)), le_bytes64 (int (vd_document_count vector)),
      le_bytes64 (int (vd_resume_version_count vector)), bytes (vd_logical_content_digest vector)]
     @ mode_parts (vd_mode vector)"

definition fingerprint_message ::
  "string \<Rightarrow> string \<Rightarrow> fulltext_descriptor \<Rightarrow> vector_descriptor \<Rightarrow> nat list" where
  "fingerprint_message classifier_epoch projection_digest fulltext vector =
     foldl append_fingerprint_part [] (fingerprint_parts classifier_epoch projection_digest fulltext vector)"

definition search_publication_fingerprint ::
  "hash \<Rightarrow> string \<Rightarrow> string \<Rightarrow> fulltext_descriptor \<Rightarrow> vector_descriptor \<Rightarrow> string" where
  "search_publication_fingerprint sha classifier_epoch projection_digest fulltext vector =
     content_digest sha (fingerprint_message classifier_epoch projection_digest fulltext vector)"

section \<open>Checks of drafts and descriptors\<close>

definition MAX_GENERATION_BYTES :: nat where
  "MAX_GENERATION_BYTES = 128"

definition is_ascii_alphanumeric :: "char \<Rightarrow> bool" where
  "is_ascii_alphanumeric c \<longleftrightarrow> (let n = of_char c :: nat
     in 48 \<le> n \<and> n \<le> 57 \<or> 65 \<le> n \<and> n \<le> 90 \<or> 97 \<le> n \<and> n \<le> 122)"

definition valid_generation :: "string \<Rightarrow> bool" where
  "valid_generation generation \<longleftrightarrow>
     generation \<noteq> [] \<and> length generation \<le> MAX_GENERATION_BYTES \<and> generation \<noteq> ''.'' \<and> generation \<noteq> ''..'' \<and>
     take 1 generation \<noteq> ''.'' \<and>
     list_all (\<lambda>c. is_ascii_alphanumeric c \<or> c = CHR ''.'' \<or> c = CHR ''_'' \<or> c = CHR ''-'') generation"

definition valid_model_id :: "rtext \<Rightarrow> bool" where
  "valid_model_id model_id \<longleftrightarrow>
     1 \<le> length model_id \<and> length model_id \<le> MAX_MODEL_ID_CHARS \<and>
     \<not> list_ex is_control model_id \<and> trim model_id = model_id"

definition CLASSIFIER_EPOCH :: string where
  "CLASSIFIER_EPOCH = ''precision_first_v4''"

definition PROMOTED_EPOCH_PREFIX :: string where
  "PROMOTED_EPOCH_PREFIX = ''precision_first_v4_linear_''"

text \<open>\<open>CurrentClassifierEpoch::parse\<close> succeeds.\<close>

definition current_classifier_epoch :: "string \<Rightarrow> bool" where
  "current_classifier_epoch value \<longleftrightarrow> value = CLASSIFIER_EPOCH \<or>
     take (length PROMOTED_EPOCH_PREFIX) value = PROMOTED_EPOCH_PREFIX \<and>
     (let suffix = drop (length PROMOTED_EPOCH_PREFIX) value
      in length suffix = 12 \<and> list_all is_lower_hexdigit suffix)"

definition validate_draft :: "publication_draft \<Rightarrow> (store_failure, unit) result" where
  "validate_draft draft =
     (if \<not> valid_generation (dr_generation draft) \<or>
         (case dr_base_generation draft of
            None \<Rightarrow> False | Some base \<Rightarrow> \<not> valid_generation base \<or> base = dr_generation draft)
      then Err (Failed InvalidGeneration)
      else if \<not> current_classifier_epoch (dr_classifier_epoch draft) then Err (Failed InvalidClassifierEpoch)
      else Ok ())"

definition i64_max :: nat where
  "i64_max = 2 ^ 63 - 1"

definition u64_to_i64 :: "nat \<Rightarrow> (store_failure, nat) result" where
  "u64_to_i64 value = (if value \<le> i64_max then Ok value else Err (Failed InvalidDescriptor))"

definition valid_mode :: "hash \<Rightarrow> vector_descriptor \<Rightarrow> bool" where
  "valid_mode sha vector \<longleftrightarrow>
     (case vd_mode vector of
        ModeDisabled \<Rightarrow> vd_vector_count vector = 0 \<and> vd_document_count vector = 0 \<and>
          vd_resume_version_count vector = 0 \<and> from_pairs sha [] = Ok (vd_coverage_digest vector)
      | ModeEnabled model_id dimension \<Rightarrow>
          valid_model_id model_id \<and> 1 \<le> dimension \<and> dimension \<le> MAX_VECTOR_DIMENSION)"

definition validate_descriptors :: "hash \<Rightarrow> publication_validation \<Rightarrow> (store_failure, unit) result" where
  "validate_descriptors sha v =
     (let fulltext = va_fulltext v; vector = va_vector v
      in if \<not> valid_generation (va_generation v) \<or> ftd_generation fulltext \<noteq> va_generation v \<or>
            vd_generation vector \<noteq> va_generation v \<or>
            ftd_projection_digest fulltext \<noteq> vd_projection_digest vector \<or>
            ftd_document_count fulltext \<noteq> vd_projection_count vector
         then Err (Failed DescriptorMismatch)
         else if vd_document_count vector > vd_projection_count vector \<or>
            vd_resume_version_count vector \<noteq> vd_document_count vector \<or>
            vd_vector_count vector < vd_document_count vector
         then Err (Failed InvalidDescriptor)
         else if \<not> valid_mode sha vector then Err (Failed InvalidDescriptor)
         else Ok ())"

section \<open>Checks of a commit\<close>

definition pair_of :: "active_projection \<Rightarrow> string \<times> string" where
  "pair_of p = (document_id p, resume_version_id p)"

definition projection_digest :: "hash \<Rightarrow> active_projection list \<Rightarrow> (store_failure, string) result" where
  "projection_digest sha ps = map_err (\<lambda>_. Failed ProjectionMismatch) (from_pairs sha (map pair_of ps))"

text \<open>The map of document to version: an error as soon as a document or a version repeats.\<close>

definition projection_map :: "active_projection list \<Rightarrow> (store_failure, string \<rightharpoonup> string) result" where
  "projection_map ps =
     (if distinct (map document_id ps) \<and> distinct (map resume_version_id ps)
      then Ok (map_of (map pair_of ps)) else Err (Failed ProjectionMismatch))"

definition valid_terminal_shape :: "bool \<Rightarrow> terminal_update \<Rightarrow> bool" where
  "valid_terminal_shape is_projected d \<longleftrightarrow>
     (case td_terminal_status d of
        Searchable \<Rightarrow> is_projected \<and> \<not> td_terminal_is_deleted d
      | Deleted \<Rightarrow> \<not> is_projected \<and> td_terminal_is_deleted d
      | Excluded \<Rightarrow> \<not> is_projected \<and> \<not> td_terminal_is_deleted d
      | FailedPermanent \<Rightarrow> \<not> is_projected \<and> \<not> td_terminal_is_deleted d
      | _ \<Rightarrow> False)"

definition validate_commit_shape :: "publication_commit \<Rightarrow> (store_failure, unit) result" where
  "validate_commit_shape commit =
     (if \<not> valid_generation (cm_generation commit) then Err (Failed InvalidGeneration)
      else rbind (projection_map (cm_projections commit)) (\<lambda>active.
        rbind (projection_map (cm_coverage commit)) (\<lambda>_.
        if length (cm_projected commit) \<noteq> length (cm_projections commit) \<or>
           list_ex (\<lambda>(d, p). snapshot_projection d \<noteq> p \<or>
              (case snapshot_document d of None \<Rightarrow> False | Some s \<Rightarrow> doc_id s \<noteq> document_id p))
             (zip (cm_projected commit) (cm_projections commit))
        then Err (Failed ProjectionMismatch)
        else if \<not> distinct (map td_document (cm_terminals commit)) \<or>
           \<not> list_all (\<lambda>d. valid_terminal_shape (active (td_document d) \<noteq> None) d) (cm_terminals commit)
        then Err (Failed InvalidDocumentState)
        else Ok ())))"

definition is_stable_nonsearch_terminal :: "document_status \<Rightarrow> bool" where
  "is_stable_nonsearch_terminal s \<longleftrightarrow> s \<in> {Excluded, FailedPermanent, Deleted}"

section \<open>Reading a journal row\<close>

text \<open>The checks of \<open>read_publication\<close> on a typed row.\<close>

definition read_publication :: "hash \<Rightarrow> search_publication \<Rightarrow> (store_failure, search_publication) result" where
  "read_publication sha p =
     (if (pub_fulltext p \<noteq> None) \<noteq> (pub_vector p \<noteq> None) \<or>
         (pub_fingerprint p \<noteq> None) \<noteq> (pub_fulltext p \<noteq> None) \<or>
         pub_state p = Preparing \<and> pub_fulltext p \<noteq> None \<or>
         pub_state p \<in> {Validated, Ready} \<and> pub_fulltext p = None
      then Err (Failed InvalidPersistedState)
      else case (pub_fingerprint p, pub_fulltext p, pub_vector p) of
          (Some persisted, Some fulltext, Some vector) \<Rightarrow>
            rbind (map_err (\<lambda>_. Failed InvalidPersistedState)
              (validate_descriptors sha
                \<lparr> va_generation = pub_generation p, va_fulltext = fulltext, va_vector = vector, va_now = 0 \<rparr>)) (\<lambda>_.
            if pub_projection_digest p \<noteq> ftd_projection_digest fulltext then Err (Failed InvalidPersistedState)
            else if persisted \<noteq> search_publication_fingerprint sha (pub_classifier_epoch p)
                 (pub_projection_digest p) fulltext vector then Err (Failed InvalidPersistedState)
            else Ok p)
        | _ \<Rightarrow> Ok p)"

end
