(* ===== verification/PublicationIdentity.thy ===== *)
theory PublicationIdentity
  imports Publication
begin







end
