(* ===== verification/RustStr.thy ===== *)
theory RustStr
  imports RustText "HOL-Library.Sublist"
begin

text \<open>
  Walking and searching a string: byte offsets of characters, slices at character
  boundaries, splitting, joining and searching, as \<open>str\<close> and \<open>Iterator\<close> offer them to the
  text pipeline.
\<close>

text \<open>\<open>str::char_indices\<close>: the characters with the byte offsets they start at.\<close>

fun char_indices_from :: "nat \<Rightarrow> rtext \<Rightarrow> (nat \<times> uchar) list" where
  "char_indices_from i [] = []"
| "char_indices_from i (c # s) = (i, c) # char_indices_from (i + len_utf8 c) s"

definition char_indices :: "rtext \<Rightarrow> (nat \<times> uchar) list" where
  "char_indices s = char_indices_from 0 s"

text \<open>\<open>&s[a..b]\<close> for offsets at character boundaries.\<close>

definition str_slice :: "rtext \<Rightarrow> nat \<Rightarrow> nat \<Rightarrow> rtext" where
  "str_slice s a b = map snd (filter (\<lambda>(i, c). a \<le> i \<and> i < b) (char_indices s))"

text \<open>\<open>Iterator::position\<close> and \<open>rposition\<close>.\<close>

definition position :: "('a \<Rightarrow> bool) \<Rightarrow> 'a list \<Rightarrow> nat option" where
  "position P xs = (if list_ex P xs then Some (length (takeWhile (\<lambda>x. \<not> P x) xs)) else None)"

definition rposition :: "('a \<Rightarrow> bool) \<Rightarrow> 'a list \<Rightarrow> nat option" where
  "rposition P xs =
     (if list_ex P xs then Some (length xs - 1 - length (takeWhile (\<lambda>x. \<not> P x) (rev xs))) else None)"

text \<open>\<open>str::split\<close> on a character, \<open>join\<close>, \<open>starts_with\<close> and \<open>contains\<close>.\<close>

fun split_on :: "'a \<Rightarrow> 'a list \<Rightarrow> 'a list list" where
  "split_on d [] = [[]]"
| "split_on d (c # s) =
     (if c = d then [] # split_on d s
      else case split_on d s of [] \<Rightarrow> [[c]] | t # ts \<Rightarrow> (c # t) # ts)"

fun join_with :: "'a list \<Rightarrow> 'a list list \<Rightarrow> 'a list" where
  "join_with sep [] = []"
| "join_with sep [t] = t"
| "join_with sep (t # u # ts) = t @ sep @ join_with sep (u # ts)"

text \<open>\<open>str::split\<close> on a non-empty string, and \<open>str::split_inclusive\<close> on a character.\<close>

function split_str :: "'a list \<Rightarrow> 'a list \<Rightarrow> 'a list list" where
  "split_str p [] = [[]]"
| "split_str p (c # s) =
     (if p \<noteq> [] \<and> prefix p (c # s) then [] # split_str p (drop (length p) (c # s))
      else case split_str p s of [] \<Rightarrow> [[c]] | t # ts \<Rightarrow> (c # t) # ts)"
  by pat_completeness auto
termination by (relation "measure (\<lambda>(p, s). length s)") auto

fun split_inclusive :: "'a \<Rightarrow> 'a list \<Rightarrow> 'a list list" where
  "split_inclusive d [] = []"
| "split_inclusive d (c # s) =
     (if c = d then [c] # split_inclusive d s
      else case split_inclusive d s of [] \<Rightarrow> [[c]] | t # ts \<Rightarrow> (c # t) # ts)"

definition starts_with :: "rtext \<Rightarrow> rtext \<Rightarrow> bool" where
  "starts_with s p \<longleftrightarrow> prefix p s"

definition contains :: "rtext \<Rightarrow> rtext \<Rightarrow> bool" where
  "contains s p \<longleftrightarrow> list_ex (prefix p) (suffixes s)"

definition is_ascii_alphabetic :: "nat \<Rightarrow> bool" where
  "is_ascii_alphabetic b \<longleftrightarrow> 65 \<le> b \<and> b \<le> 90 \<or> 97 \<le> b \<and> b \<le> 122"

definition is_ascii_digit :: "nat \<Rightarrow> bool" where
  "is_ascii_digit b \<longleftrightarrow> 48 \<le> b \<and> b \<le> 57"

definition to_ascii_lowercase :: "rtext \<Rightarrow> rtext" where
  "to_ascii_lowercase s = map (\<lambda>c. if 65 \<le> c \<and> c \<le> 90 then c + 32 else c) s"

lemma char_indices_from_append [simp]:
  "char_indices_from i (s @ t) = char_indices_from i s @ char_indices_from (i + utf8_len s) t"
  by (induction s arbitrary: i) (simp_all add: add.assoc)

lemma snd_char_indices_from [simp]: "map snd (char_indices_from i s) = s"
  by (induction s arbitrary: i) simp_all

lemma char_indices_from_bounds:
  "(k, c) \<in> set (char_indices_from i s) \<Longrightarrow> i \<le> k \<and> k + len_utf8 c \<le> i + utf8_len s"
  by (induction s arbitrary: i) force+

lemma char_indices_bounds: "(k, c) \<in> set (char_indices s) \<Longrightarrow> k + len_utf8 c \<le> utf8_len s"
  using char_indices_from_bounds [of k c 0 s] by (simp add: char_indices_def)

lemma char_indices_from_split:
  "(k, c) \<in> set (char_indices_from i s) \<Longrightarrow> \<exists>x y. s = x @ c # y \<and> k = i + utf8_len x"
proof (induction s arbitrary: i)
  case (Cons d s)
  show ?case
  proof (cases "(k, c) = (i, d)")
    case True
    then show ?thesis by (intro exI [of _ "[]"] exI [of _ s]) simp
  next
    case False
    then obtain x y where "s = x @ c # y" "k = i + len_utf8 d + utf8_len x" using Cons by force
    then show ?thesis by (intro exI [of _ "d # x"] exI [of _ y]) simp
  qed
qed simp

lemma char_indices_split:
  assumes "(k, c) \<in> set (char_indices s)"
  obtains x y where "s = x @ c # y" "k = utf8_len x"
  using char_indices_from_split [of k c 0 s] assms by (auto simp: char_indices_def)

text \<open>Slicing at the boundaries of a part gives that part.\<close>

lemma filter_char_indices_from:
  "filter (\<lambda>(k, c). i + utf8_len s \<le> k \<and> k < i + utf8_len s + utf8_len t) (char_indices_from i (s @ t @ u)) =
     char_indices_from (i + utf8_len s) t"
proof -
  have out: "filter (\<lambda>(k, c). a \<le> k \<and> k < b) (char_indices_from j v) = []"
    if "b \<le> j \<or> j + utf8_len v \<le> a" for a b j v
  proof -
    have "\<not> (a \<le> k \<and> k < b)" if "(k, c) \<in> set (char_indices_from j v)" for k c
      using char_indices_from_bounds [OF that] \<open>b \<le> j \<or> j + utf8_len v \<le> a\<close> len_utf8_pos [of c] by linarith
    then show ?thesis by (auto simp: filter_empty_conv)
  qed
  have ins: "filter (\<lambda>(k, c). a \<le> k \<and> k < b) (char_indices_from j v) = char_indices_from j v"
    if "a \<le> j" "j + utf8_len v \<le> b" for a b j v
  proof -
    have "a \<le> k \<and> k < b" if "(k, c) \<in> set (char_indices_from j v)" for k c
      using char_indices_from_bounds [OF that] \<open>a \<le> j\<close> \<open>j + utf8_len v \<le> b\<close> len_utf8_pos [of c]
      by (simp del: len_utf8_pos)
    then show ?thesis by (auto simp: filter_id_conv)
  qed
  show ?thesis by (simp add: out ins add.assoc)
qed

lemma str_slice_part: "str_slice (s @ t @ u) (utf8_len s) (utf8_len s + utf8_len t) = t"
  using filter_char_indices_from [of 0 s t u] by (simp add: str_slice_def char_indices_def del: char_indices_from_append)

lemma split_on_neq_Nil [simp]: "split_on d s \<noteq> []"
  by (induction s) (auto split: list.split)

lemma join_with_split_on [simp]: "join_with [d] (split_on d s) = s"
proof (induction s)
  case (Cons c s)
  moreover obtain t ts where "split_on d s = t # ts" by (meson neq_Nil_conv split_on_neq_Nil)
  ultimately show ?case by (cases ts) auto
qed simp

lemma split_str_neq_Nil [simp]: "split_str p s \<noteq> []"
  by (induction p s rule: split_str.induct) (auto split: list.split)

lemma join_with_split_str [simp]: "join_with p (split_str p s) = s"
proof (induction p s rule: split_str.induct)
  case (2 p c s)
  show ?case
  proof (cases "p \<noteq> [] \<and> prefix p (c # s)")
    case True
    define r where "r = drop (length p) (c # s)"
    obtain t ts where t: "split_str p r = t # ts" by (meson neq_Nil_conv split_str_neq_Nil)
    have "join_with p (split_str p (c # s)) = p @ join_with p (split_str p r)" using True t by (simp add: r_def)
    also have "\<dots> = p @ r" using 2(1) [OF True] by (simp add: r_def)
    also have "\<dots> = c # s" using True by (metis append_take_drop_id prefix_def append_eq_conv_conj r_def)
    finally show ?thesis .
  next
    case False
    obtain t ts where "split_str p s = t # ts" by (meson neq_Nil_conv split_str_neq_Nil)
    then show ?thesis using 2(2) [OF False] False by (cases ts) auto
  qed
qed simp

lemma concat_split_inclusive [simp]: "concat (split_inclusive d s) = s"
  by (induction s) (auto split: list.split)

lemma split_inclusive_part: "t \<in> set (split_inclusive d s) \<Longrightarrow> t \<noteq> [] \<and> d \<notin> set (butlast t)"
  by (induction s arbitrary: t) (auto split: if_splits list.splits)

lemma split_inclusive_eq_Nil [simp]: "split_inclusive d s = [] \<longleftrightarrow> s = []"
  by (cases s) (auto split: list.split)

lemma split_on_no_sep: "t \<in> set (split_on d s) \<Longrightarrow> d \<notin> set t"
  by (induction s arbitrary: t) (auto split: if_splits list.splits)

text \<open>A list with a solid element: blanks, a part that starts and ends solid, blanks.\<close>

lemma solid_part:
  assumes "list_ex P xs"
  obtains a m b where "xs = a @ m @ b" "m \<noteq> []" "P (hd m)" "P (last m)"
    "list_all (\<lambda>x. \<not> P x) a" "list_all (\<lambda>x. \<not> P x) b"
proof -
  obtain a x ys where s: "xs = a @ x # ys" "P x" "\<forall>y \<in> set a. \<not> P y"
    using assms split_list_first_prop [of xs P] by (auto simp: list_ex_iff)
  obtain bs z b where t: "x # ys = bs @ z # b" "P z" "\<forall>y \<in> set b. \<not> P y"
    using s(2) split_list_last_prop [of "x # ys" P] by auto
  show ?thesis
  proof (rule that)
    show "xs = a @ (bs @ [z]) @ b" using s(1) t(1) by simp
    show "P (hd (bs @ [z]))" using t s(2) by (cases bs) auto
  qed (use s t in \<open>auto simp: list_all_iff\<close>)
qed

lemma filter_blank_indices:
  "list_all (\<lambda>x. \<not> P x) s \<Longrightarrow> filter (\<lambda>(_, c). P c) (char_indices_from i s) = []"
  by (induction s arbitrary: i) simp_all

lemma filter_solid_indices:
  assumes "list_all (\<lambda>x. \<not> P x) a" "list_all (\<lambda>x. \<not> P x) b" "m \<noteq> []" "P (hd m)" "P (last m)"
  defines "solid \<equiv> filter (\<lambda>(_, c). P c) (char_indices (a @ m @ b))"
  shows "solid \<noteq> []" "fst (hd solid) = utf8_len a"
    "fst (last solid) + len_utf8 (snd (last solid)) = utf8_len a + utf8_len m"
proof -
  have solid: "solid = filter (\<lambda>(_, c). P c) (char_indices_from (utf8_len a) m)"
    by (simp add: solid_def char_indices_def filter_blank_indices [OF assms(1)] filter_blank_indices [OF assms(2)])
  obtain x ys where m: "m = x # ys" using assms(3) by (cases m) auto
  show "solid \<noteq> []" "fst (hd solid) = utf8_len a" using solid assms(4) m by simp_all
  obtain zs z where m': "m = zs @ [z]" using assms(3) by (cases m rule: rev_cases) auto
  show "fst (last solid) + len_utf8 (snd (last solid)) = utf8_len a + utf8_len m"
    using solid assms(5) m' by simp
qed

lemma find_filter: "find P xs = (case filter P xs of [] \<Rightarrow> None | x # _ \<Rightarrow> Some x)"
  by (induction xs) auto

lemma find_rev_filter: "find P (rev xs) = (if filter P xs = [] then None else Some (last (filter P xs)))"
  by (simp add: find_filter rev_filter [symmetric] split: list.split)

text \<open>The characters from one index to another.\<close>

definition sub :: "'a list \<Rightarrow> nat \<Rightarrow> nat \<Rightarrow> 'a list" where
  "sub t a b = take (b - a) (drop a t)"

lemma sub_same [simp]: "sub t a a = []"
  by (simp add: sub_def)

lemma sub_append:
  assumes "a \<le> b" "b \<le> c"
  shows "sub t a b @ sub t b c = sub t a c"
proof -
  obtain i j where "b = a + i" "c = a + i + j" using assms le_Suc_ex by metis
  then show ?thesis by (simp add: sub_def take_add add.commute)
qed

lemma sub_part [simp]: "sub (x @ y @ z) (length x) (length x + length y) = y"
  by (simp add: sub_def)

lemma length_sub: "b \<le> length t \<Longrightarrow> length (sub t a b) = b - a"
  by (simp add: sub_def)

end
