(* ===== verification/TextNormalizer.thy ===== *)
theory TextNormalizer
  imports RustStr
begin

text \<open>
  The text normaliser (\<open>crates/text-normalizer/src/lib.rs\<close>): the routine that keeps, for
  every byte of the clean text, the range of source bytes it came from, and the routine
  that produces the clean text only.  The lemmas follow a line as the list of its
  characters with their origins; the properties are that both routines give the same text,
  that every clean character can be traced back to the source, and that cleaning twice is
  cleaning once.
\<close>

section \<open>Lines and origins\<close>

type_synonym byte_range = "nat \<times> nat"

definition usize_max :: nat where
  "usize_max = 2 ^ 64 - 1"

record Line =
  line_text :: rtext
  line_origins :: "byte_range list"

record NormalizedText =
  nt_text :: rtext
  nt_origins :: "byte_range list"

definition default_line :: Line where
  "default_line = \<lparr>line_text = [], line_origins = []\<rparr>"

definition is_blank :: "Line \<Rightarrow> bool" where
  "is_blank l \<longleftrightarrow> line_text l = []"

definition push_char :: "Line \<Rightarrow> uchar \<Rightarrow> byte_range \<Rightarrow> Line" where
  "push_char l c origin = l\<lparr>line_text := line_text l @ [c],
     line_origins := line_origins l @ replicate (len_utf8 c) origin\<rparr>"

definition is_horizontal_space :: "uchar \<Rightarrow> bool" where
  "is_horizontal_space c \<longleftrightarrow> is_whitespace c \<and> c \<noteq> 10 \<and> c \<noteq> 13"

definition sanitize_inline_character :: "uchar \<Rightarrow> uchar" where
  "sanitize_inline_character c = (if is_control c then 32 else c)"

text \<open>The running minimum of the starts and maximum of the ends.\<close>

fun widen :: "byte_range \<Rightarrow> byte_range \<Rightarrow> byte_range" where
  "widen (s, e) (a, b) = (min s a, max e b)"

definition merged_origin :: "byte_range list \<Rightarrow> byte_range" where
  "merged_origin origins =
     (let (start, stop) = foldl widen (usize_max, 0) origins
      in if start = usize_max then (0, 0) else (start, stop))"

definition original_span_for_clean_range :: "NormalizedText \<Rightarrow> byte_range \<Rightarrow> byte_range option" where
  "original_span_for_clean_range nt rng =
     (if snd rng \<le> fst rng \<or> length (nt_origins nt) < snd rng then None
      else let slice = take (snd rng - fst rng) (drop (fst rng) (nt_origins nt));
               (start, stop) = foldl widen (usize_max, 0)
                 (filter (\<lambda>(a, b). a < b) slice)
           in if start \<noteq> usize_max \<and> start \<le> stop then Some (start, stop) else None)"

section \<open>The routine that tracks origins\<close>

text \<open>\<open>source_lines\<close>: the rest of the source, from a byte offset, with the line under
  construction.\<close>

function source_lines_from :: "nat \<Rightarrow> rtext \<Rightarrow> Line \<Rightarrow> Line list" where
  "source_lines_from start [] line = [line]"
| "source_lines_from start (c # cs) line =
     (let stop = start + len_utf8 c in
      if c = 13 then
        line # (if cs \<noteq> [] \<and> hd cs = 10 then source_lines_from (stop + len_utf8 10) (tl cs) default_line
                else source_lines_from stop cs default_line)
      else if c = 10 \<or> c = 12 then line # source_lines_from stop cs default_line
      else source_lines_from stop cs (push_char line (sanitize_inline_character c) (start, stop)))"
  by pat_completeness auto
termination by (relation "measure (\<lambda>(i, cs, l). length cs)") auto

definition source_lines :: "rtext \<Rightarrow> Line list" where
  "source_lines source = source_lines_from 0 source default_line"

definition line_chars :: "Line \<Rightarrow> (uchar \<times> byte_range) list" where
  "line_chars line = map (\<lambda>(start, c). (c, merged_origin (take (len_utf8 c) (drop start (line_origins line)))))
     (char_indices (line_text line))"

fun squeeze_spaces :: "(uchar \<times> byte_range) list \<Rightarrow> byte_range option \<Rightarrow> Line \<Rightarrow> Line" where
  "squeeze_spaces [] pending_space output = output"
| "squeeze_spaces ((c, origin) # rest) pending_space output =
     (if is_horizontal_space c then
        squeeze_spaces rest
          (Some (case pending_space of
                   Some existing \<Rightarrow> (min (fst existing) (fst origin), max (snd existing) (snd origin))
                 | None \<Rightarrow> origin)) output
      else squeeze_spaces rest None
        (push_char (case pending_space of Some space_origin \<Rightarrow> push_char output 32 space_origin | None \<Rightarrow> output)
          c origin))"

definition is_spaced_word :: "rtext \<Rightarrow> bool" where
  "is_spaced_word s \<longleftrightarrow>
     (let tokens = split_on 32 s in
      \<not> (length tokens < 4 \<or>
         \<not> list_all (\<lambda>token. utf8_len token = 1 \<and> is_ascii_alphabetic (hd (encode_utf8 token))) tokens))"

definition repair_spaced_ascii_word :: "Line \<Rightarrow> Line" where
  "repair_spaced_ascii_word line =
     (if \<not> is_spaced_word (line_text line) then line
      else foldl (\<lambda>output (c, origin). if c = 32 then output else push_char output c origin)
             default_line (line_chars line))"

definition normalize_line :: "Line \<Rightarrow> Line" where
  "normalize_line line =
     (let chars = line_chars line in
      case position (\<lambda>(c, _). \<not> is_horizontal_space c) chars of
        None \<Rightarrow> default_line
      | Some first \<Rightarrow>
          let final = the (rposition (\<lambda>(c, _). \<not> is_horizontal_space c) chars)
          in repair_spaced_ascii_word
               (squeeze_spaces (take (final + 1 - first) (drop first chars)) None default_line))"

text \<open>The counts of the non-empty lines of at most 80 bytes, and the lines that occur twice.\<close>

definition short_line_counts :: "rtext list \<Rightarrow> rtext \<rightharpoonup> nat" where
  "short_line_counts ls =
     foldl (\<lambda>counts line.
       if line = [] \<or> 80 < utf8_len line then counts
       else counts(line \<mapsto> (case counts line of Some n \<Rightarrow> n | None \<Rightarrow> 0) + 1)) Map.empty ls"

definition repeated_short_line_flags :: "rtext list \<Rightarrow> bool list" where
  "repeated_short_line_flags ls =
     (let counts = short_line_counts ls in
      map (\<lambda>line. line \<noteq> [] \<and> utf8_len line \<le> 80 \<and>
        (case counts line of Some n \<Rightarrow> 1 < n | None \<Rightarrow> False)) ls)"

definition is_page_number_line :: "rtext \<Rightarrow> bool" where
  "is_page_number_line s \<longleftrightarrow>
     (let lower = to_ascii_lowercase s in
      starts_with lower (lit ''page '') \<and> contains lower (lit '' of '') \<and> list_ex is_ascii_digit lower)"

definition remove_repeated_headers_and_footers :: "Line list \<Rightarrow> Line list" where
  "remove_repeated_headers_and_footers ls =
     map2 (\<lambda>line repeated.
        if is_blank line \<or> is_page_number_line (line_text line) then line\<lparr>line_text := [], line_origins := []\<rparr>
        else if repeated then line\<lparr>line_text := [], line_origins := []\<rparr> else line)
       ls (repeated_short_line_flags (map line_text ls))"

fun collapse_blanks :: "('l \<Rightarrow> bool) \<Rightarrow> bool \<Rightarrow> 'l list \<Rightarrow> 'l list" where
  "collapse_blanks blank previous_blank [] = []"
| "collapse_blanks blank previous_blank (l # ls) =
     (if blank l then (if previous_blank then [] else [l]) @ collapse_blanks blank True ls
      else l # collapse_blanks blank False ls)"

definition pop_blanks :: "('l \<Rightarrow> bool) \<Rightarrow> 'l list \<Rightarrow> 'l list" where
  "pop_blanks blank ls = rev (dropWhile blank (rev ls))"

definition collapse_blank_lines :: "Line list \<Rightarrow> Line list" where
  "collapse_blank_lines ls = pop_blanks is_blank (collapse_blanks is_blank True ls)"

definition join_step :: "NormalizedText \<Rightarrow> nat \<times> Line \<Rightarrow> NormalizedText" where
  "join_step output indexed =
     (let sep = (if 0 < fst indexed
                 then output\<lparr>nt_text := nt_text output @ [10], nt_origins := nt_origins output @ [(0, 0)]\<rparr>
                 else output)
      in sep\<lparr>nt_text := nt_text sep @ line_text (snd indexed), nt_origins := nt_origins sep @ line_origins (snd indexed)\<rparr>)"

definition join_lines :: "Line list \<Rightarrow> NormalizedText" where
  "join_lines ls = foldl join_step \<lparr>nt_text = [], nt_origins = []\<rparr> (enumerate 0 ls)"

definition normalize :: "rtext \<Rightarrow> NormalizedText" where
  "normalize source =
     join_lines (collapse_blank_lines (remove_repeated_headers_and_footers (map normalize_line (source_lines source))))"

section \<open>The routine for the text only\<close>

function source_text_lines_from :: "rtext \<Rightarrow> rtext \<Rightarrow> rtext list" where
  "source_text_lines_from [] line = [line]"
| "source_text_lines_from (c # cs) line =
     (if c = 13 then
        line # (if cs \<noteq> [] \<and> hd cs = 10 then source_text_lines_from (tl cs) []
                else source_text_lines_from cs [])
      else if c = 10 \<or> c = 12 then line # source_text_lines_from cs []
      else source_text_lines_from cs (line @ [sanitize_inline_character c]))"
  by pat_completeness auto
termination by (relation "measure (\<lambda>(cs, l). length cs)") auto

definition source_text_lines :: "rtext \<Rightarrow> rtext list" where
  "source_text_lines source = source_text_lines_from source []"

fun squeeze_text_spaces :: "rtext \<Rightarrow> bool \<Rightarrow> rtext \<Rightarrow> rtext" where
  "squeeze_text_spaces [] pending_space output = output"
| "squeeze_text_spaces (c # rest) pending_space output =
     (if is_horizontal_space c then squeeze_text_spaces rest True output
      else squeeze_text_spaces rest False
        ((if pending_space \<and> output \<noteq> [] then output @ [32] else output) @ [c]))"

definition repair_spaced_ascii_word_text :: "rtext \<Rightarrow> rtext" where
  "repair_spaced_ascii_word_text line = (if \<not> is_spaced_word line then line else filter (\<lambda>c. c \<noteq> 32) line)"

definition normalize_text_line :: "rtext \<Rightarrow> rtext" where
  "normalize_text_line line =
     (case filter (\<lambda>(_, c). \<not> is_horizontal_space c) (char_indices line) of
        [] \<Rightarrow> []
      | solid \<Rightarrow>
          let first = fst (hd solid);
              final = fst (last solid) + len_utf8 (snd (last solid))
          in repair_spaced_ascii_word_text (squeeze_text_spaces (str_slice line first final) False []))"

definition remove_repeated_text_headers_and_footers :: "rtext list \<Rightarrow> rtext list" where
  "remove_repeated_text_headers_and_footers ls =
     map2 (\<lambda>line repeated.
        if line = [] \<or> is_page_number_line line then [] else if repeated then [] else line)
       ls (repeated_short_line_flags ls)"

definition collapse_blank_text_lines :: "rtext list \<Rightarrow> rtext list" where
  "collapse_blank_text_lines ls = pop_blanks (\<lambda>l. l = []) (collapse_blanks (\<lambda>l. l = []) True ls)"

definition normalize_text_only :: "rtext \<Rightarrow> rtext" where
  "normalize_text_only source =
     join_with [10] (collapse_blank_text_lines
       (remove_repeated_text_headers_and_footers (map normalize_text_line (source_text_lines source))))"

section \<open>Both routines give the same text\<close>

lemma fst_line_chars [simp]: "map fst (line_chars l) = line_text l"
  by (simp add: line_chars_def char_indices_def comp_def case_prod_unfold)

lemma line_text_push_char [simp]: "line_text (push_char l c r) = line_text l @ [c]"
  by (simp add: push_char_def)

lemma line_text_default [simp]: "line_text default_line = []"
  by (simp add: default_line_def)

lemma takeWhile_solid: "list_all (\<lambda>x. \<not> P x) a \<Longrightarrow> m \<noteq> [] \<Longrightarrow> P (hd m) \<Longrightarrow> takeWhile (\<lambda>x. \<not> P x) (a @ m @ b) = a"
  by (cases m) (simp_all add: list_all_iff)

lemma position_part:
  assumes "list_all (\<lambda>x. \<not> P x) a" "list_all (\<lambda>x. \<not> P x) b" "m \<noteq> []" "P (hd m)" "P (last m)"
  shows "position P (a @ m @ b) = Some (length a)"
    and "rposition P (a @ m @ b) = Some (length a + length m - 1)"
proof -
  have ex: "list_ex P (a @ m @ b)" using assms(3,4) by (auto simp: list_ex_iff intro: list.set_sel(1))
  then show "position P (a @ m @ b) = Some (length a)"
    using takeWhile_solid [OF assms(1,3,4)] by (simp add: position_def del: append_assoc list_ex_append)
  have "takeWhile (\<lambda>x. \<not> P x) (rev b @ rev m @ rev a) = rev b"
    using takeWhile_solid [of P "rev b" "rev m" "rev a"] assms by (simp add: hd_rev)
  then show "rposition P (a @ m @ b) = Some (length a + length m - 1)"
    using ex by (simp add: rposition_def)
qed

lemma position_map: "position P (map f xs) = position (\<lambda>x. P (f x)) xs"
  by (simp add: position_def takeWhile_map comp_def list_ex_iff)

lemma position_None: "position P xs = None \<longleftrightarrow> \<not> list_ex P xs"
  by (simp add: position_def)

text \<open>The two ways of cutting off the outer spaces.\<close>

lemma squeeze_text:
  "line_text out \<noteq> [] \<Longrightarrow>
   line_text (squeeze_spaces xs p out) = squeeze_text_spaces (map fst xs) (p \<noteq> None) (line_text out)"
  by (induction xs p out rule: squeeze_spaces.induct) (simp_all split: option.split)

lemma squeeze_text_start:
  assumes "xs \<noteq> []" "\<not> is_horizontal_space (fst (hd xs))"
  shows "line_text (squeeze_spaces xs None default_line) = squeeze_text_spaces (map fst xs) False []"
  using assms by (cases xs) (auto simp: squeeze_text)

lemma repair_text: "line_text (repair_spaced_ascii_word l) = repair_spaced_ascii_word_text (line_text l)"
proof -
  have "line_text (foldl (\<lambda>out (c, r). if c = 32 then out else push_char out c r) out xs) =
      line_text out @ filter (\<lambda>c. c \<noteq> 32) (map fst xs)" for out xs
    by (induction xs arbitrary: out) auto
  then show ?thesis by (simp add: repair_spaced_ascii_word_def repair_spaced_ascii_word_text_def)
qed

lemma normalize_text_line_part:
  assumes "list_all (\<lambda>c. \<not> (\<not> is_horizontal_space c)) a" "list_all (\<lambda>c. \<not> (\<not> is_horizontal_space c)) b"
    "m \<noteq> []" "\<not> is_horizontal_space (hd m)" "\<not> is_horizontal_space (last m)"
  shows "normalize_text_line (a @ m @ b) = repair_spaced_ascii_word_text (squeeze_text_spaces m False [])"
proof -
  note idx = filter_solid_indices [where P = "\<lambda>c. \<not> is_horizontal_space c", OF assms]
  obtain x xs where F: "filter (\<lambda>(_, c). \<not> is_horizontal_space c) (char_indices (a @ m @ b)) = x # xs"
    using idx(1) by (meson neq_Nil_conv)
  show ?thesis
    using idx(2,3) unfolding normalize_text_line_def F by (simp add: str_slice_part del: last.simps)
qed

lemma normalize_text_line_blank: "list_all is_horizontal_space s \<Longrightarrow> normalize_text_line s = []"
  using filter_blank_indices [of "\<lambda>c. \<not> is_horizontal_space c" s 0]
  by (simp add: normalize_text_line_def char_indices_def)

lemma normalize_line_text: "line_text (normalize_line l) = normalize_text_line (line_text l)"
proof (cases "list_ex (\<lambda>c. \<not> is_horizontal_space c) (line_text l)")
  case False
  then have "list_all is_horizontal_space (line_text l)" by (auto simp: list_ex_iff list_all_iff)
  moreover have "position (\<lambda>(c, _). \<not> is_horizontal_space c) (line_chars l) = None"
    using False position_map [of "\<lambda>c. \<not> is_horizontal_space c" fst "line_chars l"]
    by (simp add: position_None [symmetric] case_prod_unfold)
  ultimately show ?thesis by (simp add: normalize_line_def normalize_text_line_blank)
next
  case True
  then have "list_ex (\<lambda>(c, _). \<not> is_horizontal_space c) (line_chars l)"
    unfolding fst_line_chars [symmetric] by (simp add: list_ex_iff case_prod_unfold del: fst_line_chars)
  then obtain a m b where ch: "line_chars l = a @ m @ b" "m \<noteq> []"
    "\<not> is_horizontal_space (fst (hd m))" "\<not> is_horizontal_space (fst (last m))"
    "list_all (\<lambda>x. \<not> (\<not> is_horizontal_space (fst x))) a" "list_all (\<lambda>x. \<not> (\<not> is_horizontal_space (fst x))) b"
    by (rule solid_part) (auto simp: case_prod_unfold)
  define a' m' b' where parts: "a' = map fst a" "m' = map fst m" "b' = map fst b"
  have whole: "line_text l = a' @ m' @ b'" using arg_cong [OF ch(1), of "map fst"] parts by simp
  have solid: "list_all (\<lambda>x. \<not> (\<not> is_horizontal_space x)) a'" "list_all (\<lambda>x. \<not> (\<not> is_horizontal_space x)) b'"
    "m' \<noteq> []" "\<not> is_horizontal_space (hd m')" "\<not> is_horizontal_space (last m')"
    using ch parts by (simp_all add: list_all_iff hd_map last_map)
  note pos = position_part [where P = "\<lambda>x. \<not> is_horizontal_space (fst x)", OF ch(5,6,2,3,4)]
  have "line_text (normalize_line l) = repair_spaced_ascii_word_text (squeeze_text_spaces m' False [])"
    using pos ch(2) by (simp add: normalize_line_def ch(1) case_prod_unfold repair_text squeeze_text_start [OF ch(2,3)] parts)
  then show ?thesis by (simp add: whole normalize_text_line_part [OF solid])
qed

lemma source_lines_text: "map line_text (source_lines_from i cs l) = source_text_lines_from cs (line_text l)"
  by (induction i cs l rule: source_lines_from.induct) (simp_all add: Let_def)

lemma collapse_blanks_map:
  "map f (collapse_blanks (\<lambda>x. blank (f x)) pb ls) = collapse_blanks blank pb (map f ls)"
  by (induction ls arbitrary: pb) simp_all

lemma pop_blanks_map: "map f (pop_blanks (\<lambda>x. blank (f x)) ls) = pop_blanks blank (map f ls)"
  by (simp add: pop_blanks_def rev_map dropWhile_map comp_def)

lemma collapse_blank_lines_text: "map line_text (collapse_blank_lines ls) = collapse_blank_text_lines (map line_text ls)"
  by (simp add: collapse_blank_lines_def collapse_blank_text_lines_def is_blank_def [abs_def]
      pop_blanks_map [where blank = "\<lambda>l. l = []"] collapse_blanks_map [where blank = "\<lambda>l. l = []"])

lemma remove_repeated_text:
  "map line_text (remove_repeated_headers_and_footers ls) = remove_repeated_text_headers_and_footers (map line_text ls)"
proof -
  have "map line_text (map2 (\<lambda>line rep.
        if is_blank line \<or> is_page_number_line (line_text line) then line\<lparr>line_text := [], line_origins := []\<rparr>
        else if rep then line\<lparr>line_text := [], line_origins := []\<rparr> else line) ls fs) =
    map2 (\<lambda>line rep. if line = [] \<or> is_page_number_line line then [] else if rep then [] else line) (map line_text ls) fs" for fs
  proof (induction ls arbitrary: fs)
    case (Cons l ls)
    then show ?case by (cases fs) (simp_all add: is_blank_def)
  qed simp
  then show ?thesis
    by (simp add: remove_repeated_headers_and_footers_def remove_repeated_text_headers_and_footers_def)
qed

lemma join_steps:
  "foldl join_step out (enumerate (Suc n) ls) =
     \<lparr>nt_text = nt_text out @ concat (map (\<lambda>l. 10 # line_text l) ls),
      nt_origins = nt_origins out @ concat (map (\<lambda>l. (0, 0) # line_origins l) ls)\<rparr>"
  by (induction ls arbitrary: n out) (simp_all add: join_step_def Let_def)

lemma join_with_Cons: "join_with [d] (f l # map f ls) = f l @ concat (map (\<lambda>l. d # f l) ls)"
  by (induction ls arbitrary: l) simp_all

lemma join_lines_parts:
  "join_lines ls = \<lparr>nt_text = join_with [10] (map line_text ls), nt_origins = join_with [(0, 0)] (map line_origins ls)\<rparr>"
  by (cases ls) (simp_all add: join_lines_def join_steps join_step_def join_with_Cons)

text \<open>C11: for every source text, the routine that tracks origins and the routine that
  produces the text only give the same clean text.\<close>

theorem normalizers_agree: "nt_text (normalize source) = normalize_text_only source"
proof -
  have "map line_text (map normalize_line (source_lines source)) = map normalize_text_line (source_text_lines source)"
    using source_lines_text [of 0 source default_line, symmetric]
    by (simp add: source_lines_def source_text_lines_def normalize_line_text)
  then show ?thesis
    by (simp add: normalize_def normalize_text_only_def join_lines_parts collapse_blank_lines_text remove_repeated_text del: map_map)
qed

section \<open>Tracing clean text back to the source\<close>

text \<open>A line that is described by its characters with their origins.\<close>

definition byte_items :: "(uchar \<times> byte_range) list \<Rightarrow> byte_range list" where
  "byte_items items = concat (map (\<lambda>(c, r). replicate (len_utf8 c) r) items)"

definition line_of :: "(uchar \<times> byte_range) list \<Rightarrow> Line" where
  "line_of items = \<lparr>line_text = map fst items, line_origins = byte_items items\<rparr>"

lemma byte_items_simps [simp]:
  "byte_items [] = []"
  "byte_items ((c, r) # items) = replicate (len_utf8 c) r @ byte_items items"
  "byte_items (xs @ ys) = byte_items xs @ byte_items ys"
  by (simp_all add: byte_items_def)

lemma length_byte_items: "length (byte_items items) = utf8_len (map fst items)"
  by (induction items) auto

lemma line_of_simps [simp]: "line_text (line_of items) = map fst items" "line_origins (line_of items) = byte_items items"
  by (simp_all add: line_of_def)

lemma default_line_of: "default_line = line_of []"
  by (simp add: default_line_def line_of_def)

lemma push_char_line_of [simp]: "push_char (line_of items) c r = line_of (items @ [(c, r)])"
  by (simp add: push_char_def line_of_def)

lemma widen_replicate: "0 < n \<Longrightarrow> foldl widen x (replicate n r) = widen x r"
proof (induction n arbitrary: x)
  case (Suc n)
  have "widen (widen x r) r = widen x r" by (cases x; cases r) simp
  with Suc show ?case by (cases n) simp_all
qed simp

lemma merged_origin_replicate: "0 < n \<Longrightarrow> fst r < usize_max \<Longrightarrow> merged_origin (replicate n r) = r"
  by (cases r) (simp add: merged_origin_def widen_replicate)

lemma line_chars_line_of:
  assumes "\<forall>(c, r) \<in> set items. fst r < usize_max"
  shows "line_chars (line_of items) = items"
proof -
  have "map (\<lambda>(k, c). (c, merged_origin (take (len_utf8 c) (drop k (pre @ byte_items items)))))
      (char_indices_from (length pre) (map fst items)) = items" for pre
    using assms
  proof (induction items arbitrary: pre)
    case (Cons x items)
    obtain c r where x: "x = (c, r)" by (cases x)
    show ?case using Cons.IH [of "pre @ replicate (len_utf8 c) r"] Cons.prems x by (simp add: merged_origin_replicate)
  qed simp
  from this [of "[]"] show ?thesis by (simp add: line_chars_def char_indices_def)
qed

text \<open>What the origin of a clean character says: the source bytes in it spell that character,
  or they spell a run of blanks and the character is a space.\<close>

definition blank_source :: "uchar \<Rightarrow> bool" where
  "blank_source c \<longleftrightarrow> is_whitespace c \<or> is_control c"

definition traced :: "rtext \<Rightarrow> uchar \<times> byte_range \<Rightarrow> bool" where
  "traced source item \<longleftrightarrow> (\<exists>a m b. source = a @ m @ b \<and> m \<noteq> [] \<and>
     snd item = (utf8_len a, utf8_len a + utf8_len m) \<and>
     (m = [fst item] \<and> \<not> blank_source (fst item) \<or> fst item = 32 \<and> list_all blank_source m))"

fun squeeze_items :: "(uchar \<times> byte_range) list \<Rightarrow> byte_range option \<Rightarrow> (uchar \<times> byte_range) list" where
  "squeeze_items [] p = []"
| "squeeze_items ((c, r) # rest) p =
     (if is_horizontal_space c then
        squeeze_items rest (Some (case p of Some q \<Rightarrow> (min (fst q) (fst r), max (snd q) (snd r)) | None \<Rightarrow> r))
      else (case p of Some q \<Rightarrow> [(32, q)] | None \<Rightarrow> []) @ (c, r) # squeeze_items rest None)"

lemma squeeze_spaces_line_of: "squeeze_spaces xs p (line_of out) = line_of (out @ squeeze_items xs p)"
  by (induction xs p arbitrary: out rule: squeeze_items.induct) (simp_all split: option.split)

definition source_items :: "nat \<Rightarrow> rtext \<Rightarrow> (uchar \<times> byte_range) list" where
  "source_items i s = map (\<lambda>(k, c). (sanitize_inline_character c, (k, k + len_utf8 c))) (char_indices_from i s)"

lemma source_items_simps [simp]:
  "source_items i [] = []"
  "source_items i (c # s) = (sanitize_inline_character c, (i, i + len_utf8 c)) # source_items (i + len_utf8 c) s"
  "source_items i (s @ t) = source_items i s @ source_items (i + utf8_len s) t"
  by (simp_all add: source_items_def)

lemma fst_source_items: "map fst (source_items i s) = map sanitize_inline_character s"
  by (induction s arbitrary: i) simp_all

lemma sanitized_space:
  assumes "c \<noteq> 10" "c \<noteq> 13"
  shows "is_horizontal_space (sanitize_inline_character c) \<longleftrightarrow> blank_source c"
  using assms by (simp add: is_horizontal_space_def sanitize_inline_character_def blank_source_def is_whitespace_def)

lemma sanitize_solid: "\<not> blank_source c \<Longrightarrow> sanitize_inline_character c = c"
  by (simp add: sanitize_inline_character_def blank_source_def)

lemma squeeze_items_traced:
  assumes "source = a @ s @ b" "10 \<notin> set s" "13 \<notin> set s"
    and "p = None \<or> (\<exists>a' m. a = a' @ m \<and> m \<noteq> [] \<and> list_all blank_source m \<and> p = Some (utf8_len a', utf8_len a))"
  shows "\<forall>item \<in> set (squeeze_items (source_items (utf8_len a) s) p). traced source item"
  using assms
proof (induction s arbitrary: a p)
  case (Cons c s)
  have src: "source = (a @ [c]) @ s @ b" and c: "c \<noteq> 10" "c \<noteq> 13" using Cons.prems by auto
  have at: "utf8_len a + len_utf8 c = utf8_len (a @ [c])" by simp
  show ?case
  proof (cases "blank_source c")
    case True
    define q where "q = Some (case p of Some q \<Rightarrow> (min (fst q) (utf8_len a), max (snd q) (utf8_len a + len_utf8 c))
      | None \<Rightarrow> (utf8_len a, utf8_len a + len_utf8 c))"
    have "\<exists>a' m. a @ [c] = a' @ m \<and> m \<noteq> [] \<and> list_all blank_source m \<and> q = Some (utf8_len a', utf8_len (a @ [c]))"
      using Cons.prems(4)
    proof
      assume "p = None"
      then show ?thesis using True by (intro exI [of _ a] exI [of _ "[c]"]) (simp add: q_def)
    next
      assume "\<exists>a' m. a = a' @ m \<and> m \<noteq> [] \<and> list_all blank_source m \<and> p = Some (utf8_len a', utf8_len a)"
      then obtain a' m where "a = a' @ m" "m \<noteq> []" "list_all blank_source m" "p = Some (utf8_len a', utf8_len a)" by blast
      then show ?thesis using True by (intro exI [of _ a'] exI [of _ "m @ [c]"]) (simp add: q_def)
    qed
    moreover have "squeeze_items (source_items (utf8_len a) (c # s)) p = squeeze_items (source_items (utf8_len (a @ [c])) s) q"
      using True c by (cases p) (simp_all add: sanitized_space q_def)
    ultimately show ?thesis using Cons.IH [OF src, of q] Cons.prems(2,3) by simp
  next
    case False
    have "traced source (c, (utf8_len a, utf8_len a + len_utf8 c))"
      unfolding traced_def using Cons.prems(1) False by (intro exI [of _ a] exI [of _ "[c]"] exI [of _ "s @ b"]) simp
    moreover have "traced source (32, q)" if "p = Some q" for q
    proof -
      obtain a' m where "a = a' @ m" "m \<noteq> []" "list_all blank_source m" "q = (utf8_len a', utf8_len a)"
        using Cons.prems(4) \<open>p = Some q\<close> by blast
      then show ?thesis
        unfolding traced_def using Cons.prems(1) by (intro exI [of _ a'] exI [of _ m] exI [of _ "c # s @ b"]) simp
    qed
    ultimately show ?thesis
      using Cons.IH [OF src, of None] Cons.prems False c sanitized_space [OF c]
      by (auto simp: sanitize_solid split: option.split)
  qed
qed simp

text \<open>Cutting off the outer blanks and squeezing the inner ones, on the items of a source line.\<close>

lemma source_items_solid:
  "list_ex (\<lambda>x. P (fst x)) (source_items i s) = list_ex (\<lambda>c. P (sanitize_inline_character c)) s"
  "list_all (\<lambda>x. P (fst x)) (source_items i s) = list_all (\<lambda>c. P (sanitize_inline_character c)) s"
  "source_items i s = [] \<longleftrightarrow> s = []"
  "s \<noteq> [] \<Longrightarrow> fst (hd (source_items i s)) = sanitize_inline_character (hd s)"
  "s \<noteq> [] \<Longrightarrow> fst (last (source_items i s)) = sanitize_inline_character (last s)"
proof -
  show "list_ex (\<lambda>x. P (fst x)) (source_items i s) = list_ex (\<lambda>c. P (sanitize_inline_character c)) s"
    "list_all (\<lambda>x. P (fst x)) (source_items i s) = list_all (\<lambda>c. P (sanitize_inline_character c)) s"
    by (induction s arbitrary: i) simp_all
  show "source_items i s = [] \<longleftrightarrow> s = []" by (cases s) simp_all
  show "s \<noteq> [] \<Longrightarrow> fst (hd (source_items i s)) = sanitize_inline_character (hd s)" by (cases s) simp_all
  show "s \<noteq> [] \<Longrightarrow> fst (last (source_items i s)) = sanitize_inline_character (last s)"
    by (cases s rule: rev_cases) simp_all
qed

lemma traced_bound: "traced source (c, (i, j)) \<Longrightarrow> i < j \<and> j \<le> utf8_len source"
proof -
  assume "traced source (c, (i, j))"
  then obtain a m b where "source = a @ m @ b" "m \<noteq> []" "i = utf8_len a" "j = utf8_len a + utf8_len m"
    by (auto simp: traced_def)
  then show ?thesis using utf8_len_eq_0 [of m] by (simp del: utf8_len_eq_0)
qed

lemma repair_line_of:
  assumes tr: "\<forall>item \<in> set items. traced source item" and len: "utf8_len source < usize_max"
  shows "repair_spaced_ascii_word (line_of items) = line_of items \<or>
    repair_spaced_ascii_word (line_of items) = line_of (filter (\<lambda>x. fst x \<noteq> 32) items)"
proof -
  have "\<forall>(c, r) \<in> set items. fst r < usize_max"
    using tr len by (force dest: traced_bound)
  then have ch: "line_chars (line_of items) = items" by (rule line_chars_line_of)
  have "foldl (\<lambda>out (c, r). if c = 32 then out else push_char out c r) (line_of out) xs =
      line_of (out @ filter (\<lambda>x. fst x \<noteq> 32) xs)" for out xs
    by (induction xs arbitrary: out) auto
  from this [of "[]" items] show ?thesis by (simp add: repair_spaced_ascii_word_def ch default_line_of)
qed

lemma normalize_source_line:
  assumes src: "source = a @ s @ b" and nl: "10 \<notin> set s" "13 \<notin> set s" and len: "utf8_len source < usize_max"
  obtains items where "normalize_line (line_of (source_items (utf8_len a) s)) = line_of items"
    "\<forall>item \<in> set items. traced source item"
proof -
  have small: "\<forall>(c, r) \<in> set (source_items (utf8_len a) s). fst r < usize_max"
    using len src len_utf8_pos by (force simp: source_items_def dest: char_indices_from_bounds)
  then have ch: "line_chars (line_of (source_items (utf8_len a) s)) = source_items (utf8_len a) s"
    by (rule line_chars_line_of)
  let ?P = "\<lambda>x :: uchar \<times> byte_range. \<not> is_horizontal_space (fst x)"
  have P: "?P = (\<lambda>(c, _). \<not> is_horizontal_space c)" by (simp add: fun_eq_iff)
  show ?thesis
  proof (cases "list_ex (\<lambda>c. \<not> is_horizontal_space (sanitize_inline_character c)) s")
    case False
    then have "\<not> list_ex ?P (source_items (utf8_len a) s)"
      by (simp add: source_items_solid(1) [where P = "\<lambda>c. \<not> is_horizontal_space c"])
    then have "normalize_line (line_of (source_items (utf8_len a) s)) = line_of []"
      by (simp add: normalize_line_def ch position_def P default_line_of)
    then show ?thesis by (intro that [of "[]"]) simp_all
  next
    case True
    then obtain u m v where s: "s = u @ m @ v" "m \<noteq> []"
      "\<not> is_horizontal_space (sanitize_inline_character (hd m))" "\<not> is_horizontal_space (sanitize_inline_character (last m))"
      "list_all (\<lambda>c. \<not> \<not> is_horizontal_space (sanitize_inline_character c)) u"
      "list_all (\<lambda>c. \<not> \<not> is_horizontal_space (sanitize_inline_character c)) v"
      by (rule solid_part) auto
    define U M V where parts: "U = source_items (utf8_len a) u" "M = source_items (utf8_len (a @ u)) m"
      "V = source_items (utf8_len (a @ u @ m)) v"
    have items: "source_items (utf8_len a) s = U @ M @ V" by (simp add: s(1) parts add.assoc)
    have solid: "list_all (\<lambda>x. \<not> ?P x) U" "list_all (\<lambda>x. \<not> ?P x) V" "M \<noteq> []" "?P (hd M)" "?P (last M)"
      using s(2-6) by (simp_all add: parts source_items_solid(3-5) source_items_solid(2) [where P = is_horizontal_space])
    have tr: "\<forall>item \<in> set (squeeze_items M None). traced source item"
      unfolding parts(2) by (rule squeeze_items_traced) (use src s(1) nl in auto)
    have norm: "normalize_line (line_of (source_items (utf8_len a) s)) = repair_spaced_ascii_word (line_of (squeeze_items M None))"
      using position_part [where P = ?P, OF solid] squeeze_spaces_line_of [of M None "[]"] solid(3)
      unfolding normalize_line_def ch unfolding items P by (simp add: default_line_of)
    from repair_line_of [OF tr len] show ?thesis
    proof
      assume "repair_spaced_ascii_word (line_of (squeeze_items M None)) = line_of (squeeze_items M None)"
      with norm show ?thesis by (intro that [of "squeeze_items M None"] tr) simp
    next
      assume "repair_spaced_ascii_word (line_of (squeeze_items M None)) = line_of (filter (\<lambda>x. fst x \<noteq> 32) (squeeze_items M None))"
      with norm show ?thesis using tr by (intro that [of "filter (\<lambda>x. fst x \<noteq> 32) (squeeze_items M None)"]) simp_all
    qed
  qed
qed

lemma source_lines_segments:
  assumes "source = pre @ seg @ cs" "10 \<notin> set seg" "13 \<notin> set seg" "i = utf8_len (pre @ seg)"
    and "l \<in> set (source_lines_from i cs (line_of (source_items (utf8_len pre) seg)))"
  shows "\<exists>a s b. source = a @ s @ b \<and> 10 \<notin> set s \<and> 13 \<notin> set s \<and> l = line_of (source_items (utf8_len a) s)"
  using assms
proof (induction "length cs" arbitrary: cs pre seg i rule: less_induct)
  case less
  have here: ?case if "l = line_of (source_items (utf8_len pre) seg)" using that less.prems(1-3) by blast
  show ?case
  proof (cases cs)
    case Nil
    then show ?thesis using here less.prems(5) by simp
  next
    case (Cons c rest)
    have next_line: "?thesis" if "l \<in> set (source_lines_from (utf8_len p) r default_line)" "source = p @ r" "length r < length cs" for p r
      using less.hyps [of r p "[]"] that by (simp add: default_line_of)
    have i: "i + len_utf8 c = utf8_len (pre @ seg @ [c])" using less.prems(4) by simp
    consider (crlf) "c = 13" "rest \<noteq> []" "hd rest = 10" | (brk) "c = 13 \<or> c = 10 \<or> c = 12" "\<not> (c = 13 \<and> rest \<noteq> [] \<and> hd rest = 10)"
      | (char) "c \<noteq> 13" "c \<noteq> 10" "c \<noteq> 12" by blast
    then show ?thesis
    proof cases
      case crlf
      then have r: "rest = 10 # tl rest" by (metis list.collapse)
      have "l = line_of (source_items (utf8_len pre) seg) \<or>
          l \<in> set (source_lines_from (utf8_len (pre @ seg @ [c, 10])) (tl rest) default_line)"
        using less.prems(5) crlf by (auto simp: Cons less.prems(4) Let_def add.assoc)
      then show ?thesis using here next_line [of "pre @ seg @ [c, 10]" "tl rest"] less.prems(1) Cons r by auto
    next
      case brk
      then have "l = line_of (source_items (utf8_len pre) seg) \<or> l \<in> set (source_lines_from (utf8_len (pre @ seg @ [c])) rest default_line)"
        using less.prems(5) by (auto simp: Cons i [symmetric] Let_def simp del: utf8_len_simps)
      then show ?thesis using here next_line [of "pre @ seg @ [c]" rest] less.prems(1) Cons by auto
    next
      case char
      then have "l \<in> set (source_lines_from (utf8_len (pre @ seg @ [c])) rest (line_of (source_items (utf8_len pre) (seg @ [c]))))"
        using less.prems(4,5) by (simp add: Cons Let_def add.assoc)
      then show ?thesis using less.hyps [of rest pre "seg @ [c]"] less.prems(1-3) Cons char by simp
    qed
  qed
qed

definition traced_line :: "rtext \<Rightarrow> Line \<Rightarrow> bool" where
  "traced_line source l \<longleftrightarrow> (\<exists>items. l = line_of items \<and> (\<forall>item \<in> set items. traced source item))"

lemma normalized_source_lines_traced:
  assumes "utf8_len source < usize_max" "l \<in> set (map normalize_line (source_lines source))"
  shows "traced_line source l"
proof -
  obtain l' where l': "l = normalize_line l'" "l' \<in> set (source_lines source)" using assms(2) by auto
  obtain a s b where s: "source = a @ s @ b" "10 \<notin> set s" "13 \<notin> set s" "l' = line_of (source_items (utf8_len a) s)"
    using source_lines_segments [of source "[]" "[]" source 0 l'] l'(2) by (auto simp: source_lines_def default_line_of)
  show ?thesis
    by (rule normalize_source_line [OF s(1-3) assms(1)]) (auto simp: traced_line_def l'(1) s(4))
qed

lemma remove_repeated_traced:
  assumes "\<forall>l \<in> set ls. traced_line source l"
  shows "\<forall>l \<in> set (remove_repeated_headers_and_footers ls). traced_line source l"
proof -
  have cleared: "l\<lparr>line_text := [], line_origins := []\<rparr> = line_of []" for l :: Line by (simp add: line_of_def)
  have "traced_line source (line_of [])" by (auto simp: traced_line_def)
  then show ?thesis using assms
    by (auto simp: remove_repeated_headers_and_footers_def cleared dest: set_zip_leftD)
qed

lemma set_collapse_blanks: "set (collapse_blanks blank pb ls) \<subseteq> set ls"
  by (induction blank pb ls rule: collapse_blanks.induct) auto

lemma set_pop_blanks: "set (pop_blanks blank ls) \<subseteq> set ls"
  using set_dropWhileD by (fastforce simp: pop_blanks_def)

lemma join_lines_traced:
  assumes "\<forall>l \<in> set ls. traced_line source l"
  obtains items where "nt_text (join_lines ls) = map fst items" "nt_origins (join_lines ls) = byte_items items"
    "\<forall>item \<in> set items. item = (10, (0, 0)) \<or> traced source item"
proof -
  have "\<exists>items. join_with [10] (map line_text ls) = map fst items \<and>
      join_with [(0, 0)] (map line_origins ls) = byte_items items \<and>
      (\<forall>item \<in> set items. item = (10, (0, 0)) \<or> traced source item)"
    using assms
  proof (induction ls rule: induct_list012)
    case (3 l l' ls)
    obtain xs where l: "l = line_of xs" "\<forall>item \<in> set xs. traced source item" using "3.prems" by (auto simp: traced_line_def)
    obtain ys where "join_with [10] (map line_text (l' # ls)) = map fst ys"
      "join_with [(0, 0)] (map line_origins (l' # ls)) = byte_items ys"
      "\<forall>item \<in> set ys. item = (10, (0, 0)) \<or> traced source item" using "3.IH"(2) "3.prems" by auto
    then show ?case using l by (intro exI [of _ "xs @ (10, (0, 0)) # ys"]) auto
  qed (auto simp: traced_line_def intro: exI [of _ "[]"])
  then show ?thesis using that by (auto simp: join_lines_parts)
qed

lemma normalize_items:
  assumes "utf8_len source < usize_max"
  obtains items where "nt_text (normalize source) = map fst items" "nt_origins (normalize source) = byte_items items"
    "\<forall>item \<in> set items. item = (10, (0, 0)) \<or> traced source item"
proof -
  let ?ls = "remove_repeated_headers_and_footers (map normalize_line (source_lines source))"
  have "\<forall>l \<in> set ?ls. traced_line source l"
    by (rule remove_repeated_traced, rule ballI, rule normalized_source_lines_traced [OF assms])
  moreover have "set (collapse_blank_lines ?ls) \<subseteq> set ?ls"
    unfolding collapse_blank_lines_def by (rule order_trans [OF set_pop_blanks set_collapse_blanks])
  ultimately have "\<forall>l \<in> set (collapse_blank_lines ?ls). traced_line source l" by blast
  then show ?thesis by (rule join_lines_traced) (rule that [unfolded normalize_def])
qed

lemma widen_bounds:
  assumes "foldl widen (s, e) rs = (i, j)"
  shows "i \<le> s \<and> e \<le> j \<and> (\<forall>(a, b) \<in> set rs. i \<le> a \<and> b \<le> j) \<and> (i = s \<or> i \<in> fst ` set rs) \<and> (j = e \<or> j \<in> snd ` set rs)"
  using assms
proof (induction rs arbitrary: s e)
  case (Cons r rs)
  obtain a b where r: "r = (a, b)" by (cases r)
  with Cons.IH [of "min s a" "max e b"] Cons.prems show ?case by (auto simp: min_def max_def split: if_splits)
qed simp

text \<open>The span of one clean character is its origin.\<close>

lemma span_of_char:
  assumes clean: "nt_text nt = map fst (xs @ (c, r) # ys)" and org: "nt_origins nt = byte_items (xs @ (c, r) # ys)"
    and r: "r = (0, 0) \<or> fst r < snd r \<and> fst r < usize_max"
  shows "original_span_for_clean_range nt (utf8_len (map fst xs), utf8_len (map fst xs) + len_utf8 c) =
    (if r = (0, 0) then None else Some r)"
proof -
  have "take (len_utf8 c) (drop (utf8_len (map fst xs)) (nt_origins nt)) = replicate (len_utf8 c) r"
    by (simp add: org length_byte_items [symmetric])
  then show ?thesis
    using r by (cases r) (auto simp: original_span_for_clean_range_def org length_byte_items filter_replicate widen_replicate)
qed

lemma ballI2: "(\<And>x y. (x, y) \<in> S \<Longrightarrow> P x y) \<Longrightarrow> \<forall>(x, y) \<in> S. P x y"
  by auto

lemma char_item:
  assumes "(k, c) \<in> set (char_indices (map fst items))"
  obtains xs r ys where "items = xs @ (c, r) # ys" "k = utf8_len (map fst xs)"
proof -
  obtain x y where "map fst items = x @ c # y" "k = utf8_len x" using assms by (rule char_indices_split)
  then show ?thesis using that by (auto simp: map_eq_append_conv)
qed

lemma origin_of_item:
  assumes "nt_text nt = map fst items" "nt_origins nt = byte_items items"
    and "\<forall>item \<in> set items. item = (10, (0, 0)) \<or> traced source item" "utf8_len source < usize_max"
    and "(k, c) \<in> set (char_indices (nt_text nt))"
  obtains r where "(c, r) \<in> set items" "k < length (nt_origins nt)" "nt_origins nt ! k = r"
    "original_span_for_clean_range nt (k, k + len_utf8 c) = (if r = (0, 0) then None else Some r)"
proof -
  obtain xs r ys where x: "items = xs @ (c, r) # ys" "k = utf8_len (map fst xs)" using assms(1,5) char_item by metis
  have "r = (0, 0) \<or> traced source (c, (fst r, snd r))" using assms(3) x(1) by auto
  then have "r = (0, 0) \<or> fst r < snd r \<and> fst r < usize_max" using traced_bound assms(4) by fastforce
  then show ?thesis
    using span_of_char [of nt xs c r ys] x assms(1,2)
    by (intro that [of r]) (simp_all add: nth_append length_byte_items)
qed

lemma traced_slice:
  assumes "traced source (c, (i, j))"
  shows "c \<noteq> 10" "str_slice source i j = [c] \<or> c = 32 \<and> list_all blank_source (str_slice source i j)"
  using assms str_slice_part by (auto simp: traced_def blank_source_def is_whitespace_def)

lemma span_covers:
  assumes org: "nt_origins nt = byte_items items"
    and items: "\<forall>item \<in> set items. item = (10, (0, 0)) \<or> traced source item"
    and span: "original_span_for_clean_range nt (a, b) = Some (i, j)"
  shows "i < j" "j \<le> utf8_len source"
    and "a \<le> k \<Longrightarrow> k < b \<Longrightarrow> fst (nt_origins nt ! k) < snd (nt_origins nt ! k) \<Longrightarrow>
      i \<le> fst (nt_origins nt ! k) \<and> snd (nt_origins nt ! k) \<le> j"
proof -
  define rs where "rs = filter (\<lambda>(a, b). a < b) (take (b - a) (drop a (nt_origins nt)))"
  have w: "foldl widen (usize_max, 0) rs = (i, j)" "i \<noteq> usize_max" "b \<le> length (nt_origins nt)"
    using span by (auto simp: original_span_for_clean_range_def rs_def Let_def split: if_splits prod.splits)
  note bounds = widen_bounds [OF w(1)]
  have rs: "s < e \<and> e \<le> utf8_len source" if r: "(s, e) \<in> set rs" for s e
  proof -
    have "(s, e) \<in> set (byte_items items)" "s < e"
      using r by (auto simp: rs_def org dest!: in_set_takeD in_set_dropD)
    then obtain c where "(c, (s, e)) \<in> set items" by (auto simp: byte_items_def)
    then show ?thesis using items traced_bound \<open>s < e\<close> by fastforce
  qed
  obtain e where e: "(i, e) \<in> set rs" using bounds w(2) by auto
  then show "i < j" using rs bounds by fastforce
  then obtain s where "(s, j) \<in> set rs" using bounds by auto
  then show "j \<le> utf8_len source" using rs by blast
  assume k: "a \<le> k" "k < b" "fst (nt_origins nt ! k) < snd (nt_origins nt ! k)"
  then have "nt_origins nt ! k = take (b - a) (drop a (nt_origins nt)) ! (k - a)" "k - a < length (take (b - a) (drop a (nt_origins nt)))"
    using w(3) by auto
  then have "nt_origins nt ! k \<in> set (take (b - a) (drop a (nt_origins nt)))" by (metis nth_mem)
  then have "nt_origins nt ! k \<in> set rs" using k(3) by (simp add: rs_def case_prod_unfold)
  then show "i \<le> fst (nt_origins nt ! k) \<and> snd (nt_origins nt ! k) \<le> j" using bounds by auto
qed

text \<open>C10: the clean text is as long as its table of origins, and every character of it other
  than a line break can be traced back: the source bytes at its origin spell exactly that
  character, or the character is a space that stands for a run of blanks and control
  characters.  The span of a range of clean bytes is a non-empty range of the source that
  covers the origin of every character in the range.\<close>

theorem clean_text_traces_to_source:
  assumes "utf8_len source < usize_max"
  shows "length (nt_origins (normalize source)) = utf8_len (nt_text (normalize source)) \<and>
    (\<forall>(k, c) \<in> set (char_indices (nt_text (normalize source))).
       case original_span_for_clean_range (normalize source) (k, k + len_utf8 c) of
         None \<Rightarrow> c = 10
       | Some (i, j) \<Rightarrow> i < j \<and> j \<le> utf8_len source \<and> c \<noteq> 10 \<and>
           (str_slice source i j = [c] \<or> c = 32 \<and> list_all blank_source (str_slice source i j))) \<and>
    (\<forall>a b i j. original_span_for_clean_range (normalize source) (a, b) = Some (i, j) \<longrightarrow>
       i < j \<and> j \<le> utf8_len source \<and>
       (\<forall>(k, c) \<in> set (char_indices (nt_text (normalize source))). a \<le> k \<and> k + len_utf8 c \<le> b \<and> c \<noteq> 10 \<longrightarrow>
          (\<exists>i' j'. original_span_for_clean_range (normalize source) (k, k + len_utf8 c) = Some (i', j') \<and> i \<le> i' \<and> j' \<le> j)))"
proof -
  obtain items where items: "nt_text (normalize source) = map fst items" "nt_origins (normalize source) = byte_items items"
    "\<forall>item \<in> set items. item = (10, (0, 0)) \<or> traced source item" by (rule normalize_items [OF assms])
  have char: "case original_span_for_clean_range (normalize source) (k, k + len_utf8 c) of
         None \<Rightarrow> c = 10
       | Some (i, j) \<Rightarrow> i < j \<and> j \<le> utf8_len source \<and> c \<noteq> 10 \<and>
           (str_slice source i j = [c] \<or> c = 32 \<and> list_all blank_source (str_slice source i j))"
    if kc: "(k, c) \<in> set (char_indices (nt_text (normalize source)))" for k c
  proof -
    obtain i j where r: "(c, (i, j)) \<in> set items"
      "original_span_for_clean_range (normalize source) (k, k + len_utf8 c) = (if (i, j) = (0, 0) then None else Some (i, j))"
      by (rule origin_of_item [OF items assms kc]) auto
    then have "(i, j) = (0, 0) \<and> c = 10 \<or> traced source (c, (i, j))" using items(3) by fastforce
    then show ?thesis
    proof
      assume tr: "traced source (c, (i, j))"
      then have "(i, j) \<noteq> (0, 0)" using traced_bound by fastforce
      then show ?thesis using r(2) traced_bound [OF tr] traced_slice [OF tr] by simp
    qed (use r(2) in simp)
  qed
  have cover: "\<exists>i' j'. original_span_for_clean_range (normalize source) (k, k + len_utf8 c) = Some (i', j') \<and> i \<le> i' \<and> j' \<le> j"
    if kc: "(k, c) \<in> set (char_indices (nt_text (normalize source)))" and k: "a \<le> k" "k + len_utf8 c \<le> b" "c \<noteq> 10"
      and span: "original_span_for_clean_range (normalize source) (a, b) = Some (i, j)" for k c a b i j
  proof -
    obtain i' j' where r: "nt_origins (normalize source) ! k = (i', j')"
      "original_span_for_clean_range (normalize source) (k, k + len_utf8 c) = Some (i', j')" "i' < j'"
      by (rule origin_of_item [OF items assms kc])
        (use char [OF kc] k(3) in \<open>auto split: option.splits if_splits prod.splits\<close>)
    have "k < b" using k(2) len_utf8_pos [of c] by linarith
    then show ?thesis using span_covers(3) [OF items(2,3) span k(1)] r by auto
  qed
  show ?thesis
  proof (intro conjI allI impI ballI2)
    show "length (nt_origins (normalize source)) = utf8_len (nt_text (normalize source))"
      by (simp add: items(1,2) length_byte_items)
  qed (assumption | erule conjE | erule span_covers(1) [OF items(2,3)] | erule span_covers(2) [OF items(2,3)] |
       erule char | erule (3) cover)+
qed

lemmas normalize_eval =
  normalize_def source_lines_def default_line_def push_char_def sanitize_inline_character_def is_control_def len_utf8_def
  normalize_line_def line_chars_def char_indices_def merged_origin_def usize_max_def position_def rposition_def
  is_horizontal_space_def is_whitespace_def repair_spaced_ascii_word_def is_spaced_word_def
  remove_repeated_headers_and_footers_def repeated_short_line_flags_def short_line_counts_def is_blank_def
  is_page_number_line_def to_ascii_lowercase_def starts_with_def collapse_blank_lines_def pop_blanks_def
  join_lines_def join_step_def

theorem clean_text_traces_to_source_witness:
  "utf8_len (lit ''Ada  Li'') < usize_max \<and>
   length (nt_origins (normalize (lit ''Ada  Li''))) = utf8_len (nt_text (normalize (lit ''Ada  Li''))) \<and>
   original_span_for_clean_range (normalize (lit ''Ada  Li'')) (2, 5) = Some (2, 6)"
proof -
  have len: "utf8_len (lit ''Ada  Li'') < usize_max" by (simp add: len_utf8_def usize_max_def)
  have "normalize (lit ''Ada  Li'') = \<lparr>nt_text = lit ''Ada Li'', nt_origins = [(0, 1), (1, 2), (2, 3), (3, 5), (5, 6), (6, 7)]\<rparr>"
    by (simp add: normalize_eval)
  then have span: "original_span_for_clean_range (normalize (lit ''Ada  Li'')) (2, 5) = Some (2, 6)"
    by (simp add: original_span_for_clean_range_def usize_max_def)
  show ?thesis using len span clean_text_traces_to_source [OF len] by blast
qed

section \<open>Normalising twice\<close>

text \<open>Squeezing after the first character.\<close>

fun squeezed :: "rtext \<Rightarrow> bool \<Rightarrow> rtext" where
  "squeezed [] p = []"
| "squeezed (c # s) p =
     (if is_horizontal_space c then squeezed s True else (if p then [32, c] else [c]) @ squeezed s False)"

lemma is_horizontal_space_32 [simp]: "is_horizontal_space 32"
  by (simp add: is_horizontal_space_def is_whitespace_def)

lemma squeeze_squeezed: "out \<noteq> [] \<Longrightarrow> squeeze_text_spaces s p out = out @ squeezed s p"
  by (induction s p arbitrary: out rule: squeezed.induct) simp_all

lemma squeezed_idem: "squeezed (squeezed s p) False = squeezed s p"
  by (induction s p rule: squeezed.induct) simp_all

lemma squeezed_solid: "list_all (\<lambda>c. \<not> is_horizontal_space c) s \<Longrightarrow> squeezed s False = s"
  by (induction s) simp_all

lemma set_squeezed: "set (squeezed s p) \<subseteq> {32} \<union> {c \<in> set s. \<not> is_horizontal_space c}"
  by (induction s p rule: squeezed.induct) auto

lemma last_squeezed:
  "s \<noteq> [] \<Longrightarrow> \<not> is_horizontal_space (last s) \<Longrightarrow> squeezed s p \<noteq> [] \<and> \<not> is_horizontal_space (last (squeezed s p))"
  by (induction s p rule: squeezed.induct) (auto split: if_splits)

text \<open>A clean line: normalising it changes nothing, and it has no line break or control character.\<close>

definition clean_line :: "rtext \<Rightarrow> bool" where
  "clean_line l \<longleftrightarrow> normalize_text_line l = l \<and> (\<forall>c \<in> set l. c = 32 \<or> \<not> blank_source c)"

lemma clean_line_Nil: "clean_line []"
  by (simp add: clean_line_def normalize_text_line_blank)

lemma clean_lineI:
  assumes "\<not> is_horizontal_space c" "squeezed s False = s" "s = [] \<or> \<not> is_horizontal_space (last s)"
    and "\<not> is_spaced_word (c # s)" "\<forall>d \<in> set (c # s). d = 32 \<or> \<not> blank_source d"
  shows "clean_line (c # s)"
proof -
  have "normalize_text_line ([] @ (c # s) @ []) = repair_spaced_ascii_word_text (squeeze_text_spaces (c # s) False [])"
    by (rule normalize_text_line_part) (use assms(1,3) in auto)
  then show ?thesis using assms by (simp add: clean_line_def squeeze_squeezed repair_spaced_ascii_word_text_def)
qed

lemma split_on_absent: "d \<notin> set s \<Longrightarrow> split_on d s = [s]"
  by (induction s) auto

definition inline_ok :: "uchar \<Rightarrow> bool" where
  "inline_ok c \<longleftrightarrow> c = 32 \<or> is_horizontal_space c \<or> \<not> blank_source c"

lemma clean_normalize_text_line:
  assumes ok: "list_all inline_ok l"
  shows "clean_line (normalize_text_line l)"
proof (cases "list_ex (\<lambda>c. \<not> is_horizontal_space c) l")
  case False
  then have "list_all is_horizontal_space l" by (auto simp: list_ex_iff list_all_iff)
  then show ?thesis by (simp add: normalize_text_line_blank clean_line_Nil)
next
  case True
  then obtain a m b where l: "l = a @ m @ b" "m \<noteq> []" "\<not> is_horizontal_space (hd m)" "\<not> is_horizontal_space (last m)"
    "list_all (\<lambda>c. \<not> (\<not> is_horizontal_space c)) a" "list_all (\<lambda>c. \<not> (\<not> is_horizontal_space c)) b"
    by (rule solid_part) auto
  obtain c s where m: "m = c # s" using l(2) by (cases m) auto
  define t where "t = squeezed s False"
  have c: "\<not> is_horizontal_space c" using l(3) m by simp
  have n: "normalize_text_line l = repair_spaced_ascii_word_text (c # t)"
    using normalize_text_line_part [OF l(5,6,2,3,4)] c by (simp add: l(1) m squeeze_squeezed t_def)
  have chars: "\<forall>d \<in> set (c # t). d = 32 \<or> \<not> is_horizontal_space d \<and> \<not> blank_source d"
    using ok c set_squeezed [of s False] is_horizontal_space_32
    by (auto simp: l(1) m t_def list_all_iff inline_ok_def)
  show ?thesis
  proof (cases "is_spaced_word (c # t)")
    case False
    have "t = [] \<or> \<not> is_horizontal_space (last t)" using l(4) last_squeezed [of s False] m by (cases s) (auto simp: t_def)
    then have "clean_line (c # t)"
      using c chars False by (intro clean_lineI) (auto simp: t_def squeezed_idem)
    then show ?thesis by (simp add: n repair_spaced_ascii_word_text_def False)
  next
    case True
    define u where "u = filter (\<lambda>d. d \<noteq> 32) t"
    have c32: "c \<noteq> 32" using c is_horizontal_space_32 by metis
    have u: "list_all (\<lambda>d. \<not> is_horizontal_space d) u" using chars by (auto simp: u_def list_all_iff)
    have "\<not> is_spaced_word (c # u)" using c32 split_on_absent [of 32 "c # u"] by (simp add: is_spaced_word_def u_def)
    moreover have "u = [] \<or> \<not> is_horizontal_space (last u)" using u by (auto simp: list_all_iff)
    ultimately have "clean_line (c # u)"
      using c u chars c32 by (intro clean_lineI) (auto simp: squeezed_solid u_def)
    then show ?thesis using c32 by (simp add: n repair_spaced_ascii_word_text_def True u_def)
  qed
qed

lemma blank_break: "blank_source 10" "blank_source 12" "blank_source 13"
  by (simp_all add: blank_source_def is_whitespace_def)

lemma source_text_lines_clean:
  assumes "\<forall>c \<in> set l. c = 32 \<or> \<not> blank_source c"
  shows "source_text_lines_from (l @ rest) acc = source_text_lines_from rest (acc @ l)"
  using assms
proof (induction l arbitrary: acc)
  case (Cons c l)
  have "c \<noteq> 10" "c \<noteq> 12" "c \<noteq> 13" using Cons.prems blank_break by auto
  moreover have "sanitize_inline_character c = c"
    using Cons.prems by (auto simp: sanitize_inline_character_def blank_source_def)
  ultimately show ?case using Cons by simp
qed simp

lemma source_text_lines_join:
  assumes "\<forall>l \<in> set ls. clean_line l" "ls \<noteq> []"
  shows "source_text_lines (join_with [10] ls) = ls"
proof -
  have "source_text_lines_from (join_with [10] ls) [] = ls"
    using assms
  proof (induction ls rule: induct_list012)
    case (2 l)
    then show ?case using source_text_lines_clean [of l "[]" "[]"] by (simp add: clean_line_def)
  next
    case (3 l l' ls)
    then show ?case using source_text_lines_clean [of l "10 # join_with [10] (l' # ls)" "[]"] by (simp add: clean_line_def)
  qed simp
  then show ?thesis by (simp add: source_text_lines_def)
qed

lemma source_text_lines_ok:
  "list_all inline_ok acc \<Longrightarrow> list_all (list_all inline_ok) (source_text_lines_from cs acc)"
proof (induction cs acc rule: source_text_lines_from.induct)
  case (2 d cs acc)
  have "d \<noteq> 13 \<Longrightarrow> d \<noteq> 10 \<Longrightarrow> inline_ok (sanitize_inline_character d)"
    by (simp add: sanitize_inline_character_def blank_source_def is_horizontal_space_def inline_ok_def)
  then show ?case using 2 by simp
qed simp

text \<open>Which lines are removed: page numbers, and every copy of a short line that occurs twice.\<close>

definition removed :: "rtext list \<Rightarrow> rtext \<Rightarrow> bool" where
  "removed ls l \<longleftrightarrow> is_page_number_line l \<or> l \<noteq> [] \<and> utf8_len l \<le> 80 \<and> 1 < count_list ls l"

lemma short_line_counts_count:
  "short_line_counts ls l = (if l = [] \<or> 80 < utf8_len l \<or> l \<notin> set ls then None else Some (count_list ls l))"
proof (induction ls rule: rev_induct)
  case (snoc x ls)
  then show ?case unfolding short_line_counts_def by (auto simp: count_list_append count_list_0_iff)
qed (simp add: short_line_counts_def)

lemma remove_repeated_removed: "remove_repeated_text_headers_and_footers ls = map (\<lambda>l. if removed ls l then [] else l) ls"
proof -
  have flags: "repeated_short_line_flags ls = map (\<lambda>l. l \<noteq> [] \<and> utf8_len l \<le> 80 \<and> 1 < count_list ls l) ls"
    by (auto simp: repeated_short_line_flags_def Let_def short_line_counts_count)
  show ?thesis unfolding remove_repeated_text_headers_and_footers_def flags
    by (rule nth_equalityI) (auto simp: removed_def)
qed

lemma count_list_cleared: "l \<noteq> [] \<Longrightarrow> count_list (map (\<lambda>l. if R l then [] else l) ls) l \<le> count_list ls l"
  by (induction ls) auto

lemma count_list_collapse: "count_list (collapse_blanks blank pb ls) l \<le> count_list ls l"
  by (induction ls arbitrary: pb) (auto intro: le_SucI)

lemma pop_blanks_prefix: "\<exists>bs. ls = pop_blanks blank ls @ bs"
  unfolding pop_blanks_def by (metis rev_append rev_rev_ident takeWhile_dropWhile_id)

lemma collapse_blanks_append:
  "collapse_blanks blank pb (xs @ ys) =
     collapse_blanks blank pb xs @ collapse_blanks blank (if xs = [] then pb else blank (last xs)) ys"
  by (induction xs arbitrary: pb) auto

lemma length_collapse_blanks: "length (collapse_blanks blank pb ls) \<le> length ls"
  by (induction ls arbitrary: pb) (auto intro: le_SucI)

lemma collapse_blanks_idem: "collapse_blanks blank pb (collapse_blanks blank pb ls) = collapse_blanks blank pb ls"
  by (induction ls arbitrary: pb) auto

lemma collapse_idem: "collapse_blank_text_lines (collapse_blank_text_lines ls) = collapse_blank_text_lines ls"
proof -
  let ?b = "\<lambda>l :: rtext. l = []"
  define ys where "ys = pop_blanks ?b (collapse_blanks ?b True ls)"
  obtain bs where bs: "collapse_blanks ?b True ls = ys @ bs" using pop_blanks_prefix ys_def by blast
  have "collapse_blanks ?b True (ys @ bs) = ys @ bs" using collapse_blanks_idem [of ?b True ls] bs by simp
  then have eq: "collapse_blanks ?b True ys @ collapse_blanks ?b (if ys = [] then True else ?b (last ys)) bs = ys @ bs"
    by (simp only: collapse_blanks_append)
  have "length (collapse_blanks ?b True ys) = length ys"
    using arg_cong [OF eq, of length] length_collapse_blanks [of ?b True ys]
      length_collapse_blanks [of ?b "if ys = [] then True else ?b (last ys)" bs] unfolding length_append by linarith
  then have "collapse_blanks ?b True ys = ys" using eq by (metis append_eq_append_conv)
  moreover have "pop_blanks ?b ys = ys" by (simp add: ys_def pop_blanks_def)
  ultimately show ?thesis by (simp add: collapse_blank_text_lines_def ys_def)
qed

text \<open>C38: normalising a text that is already normalised changes nothing: the second pass
  finds no blank to squeeze, no page number and no repeated short line to remove.\<close>

theorem normalisation_is_idempotent:
  "normalize_text_only (normalize_text_only source) = normalize_text_only source"
proof -
  define ls where "ls = map normalize_text_line (source_text_lines source)"
  define ks where "ks = collapse_blank_text_lines (remove_repeated_text_headers_and_footers ls)"
  have out: "normalize_text_only source = join_with [10] ks" by (simp add: normalize_text_only_def ls_def ks_def)
  have sub: "l \<in> set ks \<Longrightarrow> l = [] \<or> l \<in> set ls \<and> \<not> removed ls l" for l
    using set_collapse_blanks set_pop_blanks unfolding ks_def collapse_blank_text_lines_def remove_repeated_removed
    by (fastforce split: if_splits)
  have clean: "\<forall>l \<in> set ks. clean_line l"
  proof
    fix l assume "l \<in> set ks"
    then show "clean_line l"
      using sub [of l] source_text_lines_ok [of "[]" source] clean_normalize_text_line clean_line_Nil
      by (auto simp: ls_def source_text_lines_def list_all_iff)
  qed
  have count: "l \<noteq> [] \<Longrightarrow> count_list ks l \<le> count_list ls l" for l
  proof -
    assume "l \<noteq> []"
    obtain bs where "collapse_blanks (\<lambda>l. l = []) True (remove_repeated_text_headers_and_footers ls) = ks @ bs"
      using pop_blanks_prefix unfolding ks_def collapse_blank_text_lines_def by blast
    then have "count_list ks l \<le> count_list (remove_repeated_text_headers_and_footers ls) l"
      using count_list_collapse [of "\<lambda>l. l = []" True "remove_repeated_text_headers_and_footers ls" l]
      by (simp add: count_list_append)
    also have "\<dots> \<le> count_list ls l" unfolding remove_repeated_removed by (rule count_list_cleared [OF \<open>l \<noteq> []\<close>])
    finally show ?thesis .
  qed
  have "remove_repeated_text_headers_and_footers ks = ks"
    unfolding remove_repeated_removed
  proof (rule map_idI)
    fix l assume "l \<in> set ks"
    then show "(if removed ks l then [] else l) = l" using sub [of l] count [of l] by (auto simp: removed_def)
  qed
  moreover have "map normalize_text_line ks = ks" using clean by (auto simp: clean_line_def intro: map_idI)
  moreover have "collapse_blank_text_lines ks = ks" by (simp add: ks_def collapse_idem)
  ultimately show ?thesis
    using source_text_lines_join [OF clean] out
    by (cases "ks = []") (simp_all add: normalize_text_only_def source_text_lines_def remove_repeated_removed
        normalize_text_line_blank collapse_blank_text_lines_def pop_blanks_def)
qed

end
