(* ===== verification/Sectionizer.thy ===== *)
theory Sectionizer
  imports RustStr
begin

text \<open>
  The sectioniser (\<open>crates/sectionizer/src/lib.rs\<close>): clean text is cut at its headings, or,
  when it has none, into chunks of bounded size along its paragraphs.  A chunk carries its
  text and the range of characters it stands for.  The properties say that the ranges are
  increasing and disjoint, that nothing but blanks is lost between them, that a section is
  exactly the text of its range and that a fallback chunk is never larger than the limit.
\<close>

section \<open>Lines and headings\<close>

datatype SectionType =
  Profile | Contact | Education | Experience | Project | Skill | Certificate | Other string

record SectionChunk =
  section_type :: SectionType
  order_no :: nat
  chunk_text :: rtext
  char_start :: nat
  char_end :: nat
  confidence_bits :: nat

record Sectionizer =
  max_chars :: nat

definition default_sectionizer :: Sectionizer where
  "default_sectionizer = \<lparr>max_chars = 1200\<rparr>"

definition with_max_chars :: "nat \<Rightarrow> Sectionizer" where
  "with_max_chars n = \<lparr>max_chars = max n 1\<rparr>"

definition as_u32 :: "nat \<Rightarrow> nat" where
  "as_u32 n = n mod 2 ^ 32"

record IndexedLine =
  il_text :: rtext
  il_start :: nat
  il_end :: nat
  il_char_start :: nat
  il_char_end :: nat

fun indexed_lines_loop :: "rtext \<Rightarrow> rtext list \<Rightarrow> nat \<Rightarrow> nat \<Rightarrow> IndexedLine list \<times> nat \<times> nat" where
  "indexed_lines_loop s [] start cstart = ([], start, cstart)"
| "indexed_lines_loop s (line # rest) start cstart =
     (let raw_end = start + utf8_len line;
          stop = raw_end - (if line \<noteq> [] \<and> last line = 10 then 1 else 0);
          (ls, start', cstart') = indexed_lines_loop s rest raw_end (cstart + length line)
      in (\<lparr>il_text = str_slice s start stop, il_start = start, il_end = stop, il_char_start = cstart,
           il_char_end = cstart + length (str_slice s start stop)\<rparr> # ls, start', cstart'))"

definition indexed_lines :: "rtext \<Rightarrow> IndexedLine list" where
  "indexed_lines s =
     (let (ls, start, cstart) = indexed_lines_loop s (split_inclusive 10 s) 0 0
      in if start < utf8_len s \<or> s = []
         then ls @ [\<lparr>il_text = str_slice s start (utf8_len s), il_start = start, il_end = utf8_len s,
           il_char_start = cstart, il_char_end = cstart + length (str_slice s start (utf8_len s))\<rparr>]
         else ls)"

definition is_ascii_punctuation :: "uchar \<Rightarrow> bool" where
  "is_ascii_punctuation c \<longleftrightarrow>
     33 \<le> c \<and> c \<le> 47 \<or> 58 \<le> c \<and> c \<le> 64 \<or> 91 \<le> c \<and> c \<le> 96 \<or> 123 \<le> c \<and> c \<le> 126"

definition trim_matches :: "(uchar \<Rightarrow> bool) \<Rightarrow> rtext \<Rightarrow> rtext" where
  "trim_matches P s = rev (dropWhile P (rev (dropWhile P s)))"

definition normalize_heading :: "rtext \<Rightarrow> rtext" where
  "normalize_heading s = to_ascii_lowercase
     (trim_matches (\<lambda>c. is_ascii_punctuation c \<or> c \<in> {0xFF1A, 0xFF0C, 0x3002, 0x3001, 0xFF1B, 32, 9}) (trim s))"

definition contains_any :: "rtext \<Rightarrow> rtext list \<Rightarrow> bool" where
  "contains_any s needles \<longleftrightarrow> list_ex (contains s) needles"

definition detect_heading :: "rtext \<Rightarrow> SectionType option" where
  "detect_heading s =
     (if 124 \<in> set s then None
      else let normalized = normalize_heading s in
        if normalized = [] \<or> 40 < utf8_len normalized then None
        else if contains_any normalized [lit ''contact'', [0x8054, 0x7CFB, 0x65B9, 0x5F0F], [0x8054, 0x7CFB]]
        then Some Contact
        else if contains_any normalized
          [lit ''profile'', lit ''summary'', lit ''self'', [0x81EA, 0x6211, 0x8BC4, 0x4EF7],
           [0x4E2A, 0x4EBA, 0x7B80, 0x4ECB], [0x6C42, 0x804C, 0x610F, 0x5411]]
        then Some Profile
        else if contains_any normalized [lit ''education'', [0x6559, 0x80B2], [0x5B66, 0x6821], [0x5B66, 0x5386]]
        then Some Education
        else if contains_any normalized [lit ''project'', [0x9879, 0x76EE]] then Some Project
        else if contains_any normalized
          [lit ''experience'', [0x5DE5, 0x4F5C, 0x7ECF, 0x5386], [0x5DE5, 0x4F5C, 0x7ECF, 0x9A8C], [0x7ECF, 0x5386]]
        then Some Experience
        else if contains_any normalized [lit ''skill'', lit ''skills'', [0x6280, 0x80FD], [0x6280, 0x672F, 0x6808]]
        then Some Skill
        else if contains_any normalized
          [lit ''certificate'', lit ''certification'', [0x8BC1, 0x4E66], [0x8BA4, 0x8BC1], [0x8D44, 0x683C]]
        then Some Certificate
        else None)"

section \<open>Paragraphs and fallback chunks\<close>

record Paragraph =
  p_text :: rtext
  p_start :: nat
  p_char_start :: nat
  p_char_end :: nat

definition char_len :: "Paragraph \<Rightarrow> nat" where
  "char_len p = p_char_end p - p_char_start p"

fun paragraphs_loop :: "rtext \<Rightarrow> rtext list \<Rightarrow> nat \<Rightarrow> Paragraph list" where
  "paragraphs_loop s [] cursor = []"
| "paragraphs_loop s (block # rest) cursor =
     (let block_end = cursor + utf8_len block;
          solid = (\<lambda>(_, c). \<not> is_whitespace c)
      in (case find solid (char_indices block) of
            None \<Rightarrow> []
          | Some (offset, _) \<Rightarrow>
              let start = cursor + offset;
                  stop = (case find solid (rev (char_indices block)) of
                            Some (k, c) \<Rightarrow> cursor + k + len_utf8 c
                          | None \<Rightarrow> block_end)
              in [\<lparr>p_text = str_slice s start stop, p_start = start,
                   p_char_start = length (str_slice s 0 start), p_char_end = length (str_slice s 0 stop)\<rparr>])
         @ paragraphs_loop s rest (block_end + 2))"

definition paragraphs :: "rtext \<Rightarrow> Paragraph list" where
  "paragraphs s = paragraphs_loop s (split_str [10, 10] s) 0"

fun split_loop :: "Paragraph \<Rightarrow> nat \<Rightarrow> (nat \<times> uchar) list \<Rightarrow> nat \<Rightarrow> nat \<Rightarrow> nat \<Rightarrow> nat \<Rightarrow> Paragraph list" where
  "split_loop p limit [] byte_start cstart chars_in_piece last_byte_end =
     (if 0 < chars_in_piece
      then [\<lparr>p_text = str_slice (p_text p) (byte_start - p_start p) (last_byte_end - p_start p),
             p_start = byte_start, p_char_start = cstart, p_char_end = cstart + chars_in_piece\<rparr>]
      else [])"
| "split_loop p limit ((relative_start, c) # rest) byte_start cstart chars_in_piece last_byte_end =
     (let absolute_start = p_start p + relative_start in
      if chars_in_piece = limit
      then \<lparr>p_text = str_slice (p_text p) (byte_start - p_start p) (last_byte_end - p_start p),
             p_start = byte_start, p_char_start = cstart, p_char_end = cstart + chars_in_piece\<rparr>
           # split_loop p limit rest absolute_start (cstart + chars_in_piece) 1 (absolute_start + len_utf8 c)
      else split_loop p limit rest byte_start cstart (chars_in_piece + 1) (absolute_start + len_utf8 c))"

definition split_paragraph_by_chars :: "Paragraph \<Rightarrow> nat \<Rightarrow> Paragraph list" where
  "split_paragraph_by_chars p limit =
     split_loop p limit (char_indices (p_text p)) (p_start p) (p_char_start p) 0 (p_start p)"

definition push_fallback_chunk :: "SectionChunk list \<Rightarrow> nat \<Rightarrow> nat \<Rightarrow> rtext \<Rightarrow> SectionChunk list" where
  "push_fallback_chunk ss cs ce t =
     ss @ [\<lparr>section_type = Other ''chunk'', order_no = as_u32 (length ss), chunk_text = t,
            char_start = cs, char_end = ce, confidence_bits = 0x3EE66666\<rparr>]"

record Fallback =
  fb_sections :: "SectionChunk list"
  fb_start :: "nat option"
  fb_end :: nat
  fb_text :: rtext
  fb_chars :: nat

definition flush_chunk :: "Fallback \<Rightarrow> Fallback" where
  "flush_chunk f = f\<lparr>fb_sections := push_fallback_chunk (fb_sections f) (case fb_start f of Some s \<Rightarrow> s | None \<Rightarrow> 0)
     (fb_end f) (fb_text f), fb_start := None, fb_text := [], fb_chars := 0\<rparr>"

definition fallback_step :: "Sectionizer \<Rightarrow> Fallback \<Rightarrow> Paragraph \<Rightarrow> Fallback" where
  "fallback_step z f p =
     (if max_chars z < char_len p then
        let f1 = (if fb_text f \<noteq> [] then flush_chunk f else f)
        in f1\<lparr>fb_sections := foldl (\<lambda>ss piece. push_fallback_chunk ss (p_char_start piece) (p_char_end piece) (p_text piece))
             (fb_sections f1) (split_paragraph_by_chars p (max_chars z))\<rparr>
      else
        let would_chars = fb_chars f + (if fb_text f \<noteq> [] then 1 else 0) * 2 + char_len p;
            f1 = (if fb_text f \<noteq> [] \<and> max_chars z < would_chars then flush_chunk f else f);
            f2 = (if fb_text f1 = [] then f1\<lparr>fb_start := Some (p_char_start p)\<rparr>
                  else f1\<lparr>fb_text := fb_text f1 @ [10, 10], fb_chars := fb_chars f1 + 2\<rparr>)
        in f2\<lparr>fb_text := fb_text f2 @ p_text p, fb_chars := fb_chars f2 + char_len p, fb_end := p_char_end p\<rparr>)"

definition fallback_chunks :: "Sectionizer \<Rightarrow> rtext \<Rightarrow> SectionChunk list" where
  "fallback_chunks z clean_text =
     (let f = foldl (fallback_step z)
            \<lparr>fb_sections = [], fb_start = None, fb_end = 0, fb_text = [], fb_chars = 0\<rparr> (paragraphs clean_text)
      in if fb_text f \<noteq> []
         then push_fallback_chunk (fb_sections f) (case fb_start f of Some s \<Rightarrow> s | None \<Rightarrow> 0) (fb_end f) (fb_text f)
         else fb_sections f)"

section \<open>Sections\<close>

definition heading_positions :: "IndexedLine list \<Rightarrow> (nat \<times> SectionType) list" where
  "heading_positions ls = List.map_filter (\<lambda>(index, line). map_option (Pair index) (detect_heading (il_text line)))
     (enumerate 0 ls)"

definition heading_section ::
  "rtext \<Rightarrow> IndexedLine list \<Rightarrow> (nat \<times> SectionType) list \<Rightarrow> nat \<times> nat \<times> SectionType \<Rightarrow> SectionChunk option" where
  "heading_section clean_text ls hs entry =
     (case entry of (no, heading_index, st) \<Rightarrow>
        let start = il_start (ls ! heading_index);
            next_heading_index = (if no + 1 < length hs then fst (hs ! (no + 1)) else length ls);
            final = find (\<lambda>line. trim (il_text line) \<noteq> []) (rev (take next_heading_index ls));
            stop = (case final of Some line \<Rightarrow> il_end line | None \<Rightarrow> start)
        in if stop \<le> start then None
           else Some \<lparr>section_type = st, order_no = as_u32 no, chunk_text = str_slice clean_text start stop,
             char_start = il_char_start (ls ! heading_index),
             char_end = (case final of Some line \<Rightarrow> il_char_end line | None \<Rightarrow> il_char_start (ls ! heading_index)),
             confidence_bits = 0x3F6B851F\<rparr>)"

definition sectionize :: "Sectionizer \<Rightarrow> rtext \<Rightarrow> SectionChunk list" where
  "sectionize z clean_text =
     (let ls = indexed_lines clean_text;
          hs = heading_positions ls
      in if hs = [] then fallback_chunks z clean_text
         else List.map_filter (heading_section clean_text ls hs) (enumerate 0 hs))"

section \<open>Chunks that cover a text\<close>

abbreviation solid :: "rtext \<Rightarrow> rtext" where
  "solid \<equiv> filter (\<lambda>c. \<not> is_whitespace c)"

text \<open>The chunks follow each other from one position to another: a chunk has the non-blank
  characters of its range, and there is nothing but blanks between the ranges.\<close>

fun covers :: "rtext \<Rightarrow> nat \<Rightarrow> SectionChunk list \<Rightarrow> nat \<Rightarrow> bool" where
  "covers t c [] e \<longleftrightarrow> c \<le> e \<and> solid (sub t c e) = []"
| "covers t c (k # ks) e \<longleftrightarrow>
     c \<le> char_start k \<and> solid (sub t c (char_start k)) = [] \<and> char_start k < char_end k \<and> char_end k \<le> length t \<and>
     solid (sub t (char_start k) (char_end k)) = solid (chunk_text k) \<and> covers t (char_end k) ks e"

lemma covers_le: "covers t c ks e \<Longrightarrow> c \<le> e"
  by (induction ks arbitrary: c) force+

lemma is_whitespace_10 [simp]: "is_whitespace 10"
  by (simp add: is_whitespace_def)

lemma solid_sub_append: "a \<le> b \<Longrightarrow> b \<le> c \<Longrightarrow> solid (sub t a c) = solid (sub t a b) @ solid (sub t b c)"
  by (simp add: sub_append [of a b c t, symmetric])

lemma covers_skip:
  "covers t c ks e \<Longrightarrow> e \<le> e' \<Longrightarrow> solid (sub t e e') = [] \<Longrightarrow> covers t c ks e'"
proof (induction ks arbitrary: c)
  case Nil
  then show ?case by (simp add: solid_sub_append [of c e e'])
qed auto

lemma covers_front:
  assumes "covers t c' ks e" "c \<le> c'" "solid (sub t c c') = []"
  shows "covers t c ks e"
proof (cases ks)
  case Nil
  then show ?thesis using assms by (simp add: solid_sub_append [of c c' e])
next
  case (Cons k ks')
  then show ?thesis using assms by (simp add: solid_sub_append [of c c' "char_start k"])
qed

lemma covers_snoc:
  assumes "covers t c ks (char_start k)" "char_start k < char_end k" "char_end k \<le> length t"
    and "solid (sub t (char_start k) (char_end k)) = solid (chunk_text k)"
  shows "covers t c (ks @ [k]) (char_end k)"
  using assms by (induction ks arbitrary: c) auto

lemma covers_text: "covers t c ks e \<Longrightarrow> e \<le> length t \<Longrightarrow> solid (concat (map chunk_text ks)) = solid (sub t c e)"
proof (induction ks arbitrary: c)
  case (Cons k ks)
  have "char_end k \<le> e" using Cons.prems(1) covers_le by auto
  then show ?case
    using Cons by (simp add: solid_sub_append [of c "char_start k" e] solid_sub_append [of "char_start k" "char_end k" e])
qed auto

lemma covers_ordered:
  "covers t c ks e \<Longrightarrow> sorted_wrt (\<lambda>k k'. char_end k \<le> char_start k') ks \<and> (\<forall>k \<in> set ks. c \<le> char_start k)"
  by (induction ks arbitrary: c) force+

lemma covers_chunk:
  "covers t c ks e \<Longrightarrow> k \<in> set ks \<Longrightarrow> char_start k < char_end k \<and> char_end k \<le> length t \<and>
     solid (sub t (char_start k) (char_end k)) = solid (chunk_text k)"
  by (induction ks arbitrary: c) auto

section \<open>Paragraphs follow each other\<close>

fun para_chain :: "rtext \<Rightarrow> nat \<Rightarrow> Paragraph list \<Rightarrow> bool" where
  "para_chain t c [] \<longleftrightarrow> c \<le> length t \<and> solid (sub t c (length t)) = []"
| "para_chain t c (p # ps) \<longleftrightarrow>
     c \<le> p_char_start p \<and> solid (sub t c (p_char_start p)) = [] \<and> p_char_start p < p_char_end p \<and>
     p_char_end p \<le> length t \<and> p_text p = sub t (p_char_start p) (p_char_end p) \<and>
     p_start p = utf8_len (take (p_char_start p) t) \<and> para_chain t (p_char_end p) ps"

lemma para_chain_skip:
  assumes "para_chain t c' ps" "c \<le> c'" "solid (sub t c c') = []"
  shows "para_chain t c ps"
proof (cases ps)
  case Nil
  then show ?thesis using assms by (simp add: solid_sub_append [of c c' "length t"])
next
  case (Cons p ps')
  then show ?thesis using assms by (simp add: solid_sub_append [of c c' "p_char_start p"])
qed

lemma solid_Nil: "list_all (\<lambda>c. \<not> \<not> is_whitespace c) s \<Longrightarrow> solid s = []"
  by (simp add: list_all_iff filter_empty_conv)

text \<open>The paragraph of a block that is not blank.\<close>

lemma block_paragraph:
  assumes s: "s = pre @ (a @ m @ b) @ post"
    and m: "list_all (\<lambda>c. \<not> \<not> is_whitespace c) a" "list_all (\<lambda>c. \<not> \<not> is_whitespace c) b" "m \<noteq> []"
      "\<not> is_whitespace (hd m)" "\<not> is_whitespace (last m)"
  shows "paragraphs_loop s ((a @ m @ b) # rest) (utf8_len pre) =
    \<lparr>p_text = m, p_start = utf8_len (pre @ a), p_char_start = length (pre @ a), p_char_end = length (pre @ a @ m)\<rparr>
    # paragraphs_loop s rest (utf8_len (pre @ a @ m @ b) + 2)"
proof -
  let ?S = "\<lambda>(_ :: nat, c). \<not> is_whitespace c"
  note idx = filter_solid_indices [where P = "\<lambda>c. \<not> is_whitespace c", OF m]
  obtain x xs where F: "filter ?S (char_indices (a @ m @ b)) = x # xs" using idx(1) by (meson neq_Nil_conv)
  obtain k c where l: "last (x # xs) = (k, c)" by (cases "last (x # xs)")
  have first: "find ?S (char_indices (a @ m @ b)) = Some x" by (simp add: find_filter F)
  have final: "find ?S (rev (char_indices (a @ m @ b))) = Some (k, c)" by (simp add: find_rev_filter F l del: last.simps)
  have pos: "fst x = utf8_len a" "k + len_utf8 c = utf8_len a + utf8_len m" using idx(2,3) unfolding F l by simp_all
  have "str_slice s (utf8_len (pre @ a)) (utf8_len (pre @ a) + utf8_len m) = m"
    using str_slice_part [of "pre @ a" m "b @ post"] s by simp
  moreover have "str_slice s 0 (utf8_len (pre @ a)) = pre @ a" "str_slice s 0 (utf8_len (pre @ a) + utf8_len m) = pre @ a @ m"
    using str_slice_part [of "[]" "pre @ a" "m @ b @ post"] str_slice_part [of "[]" "pre @ a @ m" "b @ post"] s
    by (simp_all add: add.assoc)
  ultimately show ?thesis
    using first final pos by (cases x) (simp add: Let_def add.assoc)
qed

lemma paragraphs_loop_chain:
  "s = pre @ join_with [10, 10] blocks \<Longrightarrow> para_chain s (length pre) (paragraphs_loop s blocks (utf8_len pre))"
proof (induction blocks arbitrary: pre)
  case Nil
  then show ?case by (simp add: sub_def)
next
  case (Cons block rest)
  define tail where "tail = paragraphs_loop s rest (utf8_len (pre @ block) + 2)"
  obtain post where s: "s = pre @ block @ post" using Cons.prems by (cases rest) auto
  have rest: "para_chain s (length (pre @ block)) tail"
  proof (cases "rest = []")
    case True
    then show ?thesis using Cons.prems by (simp add: tail_def sub_def)
  next
    case False
    then have eq: "s = (pre @ block @ [10, 10]) @ join_with [10, 10] rest" using Cons.prems by (cases rest) auto
    have "sub s (length (pre @ block)) (length (pre @ block @ [10, 10])) = [10, 10]"
      using sub_part [of "pre @ block" "[10, 10]" "join_with [10, 10] rest"] by (subst eq) (simp add: add.assoc)
    with Cons.IH [OF eq] show ?thesis
      using para_chain_skip [of s "length (pre @ block @ [10, 10])" tail "length (pre @ block)"]
      by (simp add: tail_def add.assoc)
  qed
  have sub_block: "sub s (length (pre @ x)) (length (pre @ x @ y)) = y" if "block = x @ y @ z" for x y z
    using sub_part [of "pre @ x" y "z @ post"] that s by (simp add: add.assoc)
  show ?case
  proof (cases "list_ex (\<lambda>c. \<not> is_whitespace c) block")
    case False
    then have blank: "list_all (\<lambda>c. \<not> \<not> is_whitespace c) block" by (auto simp: list_ex_iff list_all_iff)
    then have "find (\<lambda>(_, c). \<not> is_whitespace c) (char_indices block) = None"
      using filter_blank_indices [of "\<lambda>c. \<not> is_whitespace c" block 0] by (simp add: find_filter char_indices_def)
    then have "paragraphs_loop s (block # rest) (utf8_len pre) = tail" by (simp add: tail_def Let_def)
    moreover have "solid (sub s (length pre) (length (pre @ block))) = []"
      using sub_block [of "[]" block "[]"] solid_Nil [OF blank] by simp
    ultimately show ?thesis using para_chain_skip [OF rest, of "length pre"] by simp
  next
    case True
    then obtain a m b where m: "block = a @ m @ b" "m \<noteq> []" "\<not> is_whitespace (hd m)" "\<not> is_whitespace (last m)"
      "list_all (\<lambda>c. \<not> \<not> is_whitespace c) a" "list_all (\<lambda>c. \<not> \<not> is_whitespace c) b" by (rule solid_part)
    have "para_chain s (length (pre @ a @ m)) tail"
      using rest sub_block [of "a @ m" b "[]"] solid_Nil [OF m(6)] m(1)
      by (intro para_chain_skip [OF rest]) (simp_all add: add.assoc)
    moreover have "solid (sub s (length pre) (length (pre @ a))) = []"
      using sub_block [of "[]" a "m @ b"] solid_Nil [OF m(5)] m(1) by simp
    moreover have "sub s (length (pre @ a)) (length (pre @ a @ m)) = m" using sub_block [of a m b] m(1) by simp
    ultimately show ?thesis
      using block_paragraph [of s pre a m b post rest] s m by (simp add: tail_def add.assoc)
  qed
qed

lemma paragraphs_chain: "para_chain s 0 (paragraphs s)"
  using paragraphs_loop_chain [of s "[]" "split_str [10, 10] s"] by (simp add: paragraphs_def)

section \<open>Fallback chunks are bounded and lose nothing\<close>

text \<open>The pieces of a long paragraph are consecutive, none is longer than the limit, and together
  they spell the paragraph.\<close>

fun piece_chain :: "nat \<Rightarrow> nat \<Rightarrow> Paragraph list \<Rightarrow> rtext \<Rightarrow> bool" where
  "piece_chain limit c [] t \<longleftrightarrow> t = []"
| "piece_chain limit c (q # qs) t \<longleftrightarrow>
     prefix (p_text q) t \<and> p_text q \<noteq> [] \<and> length (p_text q) \<le> limit \<and> p_char_start q = c \<and>
     p_char_end q = c + length (p_text q) \<and> piece_chain limit (p_char_end q) qs (drop (length (p_text q)) t)"

lemma split_loop_chain:
  assumes "p_text p = x @ y @ z" "length y \<le> limit" "0 < limit"
  shows "piece_chain limit c (split_loop p limit (char_indices_from (utf8_len (x @ y)) z)
    (p_start p + utf8_len x) c (length y) (p_start p + utf8_len (x @ y))) (y @ z)"
  using assms
proof (induction z arbitrary: x y c)
  case Nil
  then show ?case using str_slice_part [of x y "[]"] by simp
next
  case (Cons d z)
  show ?case
  proof (cases "length y = limit")
    case True
    have "piece_chain limit (c + length y) (split_loop p limit (char_indices_from (utf8_len ((x @ y) @ [d])) z)
        (p_start p + utf8_len (x @ y)) (c + length y) (length [d]) (p_start p + utf8_len ((x @ y) @ [d]))) ([d] @ z)"
      by (rule Cons.IH) (use Cons.prems in simp_all)
    moreover have "str_slice (p_text p) (utf8_len x) (utf8_len x + utf8_len y) = y"
      using Cons.prems(1) str_slice_part [of x y "d # z"] by simp
    ultimately show ?thesis using True Cons.prems(3) by (auto simp: Let_def add.assoc)
  next
    case False
    have "piece_chain limit c (split_loop p limit (char_indices_from (utf8_len (x @ y @ [d])) z)
        (p_start p + utf8_len x) c (length (y @ [d])) (p_start p + utf8_len (x @ y @ [d]))) ((y @ [d]) @ z)"
      by (rule Cons.IH) (use Cons.prems False in simp_all)
    then show ?thesis using False by (simp add: Let_def add.assoc)
  qed
qed

lemma split_paragraph_chain:
  "0 < limit \<Longrightarrow> piece_chain limit (p_char_start p) (split_paragraph_by_chars p limit) (p_text p)"
  using split_loop_chain [of p "[]" "[]" "p_text p" limit "p_char_start p"]
  by (simp add: split_paragraph_by_chars_def char_indices_def)

definition sized :: "nat \<Rightarrow> SectionChunk list \<Rightarrow> bool" where
  "sized limit ks \<longleftrightarrow> (\<forall>k \<in> set ks. chunk_text k \<noteq> [] \<and> length (chunk_text k) \<le> limit) \<and>
     map order_no ks = map as_u32 [0..<length ks]"

lemma push_chunk:
  assumes "covers t 0 ks cs" "sized limit ks" "cs < ce" "ce \<le> length t" "solid (sub t cs ce) = solid u" "u \<noteq> []" "length u \<le> limit"
  shows "covers t 0 (push_fallback_chunk ks cs ce u) ce \<and> sized limit (push_fallback_chunk ks cs ce u)"
proof -
  define k where "k = \<lparr>section_type = Other ''chunk'', order_no = as_u32 (length ks), chunk_text = u,
    char_start = cs, char_end = ce, confidence_bits = 0x3EE66666\<rparr>"
  have "push_fallback_chunk ks cs ce u = ks @ [k]" by (simp add: push_fallback_chunk_def k_def)
  moreover have "covers t 0 (ks @ [k]) (char_end k)" by (rule covers_snoc) (use assms in \<open>simp_all add: k_def\<close>)
  ultimately show ?thesis using assms(2,6,7) by (simp add: sized_def k_def)
qed

lemma push_pieces:
  assumes "covers t 0 ks c" "sized limit ks" "piece_chain limit c qs (sub t c e)" "c \<le> e" "e \<le> length t"
  defines "ks' \<equiv> foldl (\<lambda>ss q. push_fallback_chunk ss (p_char_start q) (p_char_end q) (p_text q)) ks qs"
  shows "covers t 0 ks' e \<and> sized limit ks'"
  using assms(1-5) unfolding ks'_def
proof (induction qs arbitrary: ks c)
  case Nil
  then have "c = e" using length_sub [of e t c] by simp
  then show ?case using Nil by simp
next
  case (Cons q qs)
  let ?u = "p_text q"
  have q: "prefix ?u (sub t c e)" "?u \<noteq> []" "length ?u \<le> limit" "p_char_start q = c" "p_char_end q = c + length ?u"
    "piece_chain limit (c + length ?u) qs (drop (length ?u) (sub t c e))" using Cons.prems(3) by auto
  have le: "c + length ?u \<le> e" using prefix_length_le [OF q(1)] length_sub [of e t c] Cons.prems(4,5) by simp
  have u: "sub t c (c + length ?u) = ?u" "drop (length ?u) (sub t c e) = sub t (c + length ?u) e"
  proof -
    have "take (length ?u) (sub t c e) = ?u" using q(1) by (auto simp: prefix_def)
    then show "sub t c (c + length ?u) = ?u" using le by (simp add: sub_def min_def split: if_splits)
    show "drop (length ?u) (sub t c e) = sub t (c + length ?u) e" by (simp add: sub_def drop_take add.commute diff_diff_left)
  qed
  have "covers t 0 (push_fallback_chunk ks c (c + length ?u) ?u) (c + length ?u) \<and>
      sized limit (push_fallback_chunk ks c (c + length ?u) ?u)"
    by (rule push_chunk) (use Cons.prems q le u in simp_all)
  then show ?case using Cons.IH [of "push_fallback_chunk ks c (c + length ?u) ?u" "c + length ?u"] q le u Cons.prems(5) by simp
qed

text \<open>The state of the chunking loop when the paragraphs up to a position have been taken.\<close>

definition fallback_ok :: "Sectionizer \<Rightarrow> rtext \<Rightarrow> Fallback \<Rightarrow> nat \<Rightarrow> bool" where
  "fallback_ok z t f c \<longleftrightarrow> sized (max_chars z) (fb_sections f) \<and> fb_chars f = length (fb_text f) \<and>
     (if fb_text f = [] then covers t 0 (fb_sections f) c
      else length (fb_text f) \<le> max_chars z \<and> c \<le> length t \<and> fb_end f = c \<and>
        (\<exists>cs. fb_start f = Some cs \<and> cs < c \<and> covers t 0 (fb_sections f) cs \<and> solid (sub t cs c) = solid (fb_text f)))"

lemma flush_chunk_ok:
  assumes "fallback_ok z t f c" "fb_text f \<noteq> []"
  shows "fallback_ok z t (flush_chunk f) c" "fb_text (flush_chunk f) = []"
proof -
  obtain cs where cs: "fb_start f = Some cs" "cs < c" "covers t 0 (fb_sections f) cs" "solid (sub t cs c) = solid (fb_text f)"
    "sized (max_chars z) (fb_sections f)" "length (fb_text f) \<le> max_chars z" "c \<le> length t" "fb_end f = c"
    using assms by (auto simp: fallback_ok_def)
  show "fallback_ok z t (flush_chunk f) c"
    using push_chunk [OF cs(3,5,2,7,4) assms(2) cs(6)] cs(1,8) by (simp add: fallback_ok_def flush_chunk_def)
  show "fb_text (flush_chunk f) = []" by (simp add: flush_chunk_def)
qed

text \<open>Adding a paragraph to the chunk under construction.\<close>

definition add_paragraph :: "Fallback \<Rightarrow> Paragraph \<Rightarrow> Fallback" where
  "add_paragraph f p =
     (let f2 = (if fb_text f = [] then f\<lparr>fb_start := Some (p_char_start p)\<rparr>
                else f\<lparr>fb_text := fb_text f @ [10, 10], fb_chars := fb_chars f + 2\<rparr>)
      in f2\<lparr>fb_text := fb_text f2 @ p_text p, fb_chars := fb_chars f2 + char_len p, fb_end := p_char_end p\<rparr>)"

lemma add_paragraph_ok:
  assumes ok: "fallback_ok z t f c"
    and p: "c \<le> p_char_start p" "solid (sub t c (p_char_start p)) = []" "p_char_start p < p_char_end p"
      "p_char_end p \<le> length t" "p_text p = sub t (p_char_start p) (p_char_end p)"
    and fits: "fb_chars f + (if fb_text f \<noteq> [] then 2 else 0) + char_len p \<le> max_chars z"
  shows "fallback_ok z t (add_paragraph f p) (p_char_end p)"
proof -
  have len: "length (p_text p) = char_len p" using p(4,5) length_sub by (simp add: char_len_def)
  then have ne: "p_text p \<noteq> []" using p(3) by (auto simp: char_len_def)
  show ?thesis
  proof (cases "fb_text f = []")
    case True
    then have "covers t 0 (fb_sections f) (p_char_start p)" using ok p(1,2) covers_skip by (auto simp: fallback_ok_def)
    then show ?thesis using True ok p fits len ne by (simp add: fallback_ok_def add_paragraph_def)
  next
    case False
    then obtain cs where cs: "fb_start f = Some cs" "cs < c" "covers t 0 (fb_sections f) cs" "solid (sub t cs c) = solid (fb_text f)"
      using ok by (auto simp: fallback_ok_def)
    have "solid (sub t cs (p_char_end p)) = solid (fb_text f @ [10, 10] @ p_text p)"
      using cs(2,4) p by (simp add: solid_sub_append [of cs c "p_char_end p"] solid_sub_append [of c "p_char_start p" "p_char_end p"])
    then show ?thesis using False ok p fits len cs by (auto simp: fallback_ok_def add_paragraph_def Let_def)
  qed
qed

lemma fallback_step_alt:
  "fallback_step z f p =
     (if max_chars z < char_len p then
        let f1 = (if fb_text f \<noteq> [] then flush_chunk f else f)
        in f1\<lparr>fb_sections := foldl (\<lambda>ss piece. push_fallback_chunk ss (p_char_start piece) (p_char_end piece) (p_text piece))
             (fb_sections f1) (split_paragraph_by_chars p (max_chars z))\<rparr>
      else add_paragraph (if fb_text f \<noteq> [] \<and> max_chars z < fb_chars f + 2 + char_len p then flush_chunk f else f) p)"
  by (auto simp: fallback_step_def add_paragraph_def Let_def)

lemma fallback_step_ok:
  assumes z: "0 < max_chars z" and ok: "fallback_ok z t f c"
    and p: "c \<le> p_char_start p" "solid (sub t c (p_char_start p)) = []" "p_char_start p < p_char_end p"
      "p_char_end p \<le> length t" "p_text p = sub t (p_char_start p) (p_char_end p)"
  shows "fallback_ok z t (fallback_step z f p) (p_char_end p)"
proof (cases "max_chars z < char_len p")
  case True
  define f1 where "f1 = (if fb_text f \<noteq> [] then flush_chunk f else f)"
  have f1: "fallback_ok z t f1 c" "fb_text f1 = []" using ok flush_chunk_ok by (auto simp: f1_def)
  define ks where "ks = foldl (\<lambda>ss piece. push_fallback_chunk ss (p_char_start piece) (p_char_end piece) (p_text piece))
             (fb_sections f1) (split_paragraph_by_chars p (max_chars z))"
  have "covers t 0 (fb_sections f1) (p_char_start p)" "sized (max_chars z) (fb_sections f1)"
    using f1 p(1,2) covers_skip by (auto simp: fallback_ok_def)
  then have "covers t 0 ks (p_char_end p) \<and> sized (max_chars z) ks"
    unfolding ks_def using split_paragraph_chain [OF z, of p] p(4,5) less_imp_le [OF p(3)] by (intro push_pieces) simp_all
  moreover have "fallback_step z f p = f1\<lparr>fb_sections := ks\<rparr>" using True by (simp add: fallback_step_alt f1_def ks_def Let_def)
  ultimately show ?thesis using f1 by (simp add: fallback_ok_def)
next
  case False
  define f1 where "f1 = (if fb_text f \<noteq> [] \<and> max_chars z < fb_chars f + 2 + char_len p then flush_chunk f else f)"
  have "fallback_ok z t f1 c" using ok flush_chunk_ok(1) by (simp add: f1_def)
  moreover have "fb_chars f1 + (if fb_text f1 \<noteq> [] then 2 else 0) + char_len p \<le> max_chars z"
    using False ok by (auto simp: f1_def flush_chunk_def fallback_ok_def)
  ultimately have "fallback_ok z t (add_paragraph f1 p) (p_char_end p)" using p by (intro add_paragraph_ok [of z t f1 c p])
  then show ?thesis using False by (simp add: fallback_step_alt f1_def)
qed

lemma fallback_loop_ok:
  "0 < max_chars z \<Longrightarrow> fallback_ok z t f c \<Longrightarrow> para_chain t c ps \<Longrightarrow>
   \<exists>c'. fallback_ok z t (foldl (fallback_step z) f ps) c' \<and> c' \<le> length t \<and> solid (sub t c' (length t)) = []"
proof (induction ps arbitrary: f c)
  case (Cons p ps)
  then show ?case using fallback_step_ok [of z t f c p] by simp
qed auto

lemma fallback_chunks_cover:
  assumes z: "0 < max_chars z"
  shows "covers t 0 (fallback_chunks z t) (length t) \<and> sized (max_chars z) (fallback_chunks z t)"
proof -
  define f0 where "f0 = \<lparr>fb_sections = [], fb_start = None, fb_end = 0, fb_text = [], fb_chars = 0\<rparr>"
  define f where "f = foldl (fallback_step z) f0 (paragraphs t)"
  have "fallback_ok z t f0 0" by (simp add: fallback_ok_def f0_def sized_def)
  then obtain c where c: "fallback_ok z t f c" "c \<le> length t" "solid (sub t c (length t)) = []"
    using fallback_loop_ok [OF z _ paragraphs_chain] by (auto simp: f_def)
  define g where "g = (if fb_text f \<noteq> [] then flush_chunk f else f)"
  have g: "fallback_ok z t g c" "fb_text g = []" using c(1) flush_chunk_ok by (auto simp: g_def)
  have "fallback_chunks z t = fb_sections g"
    by (simp add: fallback_chunks_def Let_def f_def [unfolded f0_def, symmetric] g_def flush_chunk_def)
  moreover have "covers t 0 (fb_sections g) (length t)"
    using g c(2,3) covers_skip by (auto simp: fallback_ok_def)
  ultimately show ?thesis using g by (simp add: fallback_ok_def)
qed

section \<open>Sections follow the headings\<close>

definition line_ok :: "rtext \<Rightarrow> IndexedLine \<Rightarrow> bool" where
  "line_ok t l \<longleftrightarrow> il_char_start l \<le> il_char_end l \<and> il_char_end l \<le> length t \<and>
     il_start l = utf8_len (take (il_char_start l) t) \<and> il_end l = utf8_len (take (il_char_end l) t) \<and>
     il_text l = sub t (il_char_start l) (il_char_end l)"

fun line_chain :: "rtext \<Rightarrow> nat \<Rightarrow> IndexedLine list \<Rightarrow> bool" where
  "line_chain t c [] \<longleftrightarrow> c \<le> length t \<and> solid (sub t c (length t)) = []"
| "line_chain t c (l # ls) \<longleftrightarrow>
     c \<le> il_char_start l \<and> solid (sub t c (il_char_start l)) = [] \<and> line_ok t l \<and> line_chain t (il_char_end l) ls"

lemma line_chain_skip:
  assumes "line_chain t c' ls" "c \<le> c'" "solid (sub t c c') = []"
  shows "line_chain t c ls"
proof (cases ls)
  case Nil
  then show ?thesis using assms by (simp add: solid_sub_append [of c c' "length t"])
next
  case (Cons l ls')
  then show ?thesis using assms by (simp add: solid_sub_append [of c c' "il_char_start l"])
qed

definition chop :: "rtext \<Rightarrow> rtext" where
  "chop q = (if q \<noteq> [] \<and> last q = 10 then butlast q else q)"

lemma chop_rest:
  obtains nl where "q = chop q @ nl" "solid nl = []"
    "a + utf8_len q - (if q \<noteq> [] \<and> last q = 10 then 1 else 0) = a + utf8_len (chop q)"
proof (cases "q \<noteq> [] \<and> last q = 10")
  case True
  then obtain u where "q = u @ [10]" by (metis append_butlast_last_id)
  then show ?thesis by (intro that [of "[10]"]) (simp_all add: chop_def)
qed (auto simp: chop_def intro: that [of "[]"])

lemma indexed_lines_loop_chain:
  assumes "s = pre @ concat qs" "\<forall>q \<in> set qs. q \<noteq> []"
  obtains ls where "indexed_lines_loop s qs (utf8_len pre) (length pre) = (ls, utf8_len s, length s)"
    "line_chain s (length pre) ls" "length ls = length qs"
proof -
  have "\<exists>ls. indexed_lines_loop s qs (utf8_len pre) (length pre) = (ls, utf8_len s, length s) \<and>
      line_chain s (length pre) ls \<and> length ls = length qs"
    using assms
  proof (induction qs arbitrary: pre)
    case Nil
    then show ?case by simp
  next
    case (Cons q qs)
    obtain ls where ls: "indexed_lines_loop s qs (utf8_len (pre @ q)) (length (pre @ q)) = (ls, utf8_len s, length s)"
      "line_chain s (length (pre @ q)) ls" "length ls = length qs"
      using Cons.IH [of "pre @ q"] Cons.prems by auto
    obtain nl where q: "q = chop q @ nl" "solid nl = []" and
      len: "utf8_len pre + utf8_len q - (if q \<noteq> [] \<and> last q = 10 then 1 else 0) = utf8_len (pre @ chop q)"
      by (rule chop_rest [of q "utf8_len pre"]) simp_all
    have s: "s = pre @ chop q @ nl @ concat qs" using Cons.prems(1) q(1) by (metis append.assoc concat.simps(2))
    have slice: "str_slice s (utf8_len pre) (utf8_len (pre @ chop q)) = chop q"
      using str_slice_part [of pre "chop q" "nl @ concat qs"] s by simp
    define l where "l = \<lparr>il_text = chop q, il_start = utf8_len pre, il_end = utf8_len (pre @ chop q),
      il_char_start = length pre, il_char_end = length (pre @ chop q)\<rparr>"
    have "indexed_lines_loop s (q # qs) (utf8_len pre) (length pre) = (l # ls, utf8_len s, length s)"
      using ls(1) unfolding indexed_lines_loop.simps Let_def len slice by (simp add: l_def)
    moreover have "line_chain s (length (pre @ chop q)) ls"
    proof (rule line_chain_skip [OF ls(2)])
      show "length (pre @ chop q) \<le> length (pre @ q)" using arg_cong [OF q(1), of length] by simp
      have "length (pre @ q) = length (pre @ chop q) + length nl" using arg_cong [OF q(1), of length] by simp
      then show "solid (sub s (length (pre @ chop q)) (length (pre @ q))) = []"
        using sub_part [of "pre @ chop q" nl "concat qs"] s q(2) by (simp add: add.assoc)
    qed
    moreover have "line_ok s l" using sub_part [of pre "chop q" "nl @ concat qs"] s by (simp add: l_def line_ok_def)
    ultimately show ?case using ls(3) by (simp add: l_def)
  qed
  then show ?thesis using that by blast
qed

lemma indexed_lines_chain:
  assumes "s \<noteq> []"
  shows "line_chain s 0 (indexed_lines s)"
proof -
  have ne: "\<forall>q \<in> set (split_inclusive 10 s). q \<noteq> []" by (auto dest: split_inclusive_part)
  obtain ls where ls: "indexed_lines_loop s (split_inclusive 10 s) 0 0 = (ls, utf8_len s, length s)" "line_chain s 0 ls"
    by (rule indexed_lines_loop_chain [of s "[]" "split_inclusive 10 s"]) (use ne in simp_all)
  then show ?thesis using assms by (simp add: indexed_lines_def)
qed

lemma trim_eq_Nil: "trim s = [] \<longleftrightarrow> solid s = []"
proof -
  have "(\<forall>x \<in> set (dropWhile P xs). P x) \<longleftrightarrow> (\<forall>x \<in> set xs. P x)" for P and xs :: rtext by (induction xs) auto
  then show ?thesis by (simp add: trim_def trim_end_def trim_start_Nil_iff filter_empty_conv)
qed

lemma line_chain_nth: "line_chain t c ls \<Longrightarrow> i < length ls \<Longrightarrow> line_ok t (ls ! i) \<and> line_chain t (il_char_end (ls ! i)) (drop (Suc i) ls)"
proof (induction ls arbitrary: c i)
  case (Cons l ls)
  then show ?case by (cases i) auto
qed simp

lemma line_chain_blank:
  assumes "line_chain t c ls" "\<forall>l \<in> set (take m ls). solid (il_text l) = []"
  shows "c \<le> (if m < length ls then il_char_start (ls ! m) else length t) \<and>
    solid (sub t c (if m < length ls then il_char_start (ls ! m) else length t)) = []"
  using assms
proof (induction ls arbitrary: c m)
  case (Cons l ls)
  show ?case
  proof (cases m)
    case 0
    then show ?thesis using Cons.prems by simp
  next
    case (Suc m')
    define e where "e = (if m' < length ls then il_char_start (ls ! m') else length t)"
    have e: "il_char_end l \<le> e" "solid (sub t (il_char_end l) e) = []"
      using Cons.IH [of "il_char_end l" m'] Cons.prems Suc by (simp_all add: e_def)
    have l: "c \<le> il_char_start l" "solid (sub t c (il_char_start l)) = []" "il_char_start l \<le> il_char_end l"
      "solid (sub t (il_char_start l) (il_char_end l)) = []"
      using Cons.prems Suc by (auto simp: line_ok_def)
    have "solid (sub t c e) = []"
      using l e by (simp add: solid_sub_append [of c "il_char_start l" e] solid_sub_append [of "il_char_start l" "il_char_end l" e])
    moreover have "c \<le> e" using l e by simp
    moreover have "(if m < length (l # ls) then il_char_start ((l # ls) ! m) else length t) = e" by (simp add: e_def Suc)
    ultimately show ?thesis by (simp only: simp_thms)
  qed
qed simp

text \<open>The last line that is not blank among those from a heading up to the next one.\<close>

lemma last_solid_line:
  assumes "i < n" "n \<le> length ls" "P (ls ! i)"
  obtains j where "find P (rev (take n ls)) = Some (ls ! j)" "i \<le> j" "j < n" "\<forall>l \<in> set (take (n - Suc j) (drop (Suc j) ls)). \<not> P l"
proof -
  have "ls ! i \<in> set (take n ls)" using assms(1,2) by (metis length_take min.absorb2 nth_mem nth_take)
  then obtain u x v where x: "take n ls = u @ x # v" "P x" "\<forall>y \<in> set v. \<not> P y"
    using split_list_last_prop [of "take n ls" P] assms(3) by blast
  define j where "j = length u"
  have j: "j < n" using arg_cong [OF x(1), of length] assms(2) by (simp add: j_def)
  have xj: "x = ls ! j" using arg_cong [OF x(1), of "\<lambda>l. l ! j"] j by (simp add: j_def)
  have v: "v = take (n - Suc j) (drop (Suc j) ls)"
    using arg_cong [OF x(1), of "drop (Suc j)"] by (simp add: j_def drop_take)
  have "i \<le> j"
  proof (rule ccontr)
    assume "\<not> i \<le> j"
    then have "ls ! i \<in> set v" using assms(1,2) by (auto simp: v in_set_conv_nth intro!: exI [of _ "i - Suc j"])
    then show False using x(3) assms(3) by blast
  qed
  moreover have "filter P v = []" using x(3) by (simp add: filter_empty_conv)
  then have "find P (rev (take n ls)) = Some (ls ! j)" unfolding find_rev_filter x(1) using x(2) xj by simp
  ultimately show ?thesis using that j x(3) v by blast
qed

text \<open>The headings in the order of the text.\<close>

lemma heading_positions_sorted:
  "sorted_wrt (<) (map fst (heading_positions ls)) \<and>
   (\<forall>(i, st) \<in> set (heading_positions ls). i < length ls \<and> detect_heading (il_text (ls ! i)) = Some st)"
proof -
  let ?f = "\<lambda>(index, line). map_option (Pair index) (detect_heading (il_text line))"
  have "sorted_wrt (<) (map fst (List.map_filter ?f (enumerate n ls))) \<and>
      (\<forall>(i, st) \<in> set (List.map_filter ?f (enumerate n ls)). n \<le> i \<and> i < n + length ls \<and>
         detect_heading (il_text (ls ! (i - n))) = Some st)" for n
  proof (induction ls arbitrary: n)
    case (Cons l ls)
    have tail: "\<forall>(i, st) \<in> set (List.map_filter ?f (enumerate (Suc n) ls)). Suc n \<le> i \<and> i < Suc n + length ls \<and>
        detect_heading (il_text ((l # ls) ! (i - n))) = Some st"
      using Cons.IH [of "Suc n"] by (auto simp: nth_Cons' Suc_le_eq)
    show ?case
    proof (cases "detect_heading (il_text l)")
      case None
      then show ?thesis using Cons.IH [of "Suc n"] tail by (force simp: List.map_filter_simps)
    next
      case (Some st)
      then show ?thesis using Cons.IH [of "Suc n"] tail by (force simp: List.map_filter_simps)
    qed
  qed (simp add: List.map_filter_simps)
  from this [of 0] show ?thesis by (simp add: heading_positions_def)
qed

lemma heading_positions_nth:
  assumes "no < length (heading_positions ls)"
  shows "fst (heading_positions ls ! no) < length ls"
    "detect_heading (il_text (ls ! fst (heading_positions ls ! no))) = Some (snd (heading_positions ls ! no))"
    "no + 1 < length (heading_positions ls) \<Longrightarrow> fst (heading_positions ls ! no) < fst (heading_positions ls ! (no + 1))"
proof -
  obtain i st where e: "heading_positions ls ! no = (i, st)" by (cases "heading_positions ls ! no")
  then have "(i, st) \<in> set (heading_positions ls)" using assms by (metis nth_mem)
  then show "fst (heading_positions ls ! no) < length ls"
    "detect_heading (il_text (ls ! fst (heading_positions ls ! no))) = Some (snd (heading_positions ls ! no))"
    using heading_positions_sorted [of ls] e by auto
  show "no + 1 < length (heading_positions ls) \<Longrightarrow> fst (heading_positions ls ! no) < fst (heading_positions ls ! (no + 1))"
    using heading_positions_sorted [of ls] sorted_wrt_nth_less [of "(<)" "map fst (heading_positions ls)" no "no + 1"] by simp
qed

lemma heading_not_blank: "detect_heading s = Some st \<Longrightarrow> trim s \<noteq> []"
  by (auto simp: detect_heading_def normalize_heading_def trim_matches_def to_ascii_lowercase_def Let_def split: if_splits)

lemma str_slice_sub:
  assumes "a \<le> b" "b \<le> length t"
  shows "str_slice t (utf8_len (take a t)) (utf8_len (take b t)) = sub t a b"
proof -
  have b: "take b t = take a t @ sub t a b" using assms sub_append [of 0 a b t] by (simp add: sub_def)
  then have t: "t = take a t @ sub t a b @ drop b t" by (metis append_assoc append_take_drop_id)
  have "str_slice t (utf8_len (take a t)) (utf8_len (take a t) + utf8_len (sub t a b)) = sub t a b"
    using str_slice_part [of "take a t" "sub t a b" "drop b t"] t by simp
  then show ?thesis by (simp add: b)
qed

lemma utf8_len_take_less:
  assumes "a < b" "b \<le> length t"
  shows "utf8_len (take a t) < utf8_len (take b t)"
proof -
  have "take b t = take a t @ sub t a b" using assms sub_append [of 0 a b t] by (simp add: sub_def)
  moreover have "0 < utf8_len (sub t a b)" using assms length_sub [of b t a] by (metis gr0I length_0_conv less_nat_zero_code utf8_len_eq_0 zero_less_diff)
  ultimately show ?thesis by simp
qed

lemma line_chain_le: "line_chain t c ls \<Longrightarrow> k < length ls \<Longrightarrow> c \<le> il_char_start (ls ! k)"
proof (induction ls arbitrary: c k)
  case (Cons l ls)
  then show ?case by (cases k) (fastforce simp: line_ok_def)+
qed simp

text \<open>The section of one heading: it runs from the heading to the last line before the next
  heading that is not blank, and its text is the text of that range.\<close>

lemma heading_section_ok:
  fixes t ls hs
  defines "next_start no \<equiv> if no + 1 < length hs then il_char_start (ls ! fst (hs ! (no + 1))) else length t"
  assumes ls: "line_chain t 0 ls" and hs: "hs = heading_positions ls" and no: "no < length hs"
  obtains k where "heading_section t ls hs (no, hs ! no) = Some k" "section_type k = snd (hs ! no)" "order_no k = as_u32 no"
    "char_start k = il_char_start (ls ! fst (hs ! no))" "char_start k < char_end k" "char_end k \<le> length t"
    "chunk_text k = sub t (char_start k) (char_end k)" "char_end k \<le> next_start no" "solid (sub t (char_end k) (next_start no)) = []"
proof -
  obtain i st where i: "hs ! no = (i, st)" by (cases "hs ! no")
  define n where "n = (if no + 1 < length hs then fst (hs ! (no + 1)) else length ls)"
  have head: "i < length ls" "detect_heading (il_text (ls ! i)) = Some st"
    using heading_positions_nth(1,2) [of no ls] hs no i by simp_all
  have next_head: "i < fst (hs ! (no + 1))" "fst (hs ! (no + 1)) < length ls" if "no + 1 < length hs"
    using heading_positions_nth(3) [of no ls] heading_positions_nth(1) [of "no + 1" ls] hs that i by simp_all
  then have n: "i < n" "n \<le> length ls" using head(1) by (auto simp: n_def)
  obtain j where j: "find (\<lambda>l. trim (il_text l) \<noteq> []) (rev (take n ls)) = Some (ls ! j)" "i \<le> j" "j < n"
    "\<forall>l \<in> set (take (n - Suc j) (drop (Suc j) ls)). \<not> trim (il_text l) \<noteq> []"
    using last_solid_line [of i n ls "\<lambda>l. trim (il_text l) \<noteq> []"] n heading_not_blank [OF head(2)] by blast
  have ok: "line_ok t (ls ! i)" "line_ok t (ls ! j)" and after: "line_chain t (il_char_end (ls ! j)) (drop (Suc j) ls)"
    using line_chain_nth [OF ls] head(1) j(3) n(2) by auto
  have "il_char_start (ls ! i) < il_char_end (ls ! i)"
    using ok(1) heading_not_blank [OF head(2)] by (cases "il_char_start (ls ! i) = il_char_end (ls ! i)") (auto simp: line_ok_def trim_eq_Nil)
  moreover have "il_char_end (ls ! i) \<le> il_char_end (ls ! j)"
  proof (cases "i = j")
    case False
    then have "il_char_end (ls ! i) \<le> il_char_start (drop (Suc i) ls ! (j - Suc i))"
      using line_chain_nth [OF ls head(1)] j(2,3) n(2) by (intro line_chain_le) auto
    then show ?thesis using False j(2,3) n(2) ok(2) by (simp add: line_ok_def)
  qed simp
  ultimately have less: "il_char_start (ls ! i) < il_char_end (ls ! j)" by simp
  define k where "k = \<lparr>section_type = st, order_no = as_u32 no, chunk_text = sub t (il_char_start (ls ! i)) (il_char_end (ls ! j)),
    char_start = il_char_start (ls ! i), char_end = il_char_end (ls ! j), confidence_bits = 0x3F6B851F\<rparr>"
  have "heading_section t ls hs (no, hs ! no) = Some k"
    using ok less utf8_len_take_less [OF less, of t] str_slice_sub [of "il_char_start (ls ! i)" "il_char_end (ls ! j)" t]
    unfolding heading_section_def i prod.case Let_def n_def [symmetric] j(1)
    by (simp add: line_ok_def k_def)
  moreover have "(if n - Suc j < length (drop (Suc j) ls) then il_char_start (drop (Suc j) ls ! (n - Suc j)) else length t) = next_start no"
    using j(3) n next_head by (auto simp: next_start_def n_def split: if_splits)
  with line_chain_blank [OF after, of "n - Suc j"] j(4)
  have "char_end k \<le> next_start no" "solid (sub t (char_end k) (next_start no)) = []" by (simp_all add: trim_eq_Nil k_def)
  ultimately show ?thesis using less ok i by (intro that [of k]) (simp_all add: k_def line_ok_def)
qed

definition exact :: "rtext \<Rightarrow> SectionChunk list \<Rightarrow> bool" where
  "exact t ks \<longleftrightarrow> (\<forall>k \<in> set ks. chunk_text k = sub t (char_start k) (char_end k))"

lemma heading_sections_cover:
  assumes ls: "line_chain t 0 ls" and hs: "hs = heading_positions ls" and no: "no \<le> length hs"
  defines "ks \<equiv> List.map_filter (heading_section t ls hs) (enumerate no (drop no hs))"
  shows "covers t (if no < length hs then il_char_start (ls ! fst (hs ! no)) else length t) ks (length t) \<and> exact t ks \<and>
    map section_type ks = map snd (drop no hs) \<and> map order_no ks = map as_u32 [no..<length hs] \<and>
    map char_start ks = map (\<lambda>h. il_char_start (ls ! fst h)) (drop no hs)"
  using no unfolding ks_def
proof (induction "length hs - no" arbitrary: no)
  case 0
  then show ?case by (simp add: List.map_filter_simps exact_def)
next
  case (Suc d)
  then have lt: "no < length hs" by simp
  define rest where "rest = List.map_filter (heading_section t ls hs) (enumerate (Suc no) (drop (Suc no) hs))"
  obtain k where k: "heading_section t ls hs (no, hs ! no) = Some k" "section_type k = snd (hs ! no)" "order_no k = as_u32 no"
    "char_start k = il_char_start (ls ! fst (hs ! no))" "char_start k < char_end k" "char_end k \<le> length t"
    "chunk_text k = sub t (char_start k) (char_end k)"
    "char_end k \<le> (if no + 1 < length hs then il_char_start (ls ! fst (hs ! (no + 1))) else length t)"
    "solid (sub t (char_end k) (if no + 1 < length hs then il_char_start (ls ! fst (hs ! (no + 1))) else length t)) = []"
    by (rule heading_section_ok [OF ls hs lt])
  have "d = length hs - Suc no" "Suc no \<le> length hs" using Suc.hyps(2) lt by simp_all
  note IH = Suc.hyps(1) [OF this, folded rest_def]
  have ks: "List.map_filter (heading_section t ls hs) (enumerate no (drop no hs)) = k # rest"
    using lt k(1) by (simp add: Cons_nth_drop_Suc [symmetric] List.map_filter_simps rest_def)
  have rest: "covers t (char_end k) rest (length t)"
    by (rule covers_front [OF IH [THEN conjunct1]]) (use k(8,9) in \<open>simp_all only: Suc_eq_plus1\<close>)
  show ?case unfolding ks using rest IH lt k
    by (simp add: exact_def Cons_nth_drop_Suc [symmetric] upt_conv_Cons del: upt_Suc)
qed

text \<open>C21: when the text has headings there is one section per heading, in their order, with the
  heading's type and number; a section is exactly the text of its range, starts at its heading and
  ends before the next section, and from the first heading on no character that is not blank is
  left out.\<close>

theorem sections_follow_headings:
  assumes "heading_positions (indexed_lines t) \<noteq> []"
  shows "map section_type (sectionize z t) = map snd (heading_positions (indexed_lines t)) \<and>
    map order_no (sectionize z t) = map as_u32 [0..<length (heading_positions (indexed_lines t))] \<and>
    map char_start (sectionize z t) = map (\<lambda>h. il_char_start (indexed_lines t ! fst h)) (heading_positions (indexed_lines t)) \<and>
    (\<forall>k \<in> set (sectionize z t). char_start k < char_end k \<and> char_end k \<le> length t \<and>
       chunk_text k = sub t (char_start k) (char_end k)) \<and>
    sorted_wrt (\<lambda>k k'. char_end k \<le> char_start k') (sectionize z t) \<and>
    solid (concat (map chunk_text (sectionize z t))) = solid (drop (char_start (hd (sectionize z t))) t)"
proof -
  define hs where "hs = heading_positions (indexed_lines t)"
  have "t \<noteq> []"
  proof
    assume "t = []"
    moreover have "detect_heading [] = None" using heading_not_blank by (metis not_None_eq trim_eq_Nil filter.simps(1))
    ultimately show False using assms by (simp add: indexed_lines_def heading_positions_def List.map_filter_simps str_slice_def char_indices_def)
  qed
  then have chain: "line_chain t 0 (indexed_lines t)" by (rule indexed_lines_chain)
  define ks where "ks = sectionize z t"
  have ks: "ks = List.map_filter (heading_section t (indexed_lines t) hs) (enumerate 0 (drop 0 hs))"
    using assms by (simp add: ks_def sectionize_def hs_def Let_def)
  define c where "c = il_char_start (indexed_lines t ! fst (hs ! 0))"
  have all: "covers t c ks (length t)" "exact t ks" "map section_type ks = map snd hs"
    "map order_no ks = map as_u32 [0..<length hs]" "map char_start ks = map (\<lambda>h. il_char_start (indexed_lines t ! fst h)) hs"
    using heading_sections_cover [OF chain hs_def, of 0] assms unfolding ks by (auto simp: c_def hs_def)
  have "char_start (hd ks) = c"
  proof -
    have "ks \<noteq> []" "hs \<noteq> []" using all(3) assms by (auto simp: hs_def)
    then show ?thesis using arg_cong [OF all(5), of hd] by (simp add: hd_map c_def hd_conv_nth)
  qed
  moreover have "solid (concat (map chunk_text ks)) = solid (drop c t)"
    using covers_text [OF all(1)] by (simp add: sub_def)
  ultimately show ?thesis
    unfolding hs_def [symmetric] ks_def [symmetric]
    using all covers_ordered [OF all(1)] covers_chunk [OF all(1)] by (simp add: exact_def)
qed

lemmas heading_eval =
  heading_positions_def indexed_lines_def str_slice_def char_indices_def len_utf8_def List.map_filter_simps
  detect_heading_def normalize_heading_def trim_matches_def trim_def trim_start_def trim_end_def is_whitespace_def
  is_ascii_punctuation_def to_ascii_lowercase_def contains_any_def contains_def

theorem sections_follow_headings_witness:
  "map section_type (sectionize default_sectionizer (lit ''Skills:'' @ [10] @ lit ''Rust'')) = [Skill] \<and>
   map char_start (sectionize default_sectionizer (lit ''Skills:'' @ [10] @ lit ''Rust'')) = [0]"
proof -
  have hs: "heading_positions (indexed_lines (lit ''Skills:'' @ [10] @ lit ''Rust'')) = [(0, Skill)]"
    by (simp add: heading_eval)
  have "il_char_start (indexed_lines (lit ''Skills:'' @ [10] @ lit ''Rust'') ! 0) = 0" by (simp add: heading_eval)
  then show ?thesis
    using sections_follow_headings [of "lit ''Skills:'' @ [10] @ lit ''Rust''" default_sectionizer, unfolded hs] by simp
qed

text \<open>C22: when the text has no heading it is cut into numbered chunks, none of them empty or longer
  than the limit; their ranges are increasing and disjoint ranges of the text, a chunk has exactly
  the non-blank characters of its range, and together the chunks have all those of the text.\<close>

theorem fallback_chunks_are_bounded:
  assumes "heading_positions (indexed_lines t) = []"
  shows "(\<forall>k \<in> set (sectionize (with_max_chars n) t).
       chunk_text k \<noteq> [] \<and> length (chunk_text k) \<le> max n 1 \<and> char_start k < char_end k \<and> char_end k \<le> length t \<and>
       solid (chunk_text k) = solid (sub t (char_start k) (char_end k))) \<and>
    map order_no (sectionize (with_max_chars n) t) = map as_u32 [0..<length (sectionize (with_max_chars n) t)] \<and>
    sorted_wrt (\<lambda>k k'. char_end k \<le> char_start k') (sectionize (with_max_chars n) t) \<and>
    solid (concat (map chunk_text (sectionize (with_max_chars n) t))) = solid t"
proof -
  define ks where "ks = sectionize (with_max_chars n) t"
  have ks: "covers t 0 ks (length t)" "sized (max n 1) ks"
    using fallback_chunks_cover [of "with_max_chars n" t] assms by (simp_all add: ks_def sectionize_def with_max_chars_def Let_def)
  have "solid (concat (map chunk_text ks)) = solid t" using covers_text [OF ks(1)] by (simp add: sub_def)
  then show ?thesis
    unfolding ks_def [symmetric] using ks(2) covers_ordered [OF ks(1)] covers_chunk [OF ks(1)] by (simp add: sized_def)
qed

theorem fallback_chunks_are_bounded_witness:
  "heading_positions (indexed_lines (lit ''Ada Li'')) = [] \<and>
   list_all (\<lambda>k. chunk_text k \<noteq> [] \<and> length (chunk_text k) \<le> 2) (sectionize (with_max_chars 2) (lit ''Ada Li'')) \<and>
   solid (concat (map chunk_text (sectionize (with_max_chars 2) (lit ''Ada Li'')))) = lit ''AdaLi''"
proof -
  have hs: "heading_positions (indexed_lines (lit ''Ada Li'')) = []" by (simp add: heading_eval)
  moreover have "solid (lit ''Ada Li'') = lit ''AdaLi''" by (simp add: is_whitespace_def)
  ultimately show ?thesis using fallback_chunks_are_bounded [OF hs, of 2] by (simp add: numeral_2_eq_2 list_all_iff)
qed

end
