(* ===== verification/EmbeddingProtocol.thy ===== *)
theory EmbeddingProtocol
  imports RustText "HOL-Library.Stream"
begin

text \<open>
  The protocol between the daemon and the resident embedding process
  (\<open>crates/embedding-protocol/src/lib.rs\<close>): the messages and their validation, and the frames
  they travel in.  A reader is an endless stream of what its \<open>read\<close> calls may return, so that
  a loop which retries interrupted reads is a loop that may not end; a writer accepts bytes
  until it breaks.  The JSON encoder and decoder are arguments of the definitions.
\<close>

section \<open>Messages\<close>

definition SCHEMA_VERSION :: rtext where
  "SCHEMA_VERSION = lit ''resume-ir.embedding-stream.v1''"

definition MAX_REQUEST_BYTES :: nat where
  "MAX_REQUEST_BYTES = 2 * 1024 * 1024"

definition MAX_RESPONSE_BYTES :: nat where
  "MAX_RESPONSE_BYTES = 4 * 1024 * 1024"

definition MAX_INPUTS :: nat where
  "MAX_INPUTS = 4"

definition MAX_TEXT_BYTES :: nat where
  "MAX_TEXT_BYTES = 65536"

definition MAX_MODEL_ID_BYTES :: nat where
  "MAX_MODEL_ID_BYTES = 128"

datatype io_kind = UnexpectedEof | OtherIo

datatype ProtocolError = Io io_kind | FrameTooLarge | InvalidPayload

datatype EmbeddingRole = Query | Passage

record ResidentInput =
  ri_role :: EmbeddingRole
  ri_text :: rtext

record EmbedRequest =
  er_schema_version :: rtext
  er_request_id :: nat
  er_model_id :: rtext
  er_dimension :: nat
  er_inputs :: "ResidentInput list"

datatype ResidentErrorCode = InvalidRequest | IdentityMismatch | InferenceFailed | OutputInvalid | RuntimeUnavailable

record EmbeddingTelemetry =
  input_count :: nat
  active_token_count :: nat
  padded_token_count :: nat
  tokenize_us :: nat
  tensor_us :: nat
  onnx_us :: nat
  pool_us :: nat
  normalize_us :: nat
  child_total_us :: nat
  queue_wait_us :: nat
  ipc_wall_us :: nat

definition default_telemetry :: EmbeddingTelemetry where
  "default_telemetry = \<lparr>input_count = 0, active_token_count = 0, padded_token_count = 0, tokenize_us = 0,
     tensor_us = 0, onnx_us = 0, pool_us = 0, normalize_us = 0, child_total_us = 0, queue_wait_us = 0, ipc_wall_us = 0\<rparr>"

text \<open>An \<open>f32\<close> by its bits; the finite ones are those whose exponent is not all ones.\<close>

type_synonym f32 = nat

definition is_finite :: "f32 \<Rightarrow> bool" where
  "is_finite v \<longleftrightarrow> v div 2 ^ 23 mod 256 \<noteq> 255"

datatype ResidentResponse =
  Ready rtext rtext nat
| Result rtext nat "f32 list list" EmbeddingTelemetry
| Error rtext "nat option" ResidentErrorCode bool

definition new_request :: "nat \<Rightarrow> rtext \<Rightarrow> nat \<Rightarrow> ResidentInput list \<Rightarrow> EmbedRequest" where
  "new_request request_id model_id dimension inputs =
     \<lparr>er_schema_version = SCHEMA_VERSION, er_request_id = request_id, er_model_id = model_id,
      er_dimension = dimension, er_inputs = inputs\<rparr>"

definition ready :: "rtext \<Rightarrow> nat \<Rightarrow> ResidentResponse" where
  "ready model_id dimension = Ready SCHEMA_VERSION model_id dimension"

definition result_with_telemetry :: "nat \<Rightarrow> f32 list list \<Rightarrow> EmbeddingTelemetry \<Rightarrow> ResidentResponse" where
  "result_with_telemetry request_id vectors telemetry = Result SCHEMA_VERSION request_id vectors telemetry"

definition error_response :: "nat option \<Rightarrow> ResidentErrorCode \<Rightarrow> bool \<Rightarrow> ResidentResponse" where
  "error_response request_id code retryable = Error SCHEMA_VERSION request_id code retryable"

definition validate_identity :: "rtext \<Rightarrow> rtext \<Rightarrow> nat \<Rightarrow> (ProtocolError, unit) result" where
  "validate_identity schema_version model_id dimension =
     (if schema_version \<noteq> SCHEMA_VERSION \<or> model_id = [] \<or> MAX_MODEL_ID_BYTES < utf8_len model_id \<or>
         list_ex (\<lambda>b. b < 32 \<or> b = 127) (encode_utf8 model_id) \<or> dimension = 0
      then Err InvalidPayload else Ok ())"

definition validate_request :: "EmbedRequest \<Rightarrow> (ProtocolError, unit) result" where
  "validate_request r =
     rbind (validate_identity (er_schema_version r) (er_model_id r) (er_dimension r)) (\<lambda>_.
       if er_inputs r = [] \<or> MAX_INPUTS < length (er_inputs r) then Err InvalidPayload
       else if list_ex (\<lambda>input. MAX_TEXT_BYTES < utf8_len (ri_text input)) (er_inputs r) then Err InvalidPayload
       else Ok ())"

definition validate_telemetry :: "EmbeddingTelemetry \<Rightarrow> nat \<Rightarrow> (ProtocolError, unit) result" where
  "validate_telemetry t expected_input_count =
     (if t = default_telemetry then Ok ()
      else let phase_total = sat_add64 (sat_add64 (sat_add64 (sat_add64 (tokenize_us t) (tensor_us t)) (onnx_us t))
                 (pool_us t)) (normalize_us t)
        in if input_count t \<noteq> expected_input_count \<or> padded_token_count t < active_token_count t \<or>
              child_total_us t < phase_total
           then Err InvalidPayload else Ok ())"

fun validate_ready :: "ResidentResponse \<Rightarrow> rtext \<Rightarrow> nat \<Rightarrow> (ProtocolError, unit) result" where
  "validate_ready (Ready schema_version actual_model_id actual_dimension) model_id dimension =
     rbind (validate_identity schema_version actual_model_id actual_dimension) (\<lambda>_.
       if actual_model_id \<noteq> model_id \<or> actual_dimension \<noteq> dimension then Err InvalidPayload else Ok ())"
| "validate_ready _ model_id dimension = Err InvalidPayload"

fun validate_result :: "ResidentResponse \<Rightarrow> nat \<Rightarrow> nat \<Rightarrow> nat \<Rightarrow> (ProtocolError, unit) result" where
  "validate_result (Result schema_version actual_request_id vectors telemetry) request_id n_inputs dimension =
     (if schema_version \<noteq> SCHEMA_VERSION \<or> actual_request_id \<noteq> request_id \<or> length vectors \<noteq> n_inputs \<or>
         list_ex (\<lambda>vector. length vector \<noteq> dimension \<or> list_ex (\<lambda>v. \<not> is_finite v) vector) vectors
      then Err InvalidPayload
      else validate_telemetry telemetry n_inputs)"
| "validate_result _ request_id n_inputs dimension = Err InvalidPayload"

section \<open>Writing frames\<close>

text \<open>\<open>serde_json::to_writer\<close> hands the buffer one piece of the text after the other; it may fail
  after some pieces for a reason of its own.\<close>

record json_text =
  pieces :: "nat list list"
  serializes :: bool

record BoundedBuffer =
  buffered :: "nat list"
  max_bytes :: nat

definition buffer_write :: "BoundedBuffer \<Rightarrow> nat list \<Rightarrow> BoundedBuffer option" where
  "buffer_write b bytes =
     (if max_bytes b < length (buffered b) + length bytes then None
      else Some (b\<lparr>buffered := buffered b @ bytes\<rparr>))"

fun buffer_write_all :: "BoundedBuffer \<Rightarrow> nat list list \<Rightarrow> BoundedBuffer option" where
  "buffer_write_all b [] = Some b"
| "buffer_write_all b (p # ps) = (case buffer_write b p of None \<Rightarrow> None | Some b' \<Rightarrow> buffer_write_all b' ps)"

text \<open>A pipe takes bytes until it breaks, if it ever does.\<close>

record pipe =
  written :: "nat list"
  capacity :: "nat option"

definition write_all :: "pipe \<Rightarrow> nat list \<Rightarrow> (ProtocolError, unit) result \<times> pipe" where
  "write_all w bytes =
     (case capacity w of
        None \<Rightarrow> (Ok (), w\<lparr>written := written w @ bytes\<rparr>)
      | Some n \<Rightarrow> if length bytes \<le> n then (Ok (), w\<lparr>written := written w @ bytes, capacity := Some (n - length bytes)\<rparr>)
                  else (Err (Io OtherIo), w\<lparr>written := written w @ take n bytes, capacity := Some 0\<rparr>))"

definition be_bytes32 :: "nat \<Rightarrow> nat list" where
  "be_bytes32 n = [n div 2 ^ 24 mod 256, n div 2 ^ 16 mod 256, n div 2 ^ 8 mod 256, n mod 256]"

definition from_be_bytes32 :: "nat list \<Rightarrow> nat" where
  "from_be_bytes32 bs = foldl (\<lambda>n b. n * 256 + b) 0 bs"

definition write_frame :: "('v \<Rightarrow> json_text) \<Rightarrow> pipe \<Rightarrow> 'v \<Rightarrow> nat \<Rightarrow> (ProtocolError, unit) result \<times> pipe" where
  "write_frame to_json w value limit =
     (case buffer_write_all \<lparr>buffered = [], max_bytes = min limit (2 ^ 32 - 1)\<rparr> (pieces (to_json value)) of
        None \<Rightarrow> (Err FrameTooLarge, w)
      | Some b \<Rightarrow>
          if \<not> serializes (to_json value) then (Err InvalidPayload, w)
          else if buffered b = [] then (Err FrameTooLarge, w)
          else case write_all w (be_bytes32 (length (buffered b) mod 2 ^ 32)) of
                 (Err e, w1) \<Rightarrow> (Err e, w1)
               | (Ok _, w1) \<Rightarrow> write_all w1 (buffered b))"

section \<open>Reading frames\<close>

text \<open>What the next \<open>read\<close> finds: bytes (none at the end of the stream), an interruption or a
  failure.  A read that asks for fewer bytes than there are leaves the rest.\<close>

datatype read_event = Bytes "nat list" | Interrupted | Fault

type_synonym reader = "read_event stream"

fun leave :: "nat list \<Rightarrow> reader \<Rightarrow> reader" where
  "leave [] s = s"
| "leave (b # bs) s = Bytes (b # bs) ## s"

partial_function (option) read_prefix_byte :: "reader \<Rightarrow> ((ProtocolError, nat option) result \<times> reader) option" where
  "read_prefix_byte s =
     (case shd s of
        Bytes [] \<Rightarrow> Some (Ok None, stl s)
      | Bytes (b # bs) \<Rightarrow> Some (Ok (Some b), leave bs (stl s))
      | Interrupted \<Rightarrow> read_prefix_byte (stl s)
      | Fault \<Rightarrow> Some (Err (Io OtherIo), stl s))"

text \<open>\<open>Read::read_exact\<close>.\<close>

partial_function (option) read_exact :: "reader \<Rightarrow> nat \<Rightarrow> nat list \<Rightarrow> ((ProtocolError, nat list) result \<times> reader) option" where
  "read_exact s n got =
     (if n = 0 then Some (Ok got, s)
      else case shd s of
        Bytes [] \<Rightarrow> Some (Err (Io UnexpectedEof), stl s)
      | Bytes (b # bs) \<Rightarrow> read_exact (leave (drop n (b # bs)) (stl s)) (n - length (b # bs)) (got @ take n (b # bs))
      | Interrupted \<Rightarrow> read_exact (stl s) n got
      | Fault \<Rightarrow> Some (Err (Io OtherIo), stl s))"

definition read_frame ::
  "(nat list \<Rightarrow> 'v option) \<Rightarrow> reader \<Rightarrow> nat \<Rightarrow> ((ProtocolError, 'v option) result \<times> reader) option" where
  "read_frame from_json s limit =
     (case read_prefix_byte s of
        None \<Rightarrow> None
      | Some (Err e, s1) \<Rightarrow> Some (Err e, s1)
      | Some (Ok None, s1) \<Rightarrow> Some (Ok None, s1)
      | Some (Ok (Some first), s1) \<Rightarrow>
          (case read_exact s1 3 [] of
             None \<Rightarrow> None
           | Some (Err e, s2) \<Rightarrow> Some (Err e, s2)
           | Some (Ok rest, s2) \<Rightarrow>
               let size = from_be_bytes32 (first # rest) in
               if size = 0 \<or> limit < size then Some (Err FrameTooLarge, s2)
               else case read_exact s2 size [] of
                      None \<Rightarrow> None
                    | Some (Err e, s3) \<Rightarrow> Some (Err e, s3)
                    | Some (Ok payload, s3) \<Rightarrow>
                        Some (case from_json payload of Some v \<Rightarrow> Ok (Some v) | None \<Rightarrow> Err InvalidPayload, s3)))"

section \<open>Streams that deliver bytes\<close>

text \<open>A stream delivers bytes when they arrive, in whatever portions and however often the reads
  are interrupted, and the stream then ends.\<close>

inductive delivers :: "reader \<Rightarrow> nat list \<Rightarrow> bool" where
  delivers_end: "shd s = Bytes [] \<Longrightarrow> delivers s []"
| delivers_wait: "shd s = Interrupted \<Longrightarrow> delivers (stl s) bs \<Longrightarrow> delivers s bs"
| delivers_data: "shd s = Bytes (c # cs) \<Longrightarrow> delivers (stl s) bs \<Longrightarrow> delivers s ((c # cs) @ bs)"

lemma delivers_leave: "delivers s bs \<Longrightarrow> delivers (leave cs s) (cs @ bs)"
  by (cases cs) (auto intro: delivers_data [of "Bytes _ ## s", simplified])

lemma read_prefix_byte_delivers:
  "delivers s bs \<Longrightarrow>
   (case bs of
      [] \<Rightarrow> \<exists>s'. read_prefix_byte s = Some (Ok None, s')
    | b # bs' \<Rightarrow> \<exists>s'. read_prefix_byte s = Some (Ok (Some b), s') \<and> delivers s' bs')"
proof (induction rule: delivers.induct)
  case (delivers_end s)
  then show ?case by (simp add: read_prefix_byte.simps [of s])
next
  case (delivers_wait s bs)
  then have "read_prefix_byte s = read_prefix_byte (stl s)" by (simp add: read_prefix_byte.simps [of s])
  then show ?case using delivers_wait.IH by (simp only:)
next
  case (delivers_data s c cs bs)
  then show ?case using delivers_leave by (simp add: read_prefix_byte.simps [of s])
qed

lemma read_exact_delivers:
  "delivers s bs \<Longrightarrow>
   (if n \<le> length bs then \<exists>s'. read_exact s n got = Some (Ok (got @ take n bs), s') \<and> delivers s' (drop n bs)
    else \<exists>s'. read_exact s n got = Some (Err (Io UnexpectedEof), s'))"
proof (induction arbitrary: n got rule: delivers.induct)
  case (delivers_end s)
  then show ?case by (auto simp: read_exact.simps [of s] intro: delivers.delivers_end)
next
  case (delivers_wait s bs)
  then show ?case using delivers.delivers_wait [of s bs] by (cases "n = 0") (auto simp: read_exact.simps [of s])
next
  case (delivers_data s c cs bs)
  let ?c = "c # cs"
  show ?case
  proof (cases "n \<le> length ?c")
    case True
    then have "read_exact s n got = Some (Ok (got @ take n ?c), if n = 0 then s else leave (drop n ?c) (stl s))"
      using delivers_data.hyps(1) by (simp add: read_exact.simps [of s] read_exact.simps [of _ 0])
    moreover have "delivers (if n = 0 then s else leave (drop n ?c) (stl s)) (drop n (?c @ bs))"
    proof (cases "n = 0")
      case False
      have "drop n (?c @ bs) = drop n ?c @ bs" using True by (simp only: drop_append) simp
      then show ?thesis using False delivers_leave [OF delivers_data.hyps(2), of "drop n ?c"] by (simp only: if_False)
    qed (use delivers.delivers_data [OF delivers_data.hyps] in simp)
    moreover have "take n (?c @ bs) = take n ?c" using True by (simp only: take_append) simp
    ultimately show ?thesis using True by (metis length_append le_add1 order_trans)
  next
    case False
    then have "read_exact s n got = read_exact (stl s) (n - length ?c) (got @ ?c)"
      using delivers_data.hyps(1) by (simp add: read_exact.simps [of s])
    moreover have "take n (?c @ bs) = ?c @ take (n - length ?c) bs" "drop n (?c @ bs) = drop (n - length ?c) bs"
      using False by (simp_all only: take_append drop_append) simp_all
    moreover have "n - length ?c \<le> length bs \<longleftrightarrow> n \<le> length (?c @ bs)" using False by auto
    ultimately show ?thesis using delivers_data.IH [of "n - length ?c" "got @ ?c"] by (simp only: append_assoc)
  qed
qed

text \<open>What reading a frame gives on the bytes of a stream.\<close>

definition frame_size :: "nat list \<Rightarrow> nat" where
  "frame_size bs = from_be_bytes32 (take 4 bs)"

definition frame_spec :: "(nat list \<Rightarrow> 'v option) \<Rightarrow> nat \<Rightarrow> nat list \<Rightarrow> (ProtocolError, 'v option) result" where
  "frame_spec from_json limit bs =
     (if bs = [] then Ok None
      else if length bs < 4 then Err (Io UnexpectedEof)
      else if frame_size bs = 0 \<or> limit < frame_size bs then Err FrameTooLarge
      else if length bs < 4 + frame_size bs then Err (Io UnexpectedEof)
      else case from_json (take (frame_size bs) (drop 4 bs)) of Some v \<Rightarrow> Ok (Some v) | None \<Rightarrow> Err InvalidPayload)"

lemma read_frame_spec:
  assumes "delivers s bs"
  shows "\<exists>s'. read_frame from_json s limit = Some (frame_spec from_json limit bs, s') \<and>
    (\<forall>v. frame_spec from_json limit bs = Ok (Some v) \<longrightarrow> delivers s' (drop (4 + frame_size bs) bs))"
proof (cases bs)
  case Nil
  then show ?thesis using read_prefix_byte_delivers [OF assms] by (auto simp: read_frame_def frame_spec_def)
next
  case (Cons b bs')
  obtain s1 where s1: "read_prefix_byte s = Some (Ok (Some b), s1)" "delivers s1 bs'"
    using read_prefix_byte_delivers [OF assms] Cons by auto
  note three = read_exact_delivers [OF s1(2), of 3 "[]"]
  show ?thesis
  proof (cases "length bs < 4")
    case True
    then show ?thesis using three s1(1) Cons by (auto simp: read_frame_def frame_spec_def)
  next
    case False
    then obtain s2 where s2: "read_exact s1 3 [] = Some (Ok (take 3 bs'), s2)" "delivers s2 (drop 3 bs')"
      using three Cons by auto
    have size: "from_be_bytes32 (b # take 3 bs') = frame_size bs" and rest: "drop 3 bs' = drop 4 bs"
      by (simp_all add: frame_size_def Cons)
    note payload = read_exact_delivers [OF s2(2), of "frame_size bs" "[]", unfolded rest]
    have len: "frame_size bs \<le> length (drop 4 bs) \<longleftrightarrow> \<not> length bs < 4 + frame_size bs" using False by auto
    show ?thesis
    proof (cases "frame_size bs = 0 \<or> limit < frame_size bs")
      case True
      then show ?thesis using s1 s2 size Cons False by (simp add: read_frame_def frame_spec_def)
    next
      case in_bounds: False
      show ?thesis
      proof (cases "length bs < 4 + frame_size bs")
        case True
        then show ?thesis using payload len s1 s2 size in_bounds Cons False by (auto simp: read_frame_def frame_spec_def)
      next
        case whole: False
        then obtain s3 where "read_exact s2 (frame_size bs) [] = Some (Ok (take (frame_size bs) (drop 4 bs)), s3)"
          "delivers s3 (drop (4 + frame_size bs) bs)" using payload len by (auto simp: add.commute)
        then show ?thesis using whole s1 s2 size in_bounds Cons False
          by (auto simp: read_frame_def frame_spec_def split: option.splits)
      qed
    qed
  qed
qed

section \<open>Frames round trip\<close>

definition payload_of :: "('v \<Rightarrow> json_text) \<Rightarrow> 'v \<Rightarrow> nat list" where
  "payload_of to_json v = concat (pieces (to_json v))"

lemma buffer_write_all_eq:
  "buffer_write_all b ps =
     (if length (buffered b) + length (concat ps) \<le> max_bytes b \<or> ps = [] then Some (b\<lparr>buffered := buffered b @ concat ps\<rparr>) else None)"
  by (induction b ps rule: buffer_write_all.induct) (auto simp: buffer_write_def)

lemma from_be_be_bytes32: "n < 2 ^ 32 \<Longrightarrow> from_be_bytes32 (be_bytes32 n) = n"
proof -
  assume "n < 2 ^ 32"
  then have "n div 2 ^ 24 mod 256 = n div 2 ^ 24" by (simp add: less_mult_imp_div_less)
  moreover have "n div 2 ^ 24 * 256 + n div 2 ^ 16 mod 256 = n div 2 ^ 16" "n div 2 ^ 16 * 256 + n div 2 ^ 8 mod 256 = n div 2 ^ 8"
    "n div 2 ^ 8 * 256 + n mod 256 = n"
    using div_mult_mod_eq [of "n div 2 ^ 16" 256] div_mult_mod_eq [of "n div 2 ^ 8" 256] div_mult_mod_eq [of n 256]
    by (simp_all add: div_mult2_eq [symmetric])
  ultimately show ?thesis by (simp add: from_be_bytes32_def be_bytes32_def)
qed

text \<open>A frame that is written is the size of the payload and the payload; nothing else is ever
  written by a call that succeeds.\<close>

lemma write_frame_Ok:
  assumes "write_frame to_json w v limit = (Ok (), w')"
  shows "payload_of to_json v \<noteq> []" "length (payload_of to_json v) \<le> limit" "length (payload_of to_json v) < 2 ^ 32"
    "written w' = written w @ be_bytes32 (length (payload_of to_json v)) @ payload_of to_json v"
proof -
  have fits: "payload_of to_json v \<noteq> []" "length (payload_of to_json v) \<le> min limit (2 ^ 32 - 1)"
    using assms by (auto simp: write_frame_def buffer_write_all_eq payload_of_def split: if_splits)
  then show "payload_of to_json v \<noteq> []" "length (payload_of to_json v) \<le> limit" "length (payload_of to_json v) < 2 ^ 32"
    by simp_all
  then have m: "length (payload_of to_json v) mod 2 ^ 32 = length (payload_of to_json v)" by simp
  have all: "written w'' = written w' @ bytes" if "write_all w' bytes = (Ok (), w'')" for w' w'' bytes
    using that by (auto simp: write_all_def split: option.splits if_splits)
  obtain w1 where "write_all w (be_bytes32 (length (payload_of to_json v))) = (Ok (), w1)"
    "write_all w1 (payload_of to_json v) = (Ok (), w')"
    using assms m by (auto simp: write_frame_def buffer_write_all_eq payload_of_def split: if_splits sum.splits prod.splits)
  then show "written w' = written w @ be_bytes32 (length (payload_of to_json v)) @ payload_of to_json v"
    using all by fastforce
qed

fun write_frames :: "('v \<Rightarrow> json_text) \<Rightarrow> pipe \<Rightarrow> 'v list \<Rightarrow> nat \<Rightarrow> (ProtocolError, unit) result \<times> pipe" where
  "write_frames to_json w [] limit = (Ok (), w)"
| "write_frames to_json w (v # vs) limit =
     (case write_frame to_json w v limit of (Err e, w') \<Rightarrow> (Err e, w') | (Ok _, w') \<Rightarrow> write_frames to_json w' vs limit)"

fun read_frames :: "(nat list \<Rightarrow> 'v option) \<Rightarrow> reader \<Rightarrow> nat \<Rightarrow> nat \<Rightarrow> ('v list \<times> reader) option" where
  "read_frames from_json s limit 0 = Some ([], s)"
| "read_frames from_json s limit (Suc n) =
     (case read_frame from_json s limit of
        Some (Ok (Some v), s') \<Rightarrow> map_option (\<lambda>(vs, t). (v # vs, t)) (read_frames from_json s' limit n)
      | _ \<Rightarrow> None)"

lemma frame_bytes:
  assumes "write_frame to_json w v limit = (Ok (), w')" "from_json (payload_of to_json v) = Some v"
  defines "frame \<equiv> be_bytes32 (length (payload_of to_json v)) @ payload_of to_json v"
  shows "frame_spec from_json limit (frame @ rest) = Ok (Some v)" "drop (4 + frame_size (frame @ rest)) (frame @ rest) = rest"
proof -
  note ok = write_frame_Ok [OF assms(1)]
  have four: "length (be_bytes32 n) = 4" for n by (simp add: be_bytes32_def)
  then have size: "frame_size (frame @ rest) = length (payload_of to_json v)"
    using ok(3) by (simp add: frame_size_def frame_def from_be_be_bytes32)
  then show "drop (4 + frame_size (frame @ rest)) (frame @ rest) = rest" by (simp add: frame_def four)
  show "frame_spec from_json limit (frame @ rest) = Ok (Some v)"
    using size ok(1,2) assms(2) four by (auto simp: frame_spec_def frame_def)
qed

lemma write_frames_Ok:
  "write_frames to_json w vs limit = (Ok (), w') \<Longrightarrow>
   written w' = written w @ concat (map (\<lambda>v. be_bytes32 (length (payload_of to_json v)) @ payload_of to_json v) vs)"
  by (induction vs arbitrary: w) (auto split: prod.splits sum.splits dest!: write_frame_Ok(4))

text \<open>C8: whatever sequence of messages is written into a pipe comes out of it again, each message
  once and in order, and then the end of the stream, however the bytes are portioned and the reads
  interrupted on the way; all that is needed of the JSON library is that it reads back what it wrote.\<close>

theorem frames_round_trip:
  assumes "\<forall>v \<in> set vs. from_json (payload_of to_json v) = Some v"
    and "write_frames to_json \<lparr>written = [], capacity = cap\<rparr> vs limit = (Ok (), w)"
    and "delivers s (written w)"
  shows "\<exists>s' s''. read_frames from_json s limit (length vs) = Some (vs, s') \<and> read_frame from_json s' limit = Some (Ok None, s'')"
proof -
  have main: "\<exists>s'. read_frames from_json s limit (length vs) = Some (vs, s') \<and> delivers s' []"
    if "write_frames to_json w0 vs limit = (Ok (), w)" "\<forall>v \<in> set vs. from_json (payload_of to_json v) = Some v"
      "delivers s (concat (map (\<lambda>v. be_bytes32 (length (payload_of to_json v)) @ payload_of to_json v) vs))" for w0 s
    using that
  proof (induction vs arbitrary: w0 s)
    case (Cons v vs)
    let ?frame = "be_bytes32 (length (payload_of to_json v)) @ payload_of to_json v"
    let ?rest = "concat (map (\<lambda>v. be_bytes32 (length (payload_of to_json v)) @ payload_of to_json v) vs)"
    obtain w1 where w1: "write_frame to_json w0 v limit = (Ok (), w1)" "write_frames to_json w1 vs limit = (Ok (), w)"
      using Cons.prems(1) by (auto split: prod.splits sum.splits)
    note fb = frame_bytes [OF w1(1), of from_json ?rest]
    have "delivers s (?frame @ ?rest)" using Cons.prems(3) by simp
    then obtain s1 where "read_frame from_json s limit = Some (Ok (Some v), s1)" "delivers s1 ?rest"
      using read_frame_spec [of s "?frame @ ?rest" from_json limit] fb Cons.prems(2) by auto
    then show ?case using Cons.IH [OF w1(2), of s1] Cons.prems(2) by auto
  qed simp
  then obtain s' where s': "read_frames from_json s limit (length vs) = Some (vs, s')" "delivers s' []"
    using main [OF assms(2,1), of s] assms(3) write_frames_Ok [OF assms(2)] by auto
  then show ?thesis using read_frame_spec [OF s'(2), of from_json limit] by (auto simp: frame_spec_def)
qed

definition sample_json :: "nat \<Rightarrow> json_text" where
  "sample_json v = \<lparr>pieces = [[v]], serializes = True\<rparr>"

definition sample_parse :: "nat list \<Rightarrow> nat option" where
  "sample_parse bs = (case bs of [b] \<Rightarrow> Some b | _ \<Rightarrow> None)"

definition sample_stream :: reader where
  "sample_stream = Bytes [0, 0] ## Interrupted ## Bytes [0, 1, 7, 0, 0, 0, 1, 9] ## sconst (Bytes [])"

theorem frames_round_trip_witness:
  "\<exists>s' s''. read_frames sample_parse sample_stream 16 2 = Some ([7, 9], s') \<and> read_frame sample_parse s' 16 = Some (Ok None, s'')"
proof -
  let ?w = "\<lparr>written = [0, 0, 0, 1, 7, 0, 0, 0, 1, 9], capacity = None\<rparr>"
  have w: "write_frames sample_json \<lparr>written = [], capacity = None\<rparr> [7, 9] 16 = (Ok (), ?w)"
    by (simp add: write_frame_def sample_json_def buffer_write_def write_all_def be_bytes32_def)
  have json: "\<forall>v \<in> set [7, 9]. sample_parse (payload_of sample_json v) = Some v"
    by (simp add: sample_parse_def sample_json_def payload_of_def)
  have "delivers sample_stream ([0, 0] @ [0, 1, 7, 0, 0, 0, 1, 9] @ [])"
    unfolding sample_stream_def
    by (rule delivers_data, simp, rule delivers_wait, simp, rule delivers_data, simp, rule delivers_end) simp
  then have "delivers sample_stream (written ?w)" by simp
  from frames_round_trip [OF json w this] show ?thesis by (simp add: numeral_2_eq_2)
qed

section \<open>Reads end\<close>

text \<open>The reads of a stream are not interrupted for ever.\<close>

definition fair :: "reader \<Rightarrow> bool" where
  "fair s \<longleftrightarrow> (\<forall>n. \<exists>m \<ge> n. s !! m \<noteq> Interrupted)"

lemma fair_stl: "fair s \<Longrightarrow> fair (stl s)"
  unfolding fair_def by (metis Suc_le_D Suc_le_mono snth.simps(2))

lemma fair_leave: "fair s \<Longrightarrow> fair (leave cs s)"
  unfolding fair_def by (cases cs) (auto, metis Suc_le_D Suc_leD le_SucI le_refl snth_Stream order_trans)

lemma read_prefix_byte_returns_iff: "(\<exists>y. read_prefix_byte s = Some y) \<longleftrightarrow> (\<exists>n. s !! n \<noteq> Interrupted)"
proof
  assume "\<exists>y. read_prefix_byte s = Some y"
  then obtain y where y: "read_prefix_byte s = Some y" ..
  show "\<exists>n. s !! n \<noteq> Interrupted"
  proof (rule read_prefix_byte.raw_induct [where P = "\<lambda>s y. \<exists>n. s !! n \<noteq> Interrupted", OF _ y])
    fix f s y
    assume IH: "\<And>s y. f s = Some y \<Longrightarrow> \<exists>n. s !! n \<noteq> Interrupted"
      and body: "(case shd s of Bytes [] \<Rightarrow> Some (Ok None, stl s) | Bytes (b # bs) \<Rightarrow> Some (Ok (Some b), leave bs (stl s))
        | Interrupted \<Rightarrow> f (stl s) | Fault \<Rightarrow> Some (Err (Io OtherIo), stl s)) = Some y"
    show "\<exists>n. s !! n \<noteq> Interrupted"
    proof (cases "shd s = Interrupted")
      case True
      then obtain n where "stl s !! n \<noteq> Interrupted" using IH body by fastforce
      then show ?thesis by (intro exI [of _ "Suc n"]) simp
    qed (auto intro: exI [of _ 0])
  qed
next
  assume "\<exists>n. s !! n \<noteq> Interrupted"
  then obtain n where "s !! n \<noteq> Interrupted" ..
  then show "\<exists>y. read_prefix_byte s = Some y"
  proof (induction n arbitrary: s)
    case 0
    then show ?case by (auto simp: read_prefix_byte.simps [of s] split: read_event.split list.split)
  next
    case (Suc n)
    then show ?case by (auto simp: read_prefix_byte.simps [of s] split: read_event.split list.split)
  qed
qed

lemma read_prefix_byte_returns:
  assumes "fair s"
  shows "\<exists>r s'. read_prefix_byte s = Some (r, s') \<and> fair s'"
proof -
  obtain n where "s !! n \<noteq> Interrupted" using assms by (auto simp: fair_def)
  then show ?thesis using assms
  proof (induction n arbitrary: s)
    case 0
    then show ?case
      by (auto simp: read_prefix_byte.simps [of s] fair_stl intro!: fair_leave split: read_event.split list.split)
  next
    case (Suc n)
    then show ?case
      by (auto simp: read_prefix_byte.simps [of s] fair_stl intro!: fair_leave split: read_event.split list.split)
  qed
qed

lemma read_exact_returns: "fair s \<Longrightarrow> \<exists>r s'. read_exact s n got = Some (r, s') \<and> fair s'"
proof (induction n arbitrary: s got rule: less_induct)
  case (less n)
  have event: "\<exists>r s'. read_exact s n got = Some (r, s') \<and> fair s'" if "n = 0 \<or> shd s \<noteq> Interrupted" "fair s" for s
  proof (cases "n = 0")
    case False
    show ?thesis
    proof (cases "shd s")
      case (Bytes bs)
      show ?thesis
      proof (cases bs)
        case (Cons c cs)
        have "\<exists>r s'. read_exact (leave (drop n (c # cs)) (stl s)) (n - length (c # cs)) (got @ take n (c # cs)) = Some (r, s') \<and> fair s'"
          by (rule less.IH) (use False that(2) in \<open>auto intro!: fair_leave fair_stl\<close>)
        then show ?thesis using False Bytes Cons by (simp add: read_exact.simps [of s])
      qed (use False Bytes that(2) fair_stl in \<open>auto simp: read_exact.simps [of s]\<close>)
    qed (use False that fair_stl in \<open>auto simp: read_exact.simps [of s]\<close>)
  qed (use that(2) in \<open>simp add: read_exact.simps [of s]\<close>)
  obtain m where "s !! m \<noteq> Interrupted" using less.prems by (auto simp: fair_def)
  then show ?case using less.prems
  proof (induction m arbitrary: s)
    case 0
    then show ?case by (intro event) simp_all
  next
    case (Suc m)
    show ?case
    proof (cases "n = 0 \<or> shd s \<noteq> Interrupted")
      case False
      then show ?thesis using Suc.IH [of "stl s"] Suc.prems fair_stl by (auto simp: read_exact.simps [of s])
    qed (use event Suc.prems in blast)
  qed
qed

text \<open>C25: reading the first byte of a frame returns exactly when the reads are not interrupted for
  ever, and when they never are, reading a whole frame returns, with a message, the end of the
  stream or an error; the reads that follow are again not interrupted for ever.\<close>

theorem read_frame_returns:
  "((\<exists>y. read_prefix_byte s = Some y) \<longleftrightarrow> (\<exists>n. s !! n \<noteq> Interrupted)) \<and>
   (fair s \<longrightarrow> (\<exists>r s'. read_frame from_json s limit = Some (r, s') \<and> fair s'))"
proof (intro conjI impI)
  assume "fair s"
  then obtain r s1 where s1: "read_prefix_byte s = Some (r, s1)" "fair s1" using read_prefix_byte_returns by blast
  obtain r2 s2 where s2: "read_exact s1 3 [] = Some (r2, s2)" "fair s2" using read_exact_returns [OF s1(2)] by blast
  obtain r3 s3 where s3: "read_exact s2 (from_be_bytes32 (the (projr r) # projr r2)) [] = Some (r3, s3)" "fair s3"
    using read_exact_returns [OF s2(2)] by blast
  show "\<exists>r s'. read_frame from_json s limit = Some (r, s') \<and> fair s'"
    using s1 s2 s3 by (auto simp: read_frame_def Let_def split: sum.splits option.splits)
qed (rule read_prefix_byte_returns_iff)

theorem read_frame_returns_witness: "\<exists>r s'. read_frame sample_parse (Interrupted ## sconst (Bytes [])) 16 = Some (r, s')"
proof -
  have "fair (Interrupted ## sconst (Bytes []))"
  proof -
    have "sconst (Bytes []) !! n = Bytes []" for n by (induction n) simp_all
    then have "n \<le> Suc n \<and> (Interrupted ## sconst (Bytes [])) !! Suc n \<noteq> Interrupted" for n by simp
    then show ?thesis unfolding fair_def by blast
  qed
  then show ?thesis using read_frame_returns [of "Interrupted ## sconst (Bytes [])" sample_parse 16] by blast
qed

end
