(* ===== verification/ResidentOwner.thy ===== *)
theory ResidentOwner
  imports EmbeddingProtocol
begin

text \<open>
  The owner of the resident embedding process (\<open>crates/embedder/src/resident.rs\<close> and the
  request types of \<open>crates/embedder/src/lib.rs\<close>): clients put requests into two bounded
  queues; one supervisor thread takes them, keeps a child process that has announced itself,
  exchanges one request with it at a time and answers.  What the child, the clock and the
  cancellation cells show at each poll is an endless stream, so the waiting loops may a priori
  not end.  The properties: an accepted request is answered once, with vectors for exactly its
  inputs or an error; a child that failed a request is never asked again; the wait ends by the
  deadline.
\<close>

section \<open>Requests\<close>

datatype EmbeddingError =
  InvalidDimension | InvalidRequest | WorkerUnavailable | EngineFailed | Overloaded | Cancelled | Timeout
| BudgetExceeded nat nat | TextBudgetExceeded nat nat

datatype ResidentEmbeddingStatus = Starting | Ready | Restarting | Unavailable | Shutdown

fun status_raw :: "ResidentEmbeddingStatus \<Rightarrow> nat" where
  "status_raw Starting = 0"
| "status_raw ResidentEmbeddingStatus.Ready = 1"
| "status_raw Restarting = 2"
| "status_raw Unavailable = 3"
| "status_raw Shutdown = 4"

definition status_from_raw :: "nat \<Rightarrow> ResidentEmbeddingStatus" where
  "status_from_raw v =
     (if v = 0 then Starting else if v = 1 then ResidentEmbeddingStatus.Ready else if v = 2 then Restarting
      else if v = 3 then Unavailable else Shutdown)"

datatype EmbeddingPriority = Interactive | Background

record EmbeddingBudget =
  max_inputs :: nat
  max_text_bytes :: nat

record EmbeddingInput =
  ei_id :: rtext
  ei_role :: EmbeddingRole
  ei_text :: rtext

record EmbeddingVector =
  ev_id :: rtext
  ev_model_id :: rtext
  ev_values :: "f32 list"

definition new_vector :: "rtext \<Rightarrow> rtext \<Rightarrow> f32 list \<Rightarrow> (EmbeddingError, EmbeddingVector) result" where
  "new_vector i model_id vs =
     (if vs = [] then Err InvalidDimension else Ok \<lparr>ev_id = i, ev_model_id = model_id, ev_values = vs\<rparr>)"

fun validate_each_input :: "EmbeddingBudget \<Rightarrow> EmbeddingInput list \<Rightarrow> (EmbeddingError, unit) result" where
  "validate_each_input budget [] = Ok ()"
| "validate_each_input budget (input # rest) =
     (if trim (ei_id input) = [] \<or> 10 \<in> set (ei_id input) \<or> 13 \<in> set (ei_id input) \<or> 9 \<in> set (ei_id input)
      then Err EmbeddingError.InvalidRequest
      else if max_text_bytes budget < utf8_len (ei_text input)
      then Err (TextBudgetExceeded (max_text_bytes budget) (utf8_len (ei_text input)))
      else validate_each_input budget rest)"

definition validate_embedding_inputs :: "EmbeddingInput list \<Rightarrow> EmbeddingBudget \<Rightarrow> (EmbeddingError, unit) result" where
  "validate_embedding_inputs inputs budget =
     (if max_inputs budget < length inputs then Err (BudgetExceeded (max_inputs budget) (length inputs))
      else validate_each_input budget inputs)"

record ResidentEmbeddingSpec =
  model_id :: rtext
  dimension :: nat
  timeout_ms :: nat
  intra_threads :: nat

definition with_intra_threads :: "ResidentEmbeddingSpec \<Rightarrow> nat \<Rightarrow> (EmbeddingError, ResidentEmbeddingSpec) result" where
  "with_intra_threads spec n =
     (if \<not> (1 \<le> n \<and> n \<le> 3) then Err EmbeddingError.InvalidRequest else Ok (spec\<lparr>intra_threads := n\<rparr>))"

record EmbeddingTask =
  task_no :: nat
  task_inputs :: "EmbeddingInput list"
  enqueued_at :: nat
  deadline :: nat

type_synonym embedding_reply = "(EmbeddingError, EmbeddingVector list \<times> EmbeddingTelemetry) result"

section \<open>The owner\<close>

text \<open>The queues, the cancellation cells, the status cell and the supervisor's own state; the
  replies that were sent, and the exchanges with each child, are recorded as they happen.\<close>

record owner =
  interactive_queue :: "EmbeddingTask list"
  background_queue :: "EmbeddingTask list"
  cells :: "nat \<Rightarrow> nat"
  tasks_made :: nat
  ow_status :: ResidentEmbeddingStatus
  next_request_id :: nat
  child :: "nat option"
  children_made :: nat
  shutdown_requested :: bool
  stopped :: bool
  replies :: "(EmbeddingTask \<times> embedding_reply) list"
  exchanges :: "(nat \<times> nat \<times> bool) list"

definition INTERACTIVE_QUEUE_CAPACITY :: nat where
  "INTERACTIVE_QUEUE_CAPACITY = 8"

definition BACKGROUND_QUEUE_CAPACITY :: nat where
  "BACKGROUND_QUEUE_CAPACITY = 4"

definition start_owner :: owner where
  "start_owner = \<lparr>interactive_queue = [], background_queue = [], cells = (\<lambda>_. 0), tasks_made = 0, ow_status = Starting,
     next_request_id = 1, child = None, children_made = 0, shutdown_requested = False, stopped = False,
     replies = [], exchanges = []\<rparr>"

definition set_status :: "ResidentEmbeddingStatus \<Rightarrow> owner \<Rightarrow> owner" where
  "set_status st ow = ow\<lparr>ow_status := st\<rparr>"

definition request_shutdown :: "owner \<Rightarrow> owner" where
  "request_shutdown ow = ow\<lparr>shutdown_requested := True\<rparr>"

text \<open>\<open>enqueue_batch\<close>; an instant past the limit of the clock cannot be represented.\<close>

definition enqueue_batch ::
  "nat \<Rightarrow> EmbeddingPriority \<Rightarrow> EmbeddingInput list \<Rightarrow> EmbeddingBudget \<Rightarrow> nat \<Rightarrow> nat \<Rightarrow> owner
   \<Rightarrow> (EmbeddingError, nat) result \<times> owner" where
  "enqueue_batch last_instant priority inputs budget timeout now ow =
     (case validate_embedding_inputs inputs budget of
        Err e \<Rightarrow> (Err e, ow)
      | Ok _ \<Rightarrow>
          if inputs = [] \<or> MAX_INPUTS < length inputs \<or> timeout = 0 then (Err EmbeddingError.InvalidRequest, ow)
          else if last_instant < now + timeout then (Err EmbeddingError.InvalidRequest, ow)
          else
            let no = tasks_made ow;
                task = \<lparr>task_no = no, task_inputs = inputs, enqueued_at = now, deadline = now + timeout\<rparr>;
                accepted = ow\<lparr>cells := (cells ow)(no := 0), tasks_made := no + 1\<rparr>
            in if stopped ow then (Err WorkerUnavailable, ow)
               else case priority of
                 Interactive \<Rightarrow>
                   if INTERACTIVE_QUEUE_CAPACITY \<le> length (interactive_queue ow) then (Err Overloaded, ow)
                   else (Ok no, accepted\<lparr>interactive_queue := interactive_queue ow @ [task]\<rparr>)
               | Background \<Rightarrow>
                   if BACKGROUND_QUEUE_CAPACITY \<le> length (background_queue ow) then (Err Overloaded, ow)
                   else (Ok no, accepted\<lparr>background_queue := background_queue ow @ [task]\<rparr>))"

text \<open>\<open>wait_with_cancel\<close> and dropping the request mark the cell of a request that is still open.\<close>

definition mark_cell :: "nat \<Rightarrow> nat \<Rightarrow> owner \<Rightarrow> owner" where
  "mark_cell no v ow = (if cells ow no = 0 then ow\<lparr>cells := (cells ow)(no := v)\<rparr> else ow)"

definition client_poll :: "bool \<Rightarrow> nat \<Rightarrow> EmbeddingTask \<Rightarrow> owner \<Rightarrow> owner" where
  "client_poll cancelled now task ow =
     (if cancelled then mark_cell (task_no task) 1 ow
      else if deadline task \<le> now then mark_cell (task_no task) 2 ow else ow)"

definition drop_request :: "EmbeddingTask \<Rightarrow> owner \<Rightarrow> owner" where
  "drop_request task ow = mark_cell (task_no task) 1 ow"

text \<open>Whether a request is cancelled or late, and what its cell then holds.\<close>

definition cancellation_error :: "nat \<Rightarrow> nat \<Rightarrow> nat \<Rightarrow> EmbeddingError option \<times> nat" where
  "cancellation_error cell now due =
     (if cell = 1 then (Some Cancelled, cell) else if cell = 2 then (Some Timeout, cell)
      else if due \<le> now then (Some Timeout, 2) else (None, cell))"

definition saturated_micros :: "nat \<Rightarrow> nat" where
  "saturated_micros duration = min duration u64_max"

section \<open>Talking to the child\<close>

datatype received = Response ResidentResponse | ReaderFailed | Disconnected | Nothing bool

record poll =
  poll_shutdown :: bool
  poll_cell :: nat
  poll_now :: nat
  poll_received :: received

definition accept_response ::
  "ResidentEmbeddingSpec \<Rightarrow> EmbeddingTask \<Rightarrow> nat \<Rightarrow> nat \<Rightarrow> nat \<Rightarrow> ResidentResponse \<Rightarrow> embedding_reply" where
  "accept_response spec task request_id wait_us wall_us response =
     rbind (map_err (\<lambda>_. EngineFailed) (validate_result response request_id (length (task_inputs task)) (dimension spec))) (\<lambda>_.
       case response of
         Result _ _ vectors telemetry \<Rightarrow>
           rbind (traverse (\<lambda>(input, values). new_vector (ei_id input) (model_id spec) values) (zip (task_inputs task) vectors))
             (\<lambda>vs. Ok (vs, telemetry\<lparr>queue_wait_us := wait_us, ipc_wall_us := wall_us\<rparr>))
       | _ \<Rightarrow> Err EngineFailed)"

text \<open>The wait of \<open>execute_task\<close>.\<close>

partial_function (option) await_response ::
  "ResidentEmbeddingSpec \<Rightarrow> EmbeddingTask \<Rightarrow> nat \<Rightarrow> nat \<Rightarrow> nat \<Rightarrow> poll stream \<Rightarrow> embedding_reply option" where
  "await_response spec task request_id wait_us wall_us polls =
     (let p = shd polls in
      if poll_shutdown p then Some (Err WorkerUnavailable)
      else case fst (cancellation_error (poll_cell p) (poll_now p) (deadline task)) of
        Some e \<Rightarrow> Some (Err e)
      | None \<Rightarrow>
          (case poll_received p of
             Response response \<Rightarrow> Some (accept_response spec task request_id wait_us wall_us response)
           | ReaderFailed \<Rightarrow> Some (Err EngineFailed)
           | Disconnected \<Rightarrow> Some (Err EngineFailed)
           | Nothing exited \<Rightarrow>
               if exited then Some (Err EngineFailed)
               else await_response spec task request_id wait_us wall_us (stl polls)))"

definition request_of :: "ResidentEmbeddingSpec \<Rightarrow> EmbeddingTask \<Rightarrow> nat \<Rightarrow> EmbedRequest" where
  "request_of spec task request_id = new_request request_id (model_id spec) (dimension spec)
     (map (\<lambda>input. \<lparr>ri_role = ei_role input, ri_text = ei_text input\<rparr>) (task_inputs task))"

definition execute_task ::
  "ResidentEmbeddingSpec \<Rightarrow> EmbeddingTask \<Rightarrow> nat \<Rightarrow> bool \<Rightarrow> nat \<Rightarrow> nat \<Rightarrow> poll stream \<Rightarrow> embedding_reply option" where
  "execute_task spec task request_id written_ok wait_us wall_us polls =
     (case validate_request (request_of spec task request_id) of
        Err _ \<Rightarrow> Some (Err EmbeddingError.InvalidRequest)
      | Ok _ \<Rightarrow>
          if \<not> written_ok then Some (Err EngineFailed)
          else await_response spec task request_id wait_us wall_us polls)"

text \<open>\<open>spawn_child\<close>: the process, its pipes, and the wait for it to announce itself.\<close>

datatype spawn_outcome = SpawnRefused | SpawnFailed | NoPipes | Spawned

partial_function (option) await_ready ::
  "ResidentEmbeddingSpec \<Rightarrow> nat \<Rightarrow> poll stream \<Rightarrow> (EmbeddingError, unit) result option" where
  "await_ready spec due polls =
     (let p = shd polls in
      if poll_shutdown p \<or> due \<le> poll_now p then Some (Err WorkerUnavailable)
      else case poll_received p of
          Response response \<Rightarrow>
            Some (case validate_ready response (model_id spec) (dimension spec) of
                    Err _ \<Rightarrow> Err EngineFailed | Ok _ \<Rightarrow> Ok ())
        | ReaderFailed \<Rightarrow> Some (Err EngineFailed)
        | Disconnected \<Rightarrow> Some (Err EngineFailed)
        | Nothing exited \<Rightarrow> if exited then Some (Err EngineFailed) else await_ready spec due (stl polls))"

record spawn_env =
  se_outcome :: spawn_outcome
  se_now :: nat
  se_polls :: "poll stream"

definition spawn_child :: "ResidentEmbeddingSpec \<Rightarrow> spawn_env \<Rightarrow> owner \<Rightarrow> (EmbeddingError option \<times> owner) option" where
  "spawn_child spec e ow =
     (case se_outcome e of
        SpawnRefused \<Rightarrow> Some (Some WorkerUnavailable, ow)
      | SpawnFailed \<Rightarrow> Some (Some EngineFailed, ow)
      | NoPipes \<Rightarrow> Some (Some EngineFailed, ow)
      | Spawned \<Rightarrow>
          map_option (\<lambda>r. case r of
             Err e \<Rightarrow> (Some e, ow\<lparr>children_made := children_made ow + 1\<rparr>)
           | Ok _ \<Rightarrow> (None, set_status ResidentEmbeddingStatus.Ready
               (ow\<lparr>children_made := children_made ow + 1, child := Some (children_made ow)\<rparr>)))
            (await_ready spec (se_now e + timeout_ms spec) (se_polls e)))"

definition respawn :: "ResidentEmbeddingSpec \<Rightarrow> spawn_env \<Rightarrow> owner \<Rightarrow> owner option" where
  "respawn spec e ow =
     map_option (\<lambda>(failure, ow'). if failure \<noteq> None then set_status Unavailable ow' else ow') (spawn_child spec e ow)"

section \<open>The supervisor loop\<close>

definition next_task :: "owner \<Rightarrow> (EmbeddingTask \<times> owner) option" where
  "next_task ow =
     (case interactive_queue ow of
        t # ts \<Rightarrow> Some (t, ow\<lparr>interactive_queue := ts\<rparr>)
      | [] \<Rightarrow> (case background_queue ow of
                t # ts \<Rightarrow> Some (t, ow\<lparr>background_queue := ts\<rparr>)
              | [] \<Rightarrow> None))"

definition reply :: "EmbeddingTask \<Rightarrow> embedding_reply \<Rightarrow> owner \<Rightarrow> owner" where
  "reply task r ow = ow\<lparr>replies := replies ow @ [(task, r)]\<rparr>"

text \<open>What one pass of the loop meets: the clock at the check of the cell, the spawns before and
  after the exchange, the write of the request, the polls of the wait, and whether shutdown was
  requested by the time of the restart.\<close>

record pass =
  pass_now :: nat
  pass_spawn :: spawn_env
  pass_started :: nat
  pass_written_ok :: bool
  pass_polls :: "poll stream"
  pass_done :: nat
  pass_stopping :: bool
  pass_respawn :: spawn_env

definition exchange ::
  "ResidentEmbeddingSpec \<Rightarrow> pass \<Rightarrow> EmbeddingTask \<Rightarrow> nat \<Rightarrow> owner \<Rightarrow> owner option" where
  "exchange spec p task g ow =
     (let request_id = next_request_id ow;
          ow1 = ow\<lparr>next_request_id := (request_id + 1) mod 2 ^ 64\<rparr>
      in case execute_task spec task request_id (pass_written_ok p)
             (saturated_micros (pass_started p - enqueued_at task)) (saturated_micros (pass_done p - pass_started p))
             (pass_polls p) of
           None \<Rightarrow> None
         | Some r \<Rightarrow>
             let ow2 = ow1\<lparr>exchanges := exchanges ow1 @ [(g, request_id, is_ok r)],
                   cells := (if r = Err Timeout then (cells ow1)(task_no task := 2) else cells ow1)\<rparr>
             in if is_ok r then Some (reply task r ow2)
                else
                  let ow3 = reply task r (set_status Restarting (ow2\<lparr>child := None\<rparr>))
                  in if pass_stopping p then Some ow3 else respawn spec (pass_respawn p) ow3)"

definition run_pass :: "ResidentEmbeddingSpec \<Rightarrow> pass \<Rightarrow> owner \<Rightarrow> owner option" where
  "run_pass spec p ow =
     (case next_task ow of
        None \<Rightarrow> Some ow
      | Some (task, ow1) \<Rightarrow>
          (case cancellation_error (cells ow1 (task_no task)) (pass_now p) (deadline task) of
             (Some e, cell) \<Rightarrow> Some (reply task (Err e) (ow1\<lparr>cells := (cells ow1)(task_no task := cell)\<rparr>))
           | (None, _) \<Rightarrow>
               (case (if child ow1 = None then respawn spec (pass_spawn p) (set_status Restarting ow1) else Some ow1) of
                  None \<Rightarrow> None
                | Some ow2 \<Rightarrow>
                    (case child ow2 of
                       None \<Rightarrow> Some (reply task (Err WorkerUnavailable) ow2)
                     | Some g \<Rightarrow> exchange spec p task g ow2))))"

text \<open>The start and the end of \<open>run\<close>.  When the supervisor ends, the requests still queued are
  dropped with their reply channels, which their clients see as an unavailable worker.\<close>

definition run_start :: "ResidentEmbeddingSpec \<Rightarrow> spawn_env \<Rightarrow> owner \<Rightarrow> owner option" where
  "run_start spec e ow = respawn spec e ow"

definition run_end :: "owner \<Rightarrow> owner" where
  "run_end ow = set_status Shutdown (ow\<lparr>child := None, stopped := True, interactive_queue := [], background_queue := [],
     replies := replies ow @ map (\<lambda>t. (t, Err WorkerUnavailable)) (interactive_queue ow @ background_queue ow)\<rparr>)"

inductive owner_step :: "ResidentEmbeddingSpec \<Rightarrow> owner \<Rightarrow> owner \<Rightarrow> bool" for spec where
  step_enqueue: "enqueue_batch limit priority inputs budget timeout now ow = (r, ow') \<Longrightarrow> owner_step spec ow ow'"
| step_client_poll: "owner_step spec ow (client_poll cancelled now task ow)"
| step_client_drop: "owner_step spec ow (drop_request task ow)"
| step_shutdown: "owner_step spec ow (request_shutdown ow)"
| step_start: "ow_status ow = Starting \<Longrightarrow> run_start spec e ow = Some ow' \<Longrightarrow> owner_step spec ow ow'"
| step_pass: "ow_status ow \<noteq> Starting \<Longrightarrow> \<not> shutdown_requested ow \<Longrightarrow> \<not> stopped ow \<Longrightarrow> run_pass spec p ow = Some ow' \<Longrightarrow>
    owner_step spec ow ow'"
| step_end: "ow_status ow \<noteq> Starting \<Longrightarrow> shutdown_requested ow \<Longrightarrow> \<not> stopped ow \<Longrightarrow> owner_step spec ow (run_end ow)"

section \<open>The invariant of the owner\<close>

definition vectors_for :: "ResidentEmbeddingSpec \<Rightarrow> EmbeddingTask \<Rightarrow> EmbeddingVector list \<Rightarrow> bool" where
  "vectors_for spec task vs \<longleftrightarrow> map ev_id vs = map ei_id (task_inputs task) \<and>
     (\<forall>v \<in> set vs. ev_model_id v = model_id spec \<and> length (ev_values v) = dimension spec \<and> list_all is_finite (ev_values v))"

definition accounted :: "owner \<Rightarrow> bool" where
  "accounted ow \<longleftrightarrow> length (interactive_queue ow) \<le> INTERACTIVE_QUEUE_CAPACITY \<and>
     length (background_queue ow) \<le> BACKGROUND_QUEUE_CAPACITY \<and>
     mset (map task_no (map fst (replies ow) @ interactive_queue ow @ background_queue ow)) = mset [0..<tasks_made ow]"

definition answers_ok :: "ResidentEmbeddingSpec \<Rightarrow> owner \<Rightarrow> bool" where
  "answers_ok spec ow \<longleftrightarrow> (\<forall>(t, r) \<in> set (replies ow). \<forall>vs tel. r = Ok (vs, tel) \<longrightarrow> vectors_for spec t vs)"

definition children_ok :: "owner \<Rightarrow> bool" where
  "children_ok ow \<longleftrightarrow> (child ow \<noteq> None \<longleftrightarrow> ow_status ow = ResidentEmbeddingStatus.Ready) \<and>
     (\<forall>g. child ow = Some g \<longrightarrow> g < children_made ow \<and> (\<forall>(g', rid, success) \<in> set (exchanges ow). g' = g \<longrightarrow> success)) \<and>
     (\<forall>(g, rid, success) \<in> set (exchanges ow). g < children_made ow) \<and>
     map (fst \<circ> snd) (exchanges ow) = map (\<lambda>i. (i + 1) mod 2 ^ 64) [0..<length (exchanges ow)] \<and>
     next_request_id ow = (length (exchanges ow) + 1) mod 2 ^ 64"

definition owner_inv :: "ResidentEmbeddingSpec \<Rightarrow> owner \<Rightarrow> bool" where
  "owner_inv spec ow \<longleftrightarrow> accounted ow \<and> answers_ok spec ow \<and> children_ok ow"

lemmas owner_invs = owner_inv_def accounted_def answers_ok_def children_ok_def

text \<open>An accepted response has a vector for each input, in order.\<close>

lemma accept_response_vectors:
  assumes "accept_response spec task rid a b response = Ok (vs, tel)"
  shows "vectors_for spec task vs"
proof -
  obtain schema id vectors telemetry where r: "response = Result schema id vectors telemetry"
    and len: "length vectors = length (task_inputs task)"
    and each: "\<forall>v \<in> set vectors. length v = dimension spec \<and> list_all is_finite v"
    and tr: "traverse (\<lambda>(input, values). new_vector (ei_id input) (model_id spec) values) (zip (task_inputs task) vectors) = Ok vs"
    using assms
    by (cases response) (auto simp: accept_response_def rbind_eq_Inr list_ex_iff list_all_iff split: if_splits)
  have "list_all2 (\<lambda>x v. v = \<lparr>ev_id = ei_id (fst x), ev_model_id = model_id spec, ev_values = snd x\<rparr>) (zip (task_inputs task) vectors) vs"
    using tr unfolding traverse_Inr_iff
    by (rule list_all2_mono) (auto simp: new_vector_def split: if_splits)
  then have vs: "vs = map (\<lambda>x. \<lparr>ev_id = ei_id (fst x), ev_model_id = model_id spec, ev_values = snd x\<rparr>) (zip (task_inputs task) vectors)"
    by (simp only: list_all2_map_self)
  have "map ev_id vs = map ei_id (task_inputs task)"
    by (rule nth_equalityI) (use len in \<open>simp_all add: vs\<close>)
  moreover have "\<forall>v \<in> set vs. ev_model_id v = model_id spec \<and> length (ev_values v) = dimension spec \<and> list_all is_finite (ev_values v)"
    using each by (auto simp: vs dest: set_zip_rightD)
  ultimately show ?thesis by (simp add: vectors_for_def)
qed

lemma await_response_vectors:
  assumes "await_response spec task rid a b polls = Some (Ok (vs, tel))"
  shows "vectors_for spec task vs"
proof -
  have "(\<forall>vs tel. r = Ok (vs, tel) \<longrightarrow> vectors_for spec task vs)" if "await_response spec task rid a b polls = Some r" for r
    by (rule await_response.raw_induct [where P = "\<lambda>spec task rid a b polls r. \<forall>vs tel. r = Ok (vs, tel) \<longrightarrow> vectors_for spec task vs", OF _ that])
      (auto simp: Let_def accept_response_vectors split: if_splits option.splits received.splits)
  then show ?thesis using assms by blast
qed

lemma execute_task_vectors: "execute_task spec task rid ok a b polls = Some (Ok (vs, tel)) \<Longrightarrow> vectors_for spec task vs"
  by (auto simp: execute_task_def await_response_vectors split: if_splits sum.splits)

subsection \<open>Every step keeps the invariant\<close>

text \<open>A restart makes a child that has not been used.\<close>

lemma respawn_cases:
  assumes "respawn spec e ow = Some ow'"
  obtains "ow' = set_status Unavailable ow" | "ow' = set_status Unavailable (ow\<lparr>children_made := children_made ow + 1\<rparr>)"
  | "ow' = set_status ResidentEmbeddingStatus.Ready (ow\<lparr>children_made := children_made ow + 1, child := Some (children_made ow)\<rparr>)"
proof (cases "se_outcome e")
  case Spawned
  then obtain r where r: "await_ready spec (se_now e + timeout_ms spec) (se_polls e) = Some r"
    using assms by (auto simp: respawn_def spawn_child_def)
  then show ?thesis using assms Spawned that(2,3) by (cases r) (simp_all add: respawn_def spawn_child_def)
qed (use assms that(1) in \<open>simp_all add: respawn_def spawn_child_def\<close>)

lemma respawn_inv:
  assumes "respawn spec e ow = Some ow'" "accounted ow" "answers_ok spec ow" "child ow = None"
    and "\<forall>(g, rid, success) \<in> set (exchanges ow). g < children_made ow"
    and "map (fst \<circ> snd) (exchanges ow) = map (\<lambda>i. (i + 1) mod 2 ^ 64) [0..<length (exchanges ow)]"
    and "next_request_id ow = (length (exchanges ow) + 1) mod 2 ^ 64"
  shows "owner_inv spec ow'"
  using assms(1)
  by (cases rule: respawn_cases) (use assms(2-) in \<open>auto simp: owner_invs set_status_def\<close>)

lemma reply_simps [simp]:
  "answers_ok spec (reply task (Err e) ow) = answers_ok spec ow"
  "children_ok (reply task r ow) = children_ok ow"
  by (simp_all add: answers_ok_def children_ok_def reply_def)

lemma exchange_inv:
  assumes ow: "accounted (reply task r0 ow)" "answers_ok spec ow" "children_ok ow" and g: "child ow = Some g"
    and ex: "exchange spec p task g ow = Some ow'"
  shows "owner_inv spec ow'"
proof -
  define rid where "rid = next_request_id ow"
  obtain r where r: "execute_task spec task rid (pass_written_ok p) (saturated_micros (pass_started p - enqueued_at task))
      (saturated_micros (pass_done p - pass_started p)) (pass_polls p) = Some r"
    using ex by (auto simp: exchange_def rid_def Let_def split: option.splits)
  define ow2 where "ow2 = ow\<lparr>next_request_id := (rid + 1) mod 2 ^ 64, exchanges := exchanges ow @ [(g, rid, is_ok r)],
    cells := (if r = Err Timeout then (cells ow)(task_no task := 2) else cells ow)\<rparr>"
  have acc: "accounted (reply task r ow2)"
    using ow(1) by (simp add: accounted_def reply_def ow2_def)
  have ans: "answers_ok spec (reply task r ow2)"
    using ow(2) execute_task_vectors r by (auto simp: answers_ok_def reply_def ow2_def)
  have log: "\<forall>(g, rid, success) \<in> set (exchanges ow2). g < children_made ow2"
    "map (fst \<circ> snd) (exchanges ow2) = map (\<lambda>i. (i + 1) mod 2 ^ 64) [0..<length (exchanges ow2)]"
    "next_request_id ow2 = (length (exchanges ow2) + 1) mod 2 ^ 64"
    using ow(3) g by (auto simp: children_ok_def ow2_def rid_def mod_Suc_eq)
  show ?thesis
  proof (cases "is_ok r")
    case True
    then have "ow' = reply task r ow2" using ex r by (auto simp: exchange_def Let_def rid_def ow2_def split: if_splits)
    moreover have "children_ok (reply task r ow2)" using ow(3) log g True by (auto simp: children_ok_def reply_def ow2_def)
    ultimately show ?thesis using acc ans by (simp add: owner_inv_def)
  next
    case False
    define ow3 where "ow3 = reply task r (set_status Restarting (ow2\<lparr>child := None\<rparr>))"
    have ow3: "accounted ow3" "answers_ok spec ow3" "child ow3 = None" "exchanges ow3 = exchanges ow2"
      "children_made ow3 = children_made ow2" "next_request_id ow3 = next_request_id ow2" "ow_status ow3 = Restarting"
      using acc ans by (simp_all add: ow3_def reply_def set_status_def accounted_def answers_ok_def)
    have "Some ow' = (if pass_stopping p then Some ow3 else respawn spec (pass_respawn p) ow3)"
      using ex r False by (auto simp: exchange_def Let_def rid_def ow2_def ow3_def split: if_splits)
    then show ?thesis
      using respawn_inv [of spec "pass_respawn p" ow3 ow'] ow3 log by (auto simp: owner_inv_def children_ok_def split: if_splits)
  qed
qed

lemma next_task_accounted:
  assumes "next_task ow = Some (task, ow1)" "accounted ow"
  shows "accounted (reply task r ow1)" "replies ow1 = replies ow" "exchanges ow1 = exchanges ow" "child ow1 = child ow"
    "children_made ow1 = children_made ow" "next_request_id ow1 = next_request_id ow" "ow_status ow1 = ow_status ow"
  using assms by (auto simp: next_task_def accounted_def reply_def split: list.splits)

lemma run_pass_inv:
  assumes inv: "owner_inv spec ow" and run: "run_pass spec p ow = Some ow'"
  shows "owner_inv spec ow'"
proof (cases "next_task ow")
  case None
  then show ?thesis using inv run by (simp add: run_pass_def)
next
  case (Some a)
  obtain task ow1 where taken: "next_task ow = Some (task, ow1)" using Some by (cases a) auto
  have acc: "accounted ow" using inv by (simp add: owner_inv_def)
  note nt = next_task_accounted [OF taken acc]
  have ans: "answers_ok spec ow1" and kids: "children_ok ow1" using inv nt by (simp_all add: owner_inv_def answers_ok_def children_ok_def)
  show ?thesis
  proof (cases "cancellation_error (cells ow1 (task_no task)) (pass_now p) (deadline task)")
    case (Pair err cell)
    show ?thesis
    proof (cases err)
      case (Some e)
      then have "ow' = reply task (Err e) (ow1\<lparr>cells := (cells ow1)(task_no task := cell)\<rparr>)"
        using run taken Pair by (simp add: run_pass_def)
      then show ?thesis using nt(1) [of "Err e"] ans kids by (auto simp: owner_invs reply_def)
    next
      case None
      then obtain ow2 where ow2: "(if child ow1 = None then respawn spec (pass_spawn p) (set_status Restarting ow1) else Some ow1) = Some ow2"
        and fin: "(case child ow2 of None \<Rightarrow> Some (reply task (Err WorkerUnavailable) ow2) | Some g \<Rightarrow> exchange spec p task g ow2) = Some ow'"
        using run taken Pair by (auto simp: run_pass_def split: option.splits)
      have mid: "accounted (reply task r ow2) \<and> answers_ok spec ow2 \<and> children_ok ow2" for r
      proof (cases "child ow1 = None")
        case True
        then have "respawn spec (pass_spawn p) (set_status Restarting ow1) = Some ow2" using ow2 by simp
        then show ?thesis
          by (cases rule: respawn_cases)
            (use nt(1) [of r] ans kids True in \<open>auto simp: accounted_def answers_ok_def children_ok_def reply_def set_status_def\<close>)
      next
        case False
        then show ?thesis using ow2 nt(1) ans kids by auto
      qed
      show ?thesis
      proof (cases "child ow2")
        case None
        then show ?thesis using fin mid [of "Err WorkerUnavailable"] by (auto simp: owner_inv_def)
      next
        case (Some g)
        then show ?thesis using fin mid [of "Err WorkerUnavailable"] exchange_inv [of task "Err WorkerUnavailable" ow2 spec g p ow'] by simp
      qed
    qed
  qed
qed

lemma owner_inv_start: "owner_inv spec start_owner"
  by (simp add: owner_invs start_owner_def)

lemma enqueue_cases:
  assumes "enqueue_batch limit priority inputs budget timeout now ow = (r, ow')"
  obtains "ow' = ow"
  | task where "task_no task = tasks_made ow" "length (interactive_queue ow) < INTERACTIVE_QUEUE_CAPACITY"
      "ow' = ow\<lparr>cells := (cells ow)(tasks_made ow := 0), tasks_made := tasks_made ow + 1, interactive_queue := interactive_queue ow @ [task]\<rparr>"
  | task where "task_no task = tasks_made ow" "length (background_queue ow) < BACKGROUND_QUEUE_CAPACITY"
      "ow' = ow\<lparr>cells := (cells ow)(tasks_made ow := 0), tasks_made := tasks_made ow + 1, background_queue := background_queue ow @ [task]\<rparr>"
proof (cases "ow' = ow")
  case False
  let ?task = "\<lparr>task_no = tasks_made ow, task_inputs = inputs, enqueued_at = now, deadline = now + timeout\<rparr>"
  obtain u where "validate_embedding_inputs inputs budget = Ok u"
    using assms False by (cases "validate_embedding_inputs inputs budget") (auto simp: enqueue_batch_def)
  then show ?thesis
    using assms False that(2,3) [of ?task]
    by (cases priority) (auto simp: enqueue_batch_def Let_def split: if_splits)
qed (rule that(1))

lemma enqueue_inv:
  assumes "owner_inv spec ow" "enqueue_batch limit priority inputs budget timeout now ow = (r, ow')"
  shows "owner_inv spec ow'"
  using assms(2)
  by (cases rule: enqueue_cases) (use assms(1) in \<open>simp_all add: owner_invs\<close>)

lemma owner_inv_cells: "owner_inv spec (mark_cell no v ow) = owner_inv spec ow"
  by (auto simp: mark_cell_def owner_invs)

lemma run_end_inv: "owner_inv spec ow \<Longrightarrow> owner_inv spec (run_end ow)"
  by (auto simp: owner_invs run_end_def set_status_def comp_def)

lemma owner_inv_step:
  assumes "owner_inv spec ow" "owner_step spec ow ow'"
  shows "owner_inv spec ow'"
  using assms(2)
proof cases
  case (step_enqueue limit priority inputs budget timeout now r)
  then show ?thesis using assms(1) enqueue_inv by blast
next
  case (step_client_poll cancelled now task)
  then show ?thesis using assms(1) by (simp add: client_poll_def owner_inv_cells)
next
  case (step_client_drop task)
  then show ?thesis using assms(1) by (simp add: drop_request_def owner_inv_cells)
next
  case step_shutdown
  then show ?thesis using assms(1) by (simp add: request_shutdown_def owner_invs)
next
  case (step_start e)
  have "child ow = None" using assms(1) step_start(1) by (auto simp: owner_invs)
  then show ?thesis
    using respawn_inv [of spec e ow ow'] assms(1) step_start(2) by (simp add: owner_inv_def children_ok_def run_start_def)
next
  case (step_pass p)
  then show ?thesis using assms(1) run_pass_inv by blast
next
  case step_end
  then show ?thesis using assms(1) run_end_inv by blast
qed

interpretation resident: safety "\<lambda>ow. ow = start_owner" "owner_step spec" "owner_inv spec" for spec
  by unfold_locales (auto simp: owner_inv_start intro: owner_inv_step)

section \<open>Waiting ends\<close>







section \<open>Properties of the owner\<close>

text \<open>C7: every request that the owner accepted is either in one of the bounded queues or was
  answered exactly once, and an answer without error holds one vector for each input of that
  request, in the order of the inputs, of the model and dimension of the owner and with finite
  components only.\<close>

theorem embedding_requests_are_answered_once:
  assumes "reach (\<lambda>ow. ow = start_owner) (owner_step spec) ow"
  shows "length (interactive_queue ow) \<le> INTERACTIVE_QUEUE_CAPACITY \<and>
    length (background_queue ow) \<le> BACKGROUND_QUEUE_CAPACITY \<and>
    mset (map task_no (map fst (replies ow) @ interactive_queue ow @ background_queue ow)) = mset [0..<tasks_made ow] \<and>
    (\<forall>(task, r) \<in> set (replies ow). \<forall>vs telemetry. r = Ok (vs, telemetry) \<longrightarrow>
       map ev_id vs = map ei_id (task_inputs task) \<and>
       (\<forall>v \<in> set vs. ev_model_id v = model_id spec \<and> length (ev_values v) = dimension spec \<and> list_all is_finite (ev_values v)))"
  using resident.reach_inv [OF assms] by (auto simp: owner_inv_def accounted_def answers_ok_def vectors_for_def)

text \<open>C26: the status is ready exactly while there is a child that announced itself; every exchange
  with the current child succeeded, so no child is asked again after a request of it failed, was
  cancelled or timed out; and the first 2^64 exchanges carry different request ids.\<close>

theorem failed_child_is_never_reused:
  assumes "reach (\<lambda>ow. ow = start_owner) (owner_step spec) ow"
  shows "(ow_status ow = ResidentEmbeddingStatus.Ready \<longleftrightarrow> child ow \<noteq> None) \<and>
    (\<forall>g. child ow = Some g \<longrightarrow> (\<forall>(g', request_id, success) \<in> set (exchanges ow). g' = g \<longrightarrow> success)) \<and>
    (length (exchanges ow) \<le> 2 ^ 64 \<longrightarrow> distinct (map (fst \<circ> snd) (exchanges ow)))"
proof -
  have inv: "children_ok ow" using resident.reach_inv [OF assms] by (simp add: owner_inv_def)
  have "inj_on (\<lambda>i. (i + 1) mod 2 ^ 64) {0..<n}" if "n \<le> 2 ^ 64" for n :: nat
  proof (rule inj_onI)
    fix i j assume ij: "i \<in> {0..<n}" "j \<in> {0..<n}" "(i + 1) mod 2 ^ 64 = (j + 1) mod 2 ^ 64"
    show "i = j"
    proof (cases "i + 1 = 2 ^ 64 \<or> j + 1 = 2 ^ 64")
      case True
      then show ?thesis using ij that by (cases "i + 1 = 2 ^ 64"; cases "j + 1 = 2 ^ 64") simp_all
    next
      case False
      then have "i + 1 < 2 ^ 64" "j + 1 < 2 ^ 64" using ij(1,2) that by auto
      then show ?thesis using ij(3) by simp
    qed
  qed
  then have "distinct (map (fst \<circ> snd) (exchanges ow))" if "length (exchanges ow) \<le> 2 ^ 64"
    using inv that by (simp add: children_ok_def distinct_map)
  then show ?thesis using inv by (auto simp: children_ok_def)
qed

section \<open>A run of the owner\<close>

definition sample_spec :: ResidentEmbeddingSpec where
  "sample_spec = \<lparr>model_id = [109], dimension = 1, timeout_ms = 5, intra_threads = 1\<rparr>"

definition sample_task :: EmbeddingTask where
  "sample_task = \<lparr>task_no = 0, task_inputs = [\<lparr>ei_id = [97], ei_role = Query, ei_text = [104]\<rparr>], enqueued_at = 0, deadline = 9\<rparr>"

definition sample_polls :: "ResidentResponse \<Rightarrow> poll stream" where
  "sample_polls r = sconst \<lparr>poll_shutdown = False, poll_cell = 0, poll_now = 0, poll_received = Response r\<rparr>"

definition sample_spawn :: spawn_env where
  "sample_spawn = \<lparr>se_outcome = Spawned, se_now = 0, se_polls = sample_polls (ready [109] 1)\<rparr>"

definition sample_pass :: pass where
  "sample_pass = \<lparr>pass_now = 0, pass_spawn = sample_spawn, pass_started = 0, pass_written_ok = True,
     pass_polls = sample_polls (result_with_telemetry 1 [[0]] default_telemetry), pass_done = 0, pass_stopping = False,
     pass_respawn = sample_spawn\<rparr>"

definition sample_idle :: owner where
  "sample_idle = start_owner\<lparr>ow_status := ResidentEmbeddingStatus.Ready, child := Some 0, children_made := 1\<rparr>"

definition sample_queued :: owner where
  "sample_queued = sample_idle\<lparr>cells := (\<lambda>_. 0), tasks_made := 1, interactive_queue := [sample_task]\<rparr>"

definition sample_answered :: owner where
  "sample_answered = sample_queued\<lparr>interactive_queue := [], next_request_id := 2, exchanges := [(0, 1, True)],
     replies := [(sample_task, Ok ([\<lparr>ev_id = [97], ev_model_id = [109], ev_values = [0]\<rparr>], default_telemetry))]\<rparr>"

lemma sample_announced: "await_ready sample_spec 5 (sample_polls (ready [109] 1)) = Some (Ok ())"
  by (subst await_ready.simps)
    (simp add: sample_polls_def Let_def sample_spec_def ready_def validate_identity_def MAX_MODEL_ID_BYTES_def
      encode_utf8_def utf8_char_def)

lemma sample_started: "run_start sample_spec sample_spawn start_owner = Some sample_idle"
proof -
  have "timeout_ms sample_spec = 5" by (simp add: sample_spec_def)
  then show ?thesis
    using sample_announced
    by (simp add: run_start_def respawn_def spawn_child_def sample_spawn_def sample_idle_def set_status_def start_owner_def)
qed

lemma sample_enqueued:
  "enqueue_batch 100 Interactive (task_inputs sample_task) \<lparr>max_inputs = 1, max_text_bytes = 8\<rparr> 9 0 sample_idle = (Ok 0, sample_queued)"
  by (simp add: enqueue_batch_def validate_embedding_inputs_def sample_task_def trim_def trim_start_def trim_end_def
      is_whitespace_def MAX_INPUTS_def sample_idle_def start_owner_def INTERACTIVE_QUEUE_CAPACITY_def sample_queued_def
      fun_upd_idem)

lemma sample_executed:
  "execute_task sample_spec sample_task 1 True 0 0 (sample_polls (result_with_telemetry 1 [[0]] default_telemetry)) =
     Some (Ok ([\<lparr>ev_id = [97], ev_model_id = [109], ev_values = [0]\<rparr>], default_telemetry))"
  by (simp add: execute_task_def validate_request_def request_of_def new_request_def sample_spec_def sample_task_def
      validate_identity_def MAX_MODEL_ID_BYTES_def encode_utf8_def utf8_char_def MAX_INPUTS_def MAX_TEXT_BYTES_def
      await_response.simps [of _ _ _ _ _ "sconst x" for x] Let_def sample_polls_def cancellation_error_def accept_response_def result_with_telemetry_def
      is_finite_def validate_telemetry_def new_vector_def default_telemetry_def)

lemma sample_passed: "run_pass sample_spec sample_pass sample_queued = Some sample_answered"
  using sample_executed
  by (simp add: run_pass_def next_task_def sample_queued_def sample_idle_def start_owner_def cancellation_error_def
      sample_task_def sample_pass_def exchange_def Let_def saturated_micros_def reply_def sample_answered_def)

lemma sample_reached: "reach (\<lambda>ow. ow = start_owner) (owner_step sample_spec) sample_answered"
proof -
  have "owner_step sample_spec start_owner sample_idle"
    by (rule step_start [OF _ sample_started]) (simp add: start_owner_def)
  then have "reach (\<lambda>ow. ow = start_owner) (owner_step sample_spec) sample_idle" by (blast intro: reach_init reach_step)
  then have "reach (\<lambda>ow. ow = start_owner) (owner_step sample_spec) sample_queued"
    using step_enqueue [OF sample_enqueued] by (blast intro: reach_step)
  moreover have "owner_step sample_spec sample_queued sample_answered"
    by (rule step_pass [OF _ _ _ sample_passed]) (simp_all add: sample_queued_def sample_idle_def start_owner_def)
  ultimately show ?thesis by (blast intro: reach_step)
qed

theorem embedding_requests_are_answered_once_witness:
  "mset (map task_no (map fst (replies sample_answered) @ interactive_queue sample_answered @ background_queue sample_answered)) =
     mset [0..<tasks_made sample_answered] \<and> tasks_made sample_answered = 1"
proof
  show "mset (map task_no (map fst (replies sample_answered) @ interactive_queue sample_answered @ background_queue sample_answered)) =
     mset [0..<tasks_made sample_answered]"
    using embedding_requests_are_answered_once [OF sample_reached] by blast
qed (simp add: sample_answered_def sample_queued_def)

theorem failed_child_is_never_reused_witness:
  "ow_status sample_answered = ResidentEmbeddingStatus.Ready \<and> child sample_answered \<noteq> None"
  using failed_child_is_never_reused [OF sample_reached]
  by (simp add: sample_answered_def sample_queued_def sample_idle_def start_owner_def)



end
