(* ===== verification/EmbeddingRuntime.thy ===== *)
theory EmbeddingRuntime
  imports ResidentOwner
begin

text \<open>
  The resident embedding process (\<open>serve_resident\<close> of \<open>crates/embedding-runtime/src/main.rs\<close>):
  it announces itself and answers one frame for each frame it reads.  The model is an argument:
  a function on a state of its own.  The properties compose the process with the frames and with
  its owner: the sequence of answers is the sequence of requests, answered one by one, and the
  owner accepts the answer to its request and to no other.
\<close>

section \<open>Serving\<close>

datatype RuntimeError =
  EnvironmentInvalid | RuntimePackInvalid | RuntimeUnavailable | ModelUnavailable | InputInvalid
| InputBudgetExceeded | IdentityMismatch | InferenceFailed | OutputInvalid

type_synonym 'm batch_model = "'m \<Rightarrow> rtext list \<Rightarrow> (RuntimeError, f32 list list \<times> EmbeddingTelemetry) result \<times> 'm"

definition prefixed_resident_text :: "EmbeddingRole \<Rightarrow> rtext \<Rightarrow> rtext" where
  "prefixed_resident_text role t = (case role of Query \<Rightarrow> lit ''query: '' | Passage \<Rightarrow> lit ''passage: '') @ t"

definition resident_success_response ::
  "'m batch_model \<Rightarrow> 'm \<Rightarrow> EmbedRequest \<Rightarrow> (RuntimeError, ResidentResponse) result \<times> 'm" where
  "resident_success_response infer m request =
     (case infer m (map (\<lambda>input. prefixed_resident_text (ri_role input) (ri_text input)) (er_inputs request)) of
        (Err e, m') \<Rightarrow> (Err e, m')
      | (Ok (vectors, telemetry), m') \<Rightarrow> (Ok (result_with_telemetry (er_request_id request) vectors telemetry), m'))"

text \<open>The answer to a request, and the error with which the process then ends, if any.\<close>

definition serve_reply ::
  "rtext \<Rightarrow> nat \<Rightarrow> 'm batch_model \<Rightarrow> 'm \<Rightarrow> EmbedRequest \<Rightarrow> ResidentResponse \<times> RuntimeError option \<times> 'm" where
  "serve_reply mid dim infer m request =
     (if validate_request request \<noteq> Ok ()
      then (error_response (Some (er_request_id request)) ResidentErrorCode.InvalidRequest False, None, m)
      else if er_model_id request \<noteq> mid \<or> er_dimension request \<noteq> dim
      then (error_response (Some (er_request_id request)) ResidentErrorCode.IdentityMismatch False, None, m)
      else case resident_success_response infer m request of
             (Ok response, m') \<Rightarrow> (response, None, m')
           | (Err e, m') \<Rightarrow> (error_response (Some (er_request_id request)) ResidentErrorCode.InferenceFailed True, Some e, m'))"



section \<open>One answer per request\<close>




definition sample_inference :: "nat batch_model" where
  "sample_inference m ts = (Ok (map (\<lambda>t. [0]) ts, default_telemetry), m + 1)"




lemma sample_request_valid: "validate_request (request_of sample_spec sample_task i) = Ok ()"
  by (simp add: validate_request_def request_of_def new_request_def validate_identity_def sample_spec_def sample_task_def
      MAX_MODEL_ID_BYTES_def MAX_INPUTS_def MAX_TEXT_BYTES_def encode_utf8_def utf8_char_def utf8_len_def)



section \<open>The owner and the process agree\<close>

lemma traverse_vectors:
  "length is = length vs \<Longrightarrow> [] \<notin> set vs \<Longrightarrow>
   traverse (\<lambda>(input, values). new_vector (ei_id input) mid values) (zip is vs) =
     Ok (map2 (\<lambda>input values. \<lparr>ev_id = ei_id input, ev_model_id = mid, ev_values = values\<rparr>) is vs)"
  by (induction "is" vs rule: list_induct2) (auto simp: new_vector_def)

text \<open>C23: for a batch the owner may send, when the model gives one finite vector of the dimension for
  each text, the owner accepts the answer of the process and gets for each input, in order, its
  vector under its own identifier; the same answer to any other request it refuses, and an error of the
  model it sees as a failure of the engine.\<close>

theorem owner_accepts_only_its_answer:
  assumes "validate_request (request_of spec task request_id) = Ok ()"
    and "infer m (map (\<lambda>input. prefixed_resident_text (ei_role input) (ei_text input)) (task_inputs task)) = (outcome, m')"
    and "\<forall>vectors telemetry. outcome = Ok (vectors, telemetry) \<longrightarrow>
      length vectors = length (task_inputs task) \<and> (\<forall>v \<in> set vectors. length v = dimension spec \<and> (\<forall>x \<in> set v. is_finite x)) \<and>
      validate_telemetry telemetry (length (task_inputs task)) = Ok ()"
  defines "answer \<equiv> serve_reply (model_id spec) (dimension spec) infer m (request_of spec task request_id)"
  shows "accept_response spec task request_id wait_us wall_us (fst answer) =
      (case outcome of
         Err _ \<Rightarrow> Err EngineFailed
       | Ok (vectors, telemetry) \<Rightarrow>
           Ok (map2 (\<lambda>input values. \<lparr>ev_id = ei_id input, ev_model_id = model_id spec, ev_values = values\<rparr>) (task_inputs task) vectors,
               telemetry\<lparr>queue_wait_us := wait_us, ipc_wall_us := wall_us\<rparr>)) \<and>
    (\<forall>other. other \<noteq> request_id \<longrightarrow> accept_response spec task other wait_us wall_us (fst answer) = Err EngineFailed)"
proof -
  have sent: "er_model_id (request_of spec task request_id) = model_id spec" "er_dimension (request_of spec task request_id) = dimension spec"
    "er_request_id (request_of spec task request_id) = request_id" "er_schema_version (request_of spec task request_id) = SCHEMA_VERSION"
    "map (\<lambda>input. prefixed_resident_text (ri_role input) (ri_text input)) (er_inputs (request_of spec task request_id)) =
       map (\<lambda>input. prefixed_resident_text (ei_role input) (ei_text input)) (task_inputs task)"
    by (simp_all add: request_of_def new_request_def)
  show ?thesis
  proof (cases outcome)
    case (Inl e)
    then have "fst answer = error_response (Some request_id) ResidentErrorCode.InferenceFailed True"
      using assms(1,2) sent by (simp add: answer_def serve_reply_def resident_success_response_def)
    then show ?thesis using Inl by (simp add: accept_response_def error_response_def)
  next
    case (Inr out)
    then obtain vectors telemetry where out: "outcome = Ok (vectors, telemetry)" by (cases out) simp
    note shape = assms(3) [rule_format, OF out]
    have fst_answer: "fst answer = Result SCHEMA_VERSION request_id vectors telemetry"
      using assms(1,2) out sent by (simp add: answer_def serve_reply_def resident_success_response_def result_with_telemetry_def)
    have "dimension spec \<noteq> 0" using assms(1) sent by (auto simp: validate_request_def validate_identity_def split: if_splits)
    then have "[] \<notin> set vectors" using shape by fastforce
    moreover have "\<not> list_ex (\<lambda>v. length v \<noteq> dimension spec \<or> list_ex (\<lambda>x. \<not> is_finite x) v) vectors"
      using shape by (auto simp: list_ex_iff)
    ultimately show ?thesis using shape out fst_answer by (simp add: accept_response_def traverse_vectors)
  qed
qed

theorem owner_accepts_only_its_answer_witness:
  "accept_response sample_spec sample_task 7 3 4 (fst (serve_reply [109] 1 sample_inference 0 (request_of sample_spec sample_task 7))) =
     Ok ([\<lparr>ev_id = [97], ev_model_id = [109], ev_values = [0]\<rparr>], default_telemetry\<lparr>queue_wait_us := 3, ipc_wall_us := 4\<rparr>)"
proof -
  have infer: "sample_inference 0 (map (\<lambda>input. prefixed_resident_text (ei_role input) (ei_text input)) (task_inputs sample_task)) =
      (Ok ([[0]], default_telemetry), 1)" by (simp add: sample_inference_def sample_task_def)
  have shape: "\<forall>vectors telemetry. Ok ([[0]], default_telemetry) = (Ok (vectors, telemetry) :: (RuntimeError, f32 list list \<times> EmbeddingTelemetry) result) \<longrightarrow>
      length vectors = length (task_inputs sample_task) \<and>
      (\<forall>v \<in> set vectors. length v = dimension sample_spec \<and> (\<forall>x \<in> set v. is_finite x)) \<and>
      validate_telemetry telemetry (length (task_inputs sample_task)) = Ok ()"
    by (auto simp: sample_task_def sample_spec_def is_finite_def validate_telemetry_def)
  show ?thesis
    using owner_accepts_only_its_answer [where infer = sample_inference and m = 0, OF sample_request_valid [of 7] infer shape, of 3 4]
    by (simp add: sample_spec_def sample_task_def)
qed

end
