(* ===== verification/PublicationStore.thy ===== *)
theory PublicationStore
  imports Publication
begin

text \<open>
  The tables of the metadata store that the publication protocol reads and writes, as one record; the
  triggers that act on them (\<open>crates/meta-store/src/schema_v27/search_publication.rs\<close>,
  \<open>schema_v29.rs\<close>, \<open>schema_v29_publication_retirement.rs\<close>); the barrier of a migration rebuild
  (\<open>migration_rebuild_barrier.rs\<close>) and the authority of a publication
  (\<open>search_publication/authority.rs\<close>).  An operation maps a store to a result; an error stands for a
  transaction that is rolled back, so it carries no store.
\<close>

section \<open>Tables\<close>

datatype artifact_expectation = ExpectNone | MayExist | Published

datatype retirement_phase = RetirementPending | RetirementComplete

record retirement_plan =
  rp_fulltext :: artifact_expectation
  rp_vector :: artifact_expectation

record retirement_row =
  rt_generation :: string
  rt_phase :: retirement_phase
  rt_plan :: retirement_plan
  rt_fulltext_complete :: bool
  rt_vector_complete :: bool
  rt_created_at :: int
  rt_updated_at :: int

record repair_context =
  rc_key :: artifact_repair_key
  rc_classifier_epoch :: string
  rc_projection_digest :: string
  rc_projection_count :: nat
  rc_vector :: vector_snapshot_mode
  rc_created_at :: int

datatype attempt_phase = Running | RetryWait | Terminal

datatype artifact_error_kind =
  FullTextPublicationBusy | FullTextFailure | VectorPublicationBusy | VectorFailure | MetadataFailure
  | Cleanup | Interrupted

record artifact_attempt_row =
  aa_key :: artifact_repair_key
  aa_id :: string
  aa_count :: nat
  aa_phase :: attempt_phase
  aa_started_at :: int
  aa_next_retry :: "int option"
  aa_error :: "artifact_error_kind option"
  aa_updated_at :: int

datatype migration_error_class =
  ClassFullText | ClassVector | ClassMetadata | ClassCleanup | ClassInterrupted

record migration_attempt_row =
  ma_contract :: string
  ma_digest :: string
  ma_id :: string
  ma_count :: nat
  ma_phase :: attempt_phase
  ma_started_at :: int
  ma_next_retry :: "int option"
  ma_error :: "migration_error_class option"
  ma_updated_at :: int

record active_row =
  ar_projection :: active_projection
  ar_generation :: string
  ar_document :: document

text \<open>A resume version with the columns of its source revision, its classifications and its seal.\<close>

record version_row =
  rv_id :: string
  rv_document :: string
  rv_content_hash :: string
  rv_byte_size :: nat
  rv_resume_candidate_at :: "string list"
  rv_mention_count :: nat
  rv_candidate :: "string option"
  rv_seal :: "(int \<times> nat \<times> string option) option"

text \<open>
  A row of the query over the active import roots: the latest task of the root with its scope, its
  bindings and its completion, each column as the outer joins give it.
\<close>

record root_task =
  tk_rowid :: int
  tk_id :: string
  tk_status :: string
  tk_cancelled :: bool
  tk_scan_errors :: "int option"
  tk_budget_exhausted :: "int option"
  tk_budget_kind :: "string option"
  tk_budget_limit :: "int option"
  tk_budget_observed :: "int option"
  tk_binding :: "string option"
  tk_purpose :: "string option"
  tk_completion_rowid :: "int option"
  tk_completion_contract :: "string option"
  tk_disposition_count :: "int option"
  tk_manifest :: "string option"
  tk_files_discovered :: "int option"

record root_row =
  rr_rowid :: int
  rr_latest_task :: "root_task option"

text \<open>
  \<open>ps_unfinished\<close> is the answer of the query for an unfinished task in scope; it, the roots, the
  documents and the versions belong to the import side, which changes them between transactions.
\<close>

record pub_store =
  ps_head :: head_row
  ps_journal :: "journal_row list"
  ps_active :: "active_row list"
  ps_retirements :: "retirement_row list"
  ps_context :: "repair_context option"
  ps_attempt :: "artifact_attempt_row option"
  ps_migration :: "migration_attempt_row option"
  ps_active_contract :: "string option"
  ps_documents :: "document list"
  ps_versions :: "version_row list"
  ps_roots :: "root_row list"
  ps_unfinished :: bool

type_synonym 'a tx = "(store_failure, 'a \<times> pub_store) result"

section \<open>Rows by key\<close>

abbreviation jr_generation :: "journal_row \<Rightarrow> string" where
  "jr_generation j \<equiv> pub_generation (jr_publication j)"

definition journal_row_of :: "pub_store \<Rightarrow> string \<Rightarrow> journal_row option" where
  "journal_row_of s g = find (\<lambda>j. jr_generation j = g) (ps_journal s)"

definition search_publication_in_connection ::
  "hash \<Rightarrow> pub_store \<Rightarrow> string \<Rightarrow> (store_failure, search_publication option) result" where
  "search_publication_in_connection sha s generation =
     (case journal_row_of s generation of None \<Rightarrow> Ok None
      | Some j \<Rightarrow> rbind (read_publication sha (jr_publication j)) (\<lambda>p. Ok (Some p)))"

definition read_authority :: "pub_store \<Rightarrow> string \<Rightarrow> publication_authority option" where
  "read_authority s generation = map_option jr_authority (journal_row_of s generation)"

definition retirement_in_connection :: "pub_store \<Rightarrow> string \<Rightarrow> retirement_row option" where
  "retirement_in_connection s g = find (\<lambda>r. rt_generation r = g) (ps_retirements s)"

definition version_of :: "pub_store \<Rightarrow> string \<Rightarrow> version_row option" where
  "version_of s v = find (\<lambda>r. rv_id r = v) (ps_versions s)"

text \<open>An update of the journal rows of a generation.\<close>

definition on_journal :: "string \<Rightarrow> (search_publication \<Rightarrow> search_publication) \<Rightarrow> pub_store \<Rightarrow> pub_store" where
  "on_journal g f s = s\<lparr>ps_journal := map (\<lambda>j. if jr_generation j = g
     then j\<lparr>jr_publication := f (jr_publication j)\<rparr> else j) (ps_journal s)\<rparr>"

section \<open>The head and its triggers\<close>

text \<open>\<open>artifact_repair_context_head_change_cleanup\<close>: the new head no longer owns the context.\<close>

definition cleanup_due :: "head_row \<Rightarrow> repair_context \<Rightarrow> bool" where
  "cleanup_due h c \<longleftrightarrow>
     hr_service h = ServiceReady \<or>
     hr_generation h \<noteq> Some (rk_generation (rc_key c)) \<or>
     hr_epoch h \<noteq> rk_epoch (rc_key c) \<or>
     hr_service h = ServiceRepairing \<and> hr_reason h \<noteq> Some ArtifactUnavailable \<or>
     hr_service h = ServiceRepairBlocked \<and> hr_reason h \<noteq> Some RuntimeInvariant"

text \<open>Deleting the context deletes the attempt that refers to it.\<close>

definition delete_context :: "pub_store \<Rightarrow> pub_store" where
  "delete_context s =
     (case ps_context s of None \<Rightarrow> s
      | Some c \<Rightarrow> s\<lparr>ps_context := None,
          ps_attempt := (case ps_attempt s of None \<Rightarrow> None
            | Some a \<Rightarrow> if aa_key a = rc_key c then None else Some a)\<rparr>)"

text \<open>An update of the head row with the two triggers that run after it.\<close>

definition update_head :: "head_row \<Rightarrow> pub_store \<Rightarrow> pub_store" where
  "update_head h s =
     (let s1 = s\<lparr>ps_head := h\<rparr>;
          s2 = (case ps_context s of None \<Rightarrow> s1 | Some c \<Rightarrow> if cleanup_due h c then delete_context s1 else s1)
      in if hr_service h = ServiceReady then s2\<lparr>ps_migration := None\<rparr> else s2)"

text \<open>
  The update all fail-closed transitions share: the service state and the reason change, the
  generation and the epoch stay, the time does not go back.
\<close>

definition set_service :: "service_state \<Rightarrow> search_repair_reason \<Rightarrow> int \<Rightarrow> pub_store \<Rightarrow> pub_store" where
  "set_service st reason now s =
     (let h = ps_head s
      in update_head (h\<lparr>hr_service := st, hr_reason := Some reason,
           hr_updated_at := max (hr_updated_at h) now\<rparr>) s)"

definition unpublished_migration_head :: "pub_store \<Rightarrow> bool" where
  "unpublished_migration_head s \<longleftrightarrow>
     hr_service (ps_head s) = ServiceRepairing \<and> hr_reason (ps_head s) = Some MigrationRebuild \<and>
     hr_generation (ps_head s) = None"

definition artifact_repair_head :: "pub_store \<Rightarrow> string \<Rightarrow> nat \<Rightarrow> bool" where
  "artifact_repair_head s generation epoch \<longleftrightarrow>
     hr_service (ps_head s) = ServiceRepairing \<and> hr_reason (ps_head s) = Some ArtifactUnavailable \<and>
     hr_generation (ps_head s) = Some generation \<and> hr_epoch (ps_head s) = epoch"

definition runtime_blocked_head :: "pub_store \<Rightarrow> string option \<Rightarrow> nat \<Rightarrow> bool" where
  "runtime_blocked_head s generation epoch \<longleftrightarrow>
     hr_service (ps_head s) = ServiceRepairBlocked \<and> hr_reason (ps_head s) = Some RuntimeInvariant \<and>
     hr_generation (ps_head s) = generation \<and> hr_epoch (ps_head s) = epoch"

section \<open>The barrier of a migration rebuild\<close>

record root_head =
  rh_root_rowid :: int
  rh_task_rowid :: int
  rh_task_id :: string
  rh_completion_rowid :: int
  rh_manifest :: string

record barrier_token =
  bt_generation :: "string option"
  bt_epoch :: nat
  bt_contract :: string
  bt_roots :: "root_head list"

datatype head_authority = AuthorityRepairing | AuthorityTerminalBlocked

definition be_bytes64 :: "int \<Rightarrow> nat list" where
  "be_bytes64 v = rev (le_bytes64 v)"

definition identity_field :: "string \<Rightarrow> nat list" where
  "identity_field value = be_bytes64 (int (length value)) @ bytes value"

definition identity_message :: "barrier_token \<Rightarrow> nat list" where
  "identity_message t =
     identity_field (bt_contract t) @
     identity_field (case bt_generation t of None \<Rightarrow> ''<unpublished>'' | Some g \<Rightarrow> g) @
     be_bytes64 (int (bt_epoch t)) @ be_bytes64 (int (length (bt_roots t))) @
     concat (map (\<lambda>h. be_bytes64 (rh_root_rowid h) @ be_bytes64 (rh_task_rowid h) @
       identity_field (rh_task_id h) @ be_bytes64 (rh_completion_rowid h) @ identity_field (rh_manifest h))
       (bt_roots t))"

definition identity_digest :: "hash \<Rightarrow> barrier_token \<Rightarrow> string" where
  "identity_digest sha t = content_digest sha (identity_message t)"

text \<open>The loop body over one root: no head of the root means no barrier.\<close>

definition root_head_of :: "string \<Rightarrow> root_row \<Rightarrow> root_head option" where
  "root_head_of contract r =
     (case rr_latest_task r of None \<Rightarrow> None
      | Some t \<Rightarrow>
          if tk_status t \<noteq> ''completed'' \<or> tk_cancelled t \<or> tk_scan_errors t \<noteq> Some 0 \<or>
             tk_budget_exhausted t \<noteq> Some 0 \<or> tk_budget_kind t \<noteq> None \<or> tk_budget_limit t \<noteq> None \<or>
             tk_budget_observed t \<noteq> None \<or> tk_binding t \<noteq> Some contract \<or> tk_purpose t \<noteq> Some contract \<or>
             tk_completion_contract t \<noteq> Some contract \<or> tk_disposition_count t \<noteq> tk_files_discovered t
          then None
          else case (tk_completion_rowid t, tk_manifest t) of
              (Some completion, Some manifest) \<Rightarrow>
                Some \<lparr> rh_root_rowid = rr_rowid r, rh_task_rowid = tk_rowid t, rh_task_id = tk_id t,
                       rh_completion_rowid = completion, rh_manifest = manifest \<rparr>
            | _ \<Rightarrow> None)"

fun root_heads :: "string \<Rightarrow> root_row list \<Rightarrow> root_head list option" where
  "root_heads contract [] = Some []"
| "root_heads contract (r # rs) =
     (case root_head_of contract r of None \<Rightarrow> None
      | Some h \<Rightarrow> map_option ((#) h) (root_heads contract rs))"

fun exact_head_authority :: "head_authority \<Rightarrow> head_row \<Rightarrow> bool" where
  "exact_head_authority AuthorityRepairing h \<longleftrightarrow>
     hr_service h = ServiceRepairing \<and> hr_reason h = Some MigrationRebuild"
| "exact_head_authority AuthorityTerminalBlocked h \<longleftrightarrow>
     hr_service h = ServiceRepairBlocked \<and> hr_reason h = Some RuntimeInvariant"

definition barrier_token_in_connection :: "pub_store \<Rightarrow> string \<Rightarrow> head_authority \<Rightarrow> barrier_token option" where
  "barrier_token_in_connection s contract authority =
     (let h = ps_head s
      in if \<not> exact_head_authority authority h \<or> hr_generation h \<noteq> None \<or> ps_active_contract s \<noteq> Some contract
         then None
         else if ps_unfinished s then None
         else map_option (\<lambda>roots. \<lparr> bt_generation = hr_generation h, bt_epoch = hr_epoch h,
                bt_contract = contract, bt_roots = roots \<rparr>) (root_heads contract (ps_roots s)))"

definition barrier_token_matches :: "pub_store \<Rightarrow> barrier_token \<Rightarrow> bool" where
  "barrier_token_matches s t \<longleftrightarrow>
     barrier_token_in_connection s (bt_contract t) AuthorityRepairing = Some t"

definition barrier_digest_matches :: "hash \<Rightarrow> pub_store \<Rightarrow> string \<Rightarrow> string \<Rightarrow> bool" where
  "barrier_digest_matches sha s contract digest \<longleftrightarrow>
     (case barrier_token_in_connection s contract AuthorityRepairing of None \<Rightarrow> False
      | Some t \<Rightarrow> identity_digest sha t = digest)"

definition terminal_block_token_matches :: "pub_store \<Rightarrow> barrier_token \<Rightarrow> bool" where
  "terminal_block_token_matches s t \<longleftrightarrow>
     barrier_token_in_connection s (bt_contract t) AuthorityTerminalBlocked = Some t"

definition terminal_block_digest_matches :: "hash \<Rightarrow> pub_store \<Rightarrow> string \<Rightarrow> string \<Rightarrow> bool" where
  "terminal_block_digest_matches sha s contract digest \<longleftrightarrow>
     (case barrier_token_in_connection s contract AuthorityTerminalBlocked of None \<Rightarrow> False
      | Some t \<Rightarrow> identity_digest sha t = digest)"

section \<open>The authority of a publication\<close>

text \<open>An epoch as a column value: \<open>i64::try_from\<close> with the storage invariant as its error.\<close>

definition epoch_i64 :: "nat \<Rightarrow> (store_failure, nat) result" where
  "epoch_i64 e = (if e \<le> i64_max then Ok e else Err InvariantFailed)"

definition context_matches :: "pub_store \<Rightarrow> artifact_repair_key \<Rightarrow> bool" where
  "context_matches s key \<longleftrightarrow> (case ps_context s of None \<Rightarrow> False | Some c \<Rightarrow> rc_key c = key)"

definition running_migration_authority ::
  "hash \<Rightarrow> pub_store \<Rightarrow> string option \<Rightarrow> publication_authority option" where
  "running_migration_authority sha s active =
     (case (active, ps_migration s) of
        (Some attempt_id, Some m) \<Rightarrow>
          if ma_phase m = Running \<and> ma_id m = attempt_id \<and> barrier_digest_matches sha s (ma_contract m) (ma_digest m)
          then Some (MigrationRebuildAuthority (ma_contract m) (ma_digest m) (ma_id m) (ma_count m))
          else None
      | _ \<Rightarrow> None)"

definition running_artifact_authority ::
  "pub_store \<Rightarrow> string option \<Rightarrow> string option \<Rightarrow> nat \<Rightarrow> publication_authority option" where
  "running_artifact_authority s active generation visible_epoch =
     (case (active, ps_attempt s) of
        (Some attempt_id, Some a) \<Rightarrow>
          if context_matches s (aa_key a) \<and> aa_phase a = Running \<and> aa_id a = attempt_id \<and>
             Some (rk_generation (aa_key a)) = generation \<and> rk_epoch (aa_key a) = visible_epoch
          then Some (ArtifactRepairAuthority (aa_key a) (aa_id a) (aa_count a))
          else None
      | _ \<Rightarrow> None)"

definition authority_for_begin ::
  "hash \<Rightarrow> pub_store \<Rightarrow> string option \<Rightarrow> publication_draft \<Rightarrow>
   (store_failure, publication_authority option) result" where
  "authority_for_begin sha s active draft =
     (let h = ps_head s
      in if dr_expected_epoch draft > i64_max then Err (Failed InvalidDescriptor)
         else if hr_generation h \<noteq> dr_base_generation draft \<or> hr_epoch h \<noteq> dr_expected_epoch draft then Ok None
         else if hr_service h = ServiceReady \<and> hr_reason h = None \<and> hr_generation h \<noteq> None
         then Ok (Some CurrentHead)
         else if hr_service h = ServiceRepairing \<and> hr_reason h = Some MigrationRebuild \<and> hr_generation h = None
         then Ok (running_migration_authority sha s active)
         else if hr_service h = ServiceRepairing \<and> hr_reason h = Some ArtifactUnavailable \<and> hr_generation h \<noteq> None
         then Ok (running_artifact_authority s active (hr_generation h) (hr_epoch h))
         else Ok None)"

definition current_ready_head_matches :: "pub_store \<Rightarrow> bool" where
  "current_ready_head_matches s \<longleftrightarrow>
     hr_service (ps_head s) = ServiceReady \<and> hr_reason (ps_head s) = None \<and> hr_generation (ps_head s) \<noteq> None"

definition exact_running_migration_attempt :: "pub_store \<Rightarrow> string \<Rightarrow> string \<Rightarrow> string \<Rightarrow> nat \<Rightarrow> bool" where
  "exact_running_migration_attempt s contract digest attempt_id attempt_count \<longleftrightarrow>
     (case ps_migration s of None \<Rightarrow> False
      | Some m \<Rightarrow> ma_contract m = contract \<and> ma_digest m = digest \<and> ma_id m = attempt_id \<and>
          ma_count m = attempt_count \<and> ma_phase m = Running)"

definition exact_attempt :: "pub_store \<Rightarrow> artifact_repair_key \<Rightarrow> string \<Rightarrow> nat \<Rightarrow> attempt_phase \<Rightarrow> bool" where
  "exact_attempt s key attempt_id attempt_count phase \<longleftrightarrow>
     (case ps_attempt s of None \<Rightarrow> False
      | Some a \<Rightarrow> aa_key a = key \<and> aa_id a = attempt_id \<and> aa_count a = attempt_count \<and> aa_phase a = phase)"

definition exact_running_artifact_attempt ::
  "pub_store \<Rightarrow> artifact_repair_key \<Rightarrow> string \<Rightarrow> nat \<Rightarrow> (store_failure, bool) result" where
  "exact_running_artifact_attempt s key attempt_id attempt_count =
     rbind (epoch_i64 (rk_epoch key)) (\<lambda>epoch.
       Ok (exact_attempt s key attempt_id attempt_count Running \<and> context_matches s key \<and>
           artifact_repair_head s (rk_generation key) epoch))"

definition exact_blocked_current_head :: "pub_store \<Rightarrow> string option \<Rightarrow> nat \<Rightarrow> (store_failure, bool) result" where
  "exact_blocked_current_head s generation visible_epoch =
     rbind (epoch_i64 visible_epoch) (\<lambda>epoch. Ok (runtime_blocked_head s generation epoch))"

definition exact_terminal_migration_cleanup_authority ::
  "hash \<Rightarrow> pub_store \<Rightarrow> string \<Rightarrow> string \<Rightarrow> string \<Rightarrow> nat \<Rightarrow> bool" where
  "exact_terminal_migration_cleanup_authority sha s contract digest attempt_id attempt_count \<longleftrightarrow>
     terminal_block_digest_matches sha s contract digest \<and>
     (case ps_migration s of None \<Rightarrow> False
      | Some m \<Rightarrow> ma_contract m = contract \<and> ma_digest m = digest \<and> ma_id m = attempt_id \<and>
          ma_count m = attempt_count \<and> ma_phase m = Terminal \<and> ma_next_retry m = None \<and>
          ma_error m = Some ClassCleanup)"

definition exact_terminal_artifact_cleanup_authority ::
  "pub_store \<Rightarrow> artifact_repair_key \<Rightarrow> string \<Rightarrow> nat \<Rightarrow> (store_failure, bool) result" where
  "exact_terminal_artifact_cleanup_authority s key attempt_id attempt_count =
     rbind (epoch_i64 (rk_epoch key)) (\<lambda>epoch.
       Ok (exact_attempt s key attempt_id attempt_count Terminal \<and>
           (case ps_attempt s of None \<Rightarrow> False | Some a \<Rightarrow> aa_next_retry a = None \<and> aa_error a = Some Cleanup) \<and>
           context_matches s key \<and> runtime_blocked_head s (Some (rk_generation key)) epoch))"

definition authority_matches_commit ::
  "hash \<Rightarrow> pub_store \<Rightarrow> string \<Rightarrow> barrier_token option \<Rightarrow> (store_failure, bool) result" where
  "authority_matches_commit sha s generation barrier =
     (case (read_authority s generation, barrier) of
        (Some CurrentHead, None) \<Rightarrow> Ok (current_ready_head_matches s)
      | (Some (MigrationRebuildAuthority contract digest attempt_id attempt_count), Some t) \<Rightarrow>
          Ok (identity_digest sha t = digest \<and> barrier_token_matches s t \<and>
              exact_running_migration_attempt s contract digest attempt_id attempt_count)
      | (Some (ArtifactRepairAuthority key attempt_id attempt_count), None) \<Rightarrow>
          exact_running_artifact_attempt s key attempt_id attempt_count
      | _ \<Rightarrow> Ok False)"

end
