(* ===== verification/PublicationOps.thy ===== *)
theory PublicationOps
  imports PublicationStore
begin

text \<open>
  The operations of a publication session: beginning, validating and committing a publication, the
  retention and the pruning of the journal (\<open>crates/meta-store/src/search_publication/store.rs\<close>,
  \<open>validation.rs\<close>, \<open>retention.rs\<close>), and retiring an abandoned publication with the settlement of a
  failed cleanup (\<open>retirement.rs\<close>, \<open>retirement_settlement.rs\<close>).
\<close>

section \<open>Retirement of a publication\<close>

definition SEARCH_PUBLICATION_RETIREMENT_REPLAY_LIMIT :: nat where
  "SEARCH_PUBLICATION_RETIREMENT_REPLAY_LIMIT = 64"

definition plan_none :: retirement_plan where
  "plan_none = \<lparr> rp_fulltext = ExpectNone, rp_vector = ExpectNone \<rparr>"

definition retirement_order :: "retirement_row \<Rightarrow> int \<times> nat list" where
  "retirement_order r = (rt_updated_at r, bytes (rt_generation r))"

definition pending_retirements :: "pub_store \<Rightarrow> (store_failure, retirement_row list) result" where
  "pending_retirements s =
     (let rows = take (SEARCH_PUBLICATION_RETIREMENT_REPLAY_LIMIT + 1)
        (sort_key retirement_order (filter (\<lambda>r. rt_phase r = RetirementPending) (ps_retirements s)))
      in if length rows > SEARCH_PUBLICATION_RETIREMENT_REPLAY_LIMIT
         then Err (Failed InvalidPersistedState) else Ok rows)"

definition ensure_no_pending_retirement :: "pub_store \<Rightarrow> (store_failure, unit) result" where
  "ensure_no_pending_retirement s =
     rbind (pending_retirements s) (\<lambda>rows. if rows \<noteq> [] then Err (Failed InvalidState) else Ok ())"

definition set_publication_state :: "search_publication_state \<Rightarrow> int \<Rightarrow> search_publication \<Rightarrow> search_publication" where
  "set_publication_state st now p = p\<lparr>pub_state := st, pub_updated_at := now\<rparr>"

definition new_retirement :: "string \<Rightarrow> int \<Rightarrow> retirement_plan \<Rightarrow> retirement_row" where
  "new_retirement generation now plan =
     (let fulltext_complete = (rp_fulltext plan = ExpectNone);
          vector_complete = (rp_vector plan = ExpectNone)
      in \<lparr> rt_generation = generation,
           rt_phase = (if fulltext_complete \<and> vector_complete then RetirementComplete else RetirementPending),
           rt_plan = plan, rt_fulltext_complete = fulltext_complete, rt_vector_complete = vector_complete,
           rt_created_at = now, rt_updated_at = now \<rparr>)"

definition begin_retirement_in_connection ::
  "hash \<Rightarrow> string \<Rightarrow> int \<Rightarrow> retirement_plan \<Rightarrow> pub_store \<Rightarrow> (store_failure, pub_store) result" where
  "begin_retirement_in_connection sha generation now plan s =
     rbind (search_publication_in_connection sha s generation) (\<lambda>found.
     rbind (ok_or (Failed InvalidState) found) (\<lambda>publication.
     if pub_state publication = Ready then Err (Failed InvalidState)
     else case retirement_in_connection s generation of
         Some existing \<Rightarrow>
           if rt_plan existing = plan \<and> pub_state publication = Abandoned then Ok s
           else Err (Failed InvalidState)
       | None \<Rightarrow>
           if now < 0 then Err Aborted
           else
             let s1 = s\<lparr>ps_retirements := ps_retirements s @ [new_retirement generation now plan]\<rparr>
             in if pub_state publication \<noteq> Abandoned
                then Ok (on_journal generation (set_publication_state Abandoned now) s1)
                else Ok s1))"

definition begin_search_publication_retirement ::
  "hash \<Rightarrow> string \<Rightarrow> int \<Rightarrow> retirement_plan \<Rightarrow> pub_store \<Rightarrow> unit tx" where
  "begin_search_publication_retirement sha generation now plan s =
     rbind (begin_retirement_in_connection sha generation now plan s) (\<lambda>s'. Ok ((), s'))"

definition abandon_search_publication :: "hash \<Rightarrow> string \<Rightarrow> int \<Rightarrow> pub_store \<Rightarrow> unit tx" where
  "abandon_search_publication sha generation now s =
     begin_search_publication_retirement sha generation now plan_none s"

datatype retirement_artifact = ArtifactFullText | ArtifactVector

fun artifact_complete :: "retirement_artifact \<Rightarrow> retirement_row \<Rightarrow> bool" where
  "artifact_complete ArtifactFullText r = rt_fulltext_complete r"
| "artifact_complete ArtifactVector r = rt_vector_complete r"

fun complete_artifact :: "retirement_artifact \<Rightarrow> int \<Rightarrow> retirement_row \<Rightarrow> retirement_row" where
  "complete_artifact ArtifactFullText now r =
     r\<lparr>rt_fulltext_complete := True,
       rt_phase := (if rt_vector_complete r then RetirementComplete else RetirementPending),
       rt_updated_at := max (rt_updated_at r) now\<rparr>"
| "complete_artifact ArtifactVector now r =
     r\<lparr>rt_vector_complete := True,
       rt_phase := (if rt_fulltext_complete r then RetirementComplete else RetirementPending),
       rt_updated_at := max (rt_updated_at r) now\<rparr>"

text \<open>
  The completion guard of the transaction demands an abandoned publication and a time that is not
  negative; what else its triggers demand, the code has just checked.
\<close>

definition complete_search_publication_retirement_artifact ::
  "string \<Rightarrow> retirement_artifact \<Rightarrow> int \<Rightarrow> pub_store \<Rightarrow> unit tx" where
  "complete_search_publication_retirement_artifact generation artifact now s =
     rbind (ok_or (Failed InvalidState) (retirement_in_connection s generation)) (\<lambda>existing.
     if artifact_complete artifact existing then Ok ((), s)
     else if rt_phase existing \<noteq> RetirementPending then Err (Failed InvalidState)
     else if now < 0 \<or> (case journal_row_of s generation of None \<Rightarrow> True
                         | Some j \<Rightarrow> pub_state (jr_publication j) \<noteq> Abandoned) then Err Aborted
     else Ok ((), s\<lparr>ps_retirements := map (\<lambda>r. if rt_generation r = generation
            then complete_artifact artifact now r else r) (ps_retirements s)\<rparr>))"

definition retirement_is_pending :: "pub_store \<Rightarrow> string \<Rightarrow> bool" where
  "retirement_is_pending s generation \<longleftrightarrow>
     (case retirement_in_connection s generation of None \<Rightarrow> False | Some r \<Rightarrow> rt_phase r = RetirementPending)"

section \<open>Settling a failed retirement\<close>

datatype retirement_failure_outcome = HeadBlocked | ExactHeadAlreadyBlocked | HeadSuperseded

definition block_current_head :: "string option \<Rightarrow> nat \<Rightarrow> int \<Rightarrow> pub_store \<Rightarrow> bool tx" where
  "block_current_head generation visible_epoch now s =
     rbind (epoch_i64 visible_epoch) (\<lambda>epoch.
       let h = ps_head s
       in if hr_service h = ServiceReady \<and> hr_reason h = None \<and> hr_generation h = generation \<and> hr_epoch h = epoch
          then Ok (True, set_service ServiceRepairBlocked RuntimeInvariant now s)
          else Ok (False, s))"

definition settle_migration_attempt :: "string \<Rightarrow> string \<Rightarrow> string \<Rightarrow> nat \<Rightarrow> int \<Rightarrow> pub_store \<Rightarrow> bool tx" where
  "settle_migration_attempt contract digest attempt_id attempt_count now s =
     (if exact_running_migration_attempt s contract digest attempt_id attempt_count
      then if now < 0 then Err Aborted
        else Ok (True, s\<lparr>ps_migration := map_option (\<lambda>m. m\<lparr>ma_phase := Terminal, ma_next_retry := None,
               ma_error := Some ClassCleanup, ma_updated_at := now\<rparr>) (ps_migration s)\<rparr>)
      else Ok (False, s))"

definition block_migration_head :: "string \<Rightarrow> int \<Rightarrow> pub_store \<Rightarrow> bool \<times> pub_store" where
  "block_migration_head contract now s =
     (if unpublished_migration_head s \<and> ps_active_contract s = Some contract
      then (True, set_service ServiceRepairBlocked RuntimeInvariant now s) else (False, s))"

definition settle_artifact_attempt :: "artifact_repair_key \<Rightarrow> string \<Rightarrow> nat \<Rightarrow> int \<Rightarrow> pub_store \<Rightarrow> bool tx" where
  "settle_artifact_attempt key attempt_id attempt_count now s =
     rbind (epoch_i64 (rk_epoch key)) (\<lambda>_.
     if exact_attempt s key attempt_id attempt_count Running
      then if now < 0 then Err Aborted
        else Ok (True, s\<lparr>ps_attempt := map_option (\<lambda>a. a\<lparr>aa_phase := Terminal, aa_next_retry := None,
               aa_error := Some Cleanup, aa_updated_at := now\<rparr>) (ps_attempt s)\<rparr>)
      else Ok (False, s))"

definition block_artifact_head :: "artifact_repair_key \<Rightarrow> int \<Rightarrow> pub_store \<Rightarrow> bool tx" where
  "block_artifact_head key now s =
     rbind (epoch_i64 (rk_epoch key)) (\<lambda>epoch.
     if artifact_repair_head s (rk_generation key) epoch \<and> context_matches s key
     then Ok (True, set_service ServiceRepairBlocked RuntimeInvariant now s) else Ok (False, s))"

text \<open>
  The three branches of the settlement.  Where an update changes no row the transaction is rolled
  back and the head counts as superseded.
\<close>

definition settle_current_head :: "search_publication \<Rightarrow> int \<Rightarrow> pub_store \<Rightarrow> retirement_failure_outcome tx" where
  "settle_current_head publication now s =
     rbind (block_current_head (pub_base_generation publication) (pub_expected_visible_epoch publication) now s)
       (\<lambda>(blocked, s1).
     if blocked then Ok (HeadBlocked, s1)
     else rbind (exact_blocked_current_head s1 (pub_base_generation publication)
            (pub_expected_visible_epoch publication)) (\<lambda>already.
       Ok (if already then ExactHeadAlreadyBlocked else HeadSuperseded, s1)))"

definition settle_migration ::
  "hash \<Rightarrow> search_publication \<Rightarrow> string \<Rightarrow> string \<Rightarrow> string \<Rightarrow> nat \<Rightarrow> int \<Rightarrow> pub_store \<Rightarrow>
   retirement_failure_outcome tx" where
  "settle_migration sha publication contract digest attempt_id attempt_count now s =
     rbind (if pub_base_generation publication = None
            then exact_blocked_current_head s None (pub_expected_visible_epoch publication) else Ok False)
       (\<lambda>blocked.
     if blocked \<and> exact_terminal_migration_cleanup_authority sha s contract digest attempt_id attempt_count
     then Ok (ExactHeadAlreadyBlocked, s)
     else if \<not> barrier_digest_matches sha s contract digest \<or>
             \<not> exact_running_migration_attempt s contract digest attempt_id attempt_count
     then Ok (HeadSuperseded, s)
     else rbind (settle_migration_attempt contract digest attempt_id attempt_count now s) (\<lambda>(settled, s1).
       if \<not> settled then Ok (HeadSuperseded, s)
       else let (head_blocked, s2) = block_migration_head contract now s1
            in if \<not> head_blocked then Ok (HeadSuperseded, s) else Ok (HeadBlocked, s2)))"

definition settle_artifact ::
  "search_publication \<Rightarrow> artifact_repair_key \<Rightarrow> string \<Rightarrow> nat \<Rightarrow> int \<Rightarrow> pub_store \<Rightarrow>
   retirement_failure_outcome tx" where
  "settle_artifact publication key attempt_id attempt_count now s =
     rbind (if pub_base_generation publication = Some (rk_generation key) \<and>
               pub_expected_visible_epoch publication = rk_epoch key
            then exact_terminal_artifact_cleanup_authority s key attempt_id attempt_count else Ok False)
       (\<lambda>already.
     if already then Ok (ExactHeadAlreadyBlocked, s)
     else rbind (exact_running_artifact_attempt s key attempt_id attempt_count) (\<lambda>running.
     if \<not> running then Ok (HeadSuperseded, s)
     else rbind (settle_artifact_attempt key attempt_id attempt_count now s) (\<lambda>(settled, s1).
       if \<not> settled then Ok (HeadSuperseded, s)
       else rbind (block_artifact_head key now s1) (\<lambda>(head_blocked, s2).
         if \<not> head_blocked then Ok (HeadSuperseded, s) else Ok (HeadBlocked, s2)))))"

definition settle_search_publication_retirement_failure ::
  "hash \<Rightarrow> string \<Rightarrow> int \<Rightarrow> pub_store \<Rightarrow> retirement_failure_outcome tx" where
  "settle_search_publication_retirement_failure sha generation now s =
     (if \<not> retirement_is_pending s generation then Err (Failed InvalidState)
      else rbind (search_publication_in_connection sha s generation) (\<lambda>found.
      rbind (ok_or (Failed InvalidState) found) (\<lambda>publication.
      if pub_state publication \<noteq> Abandoned then Err (Failed InvalidState)
      else rbind (ok_or (Failed InvalidPersistedState) (read_authority s generation)) (\<lambda>authority.
        case authority of
          CurrentHead \<Rightarrow> settle_current_head publication now s
        | MigrationRebuildAuthority contract digest attempt_id attempt_count \<Rightarrow>
            settle_migration sha publication contract digest attempt_id attempt_count now s
        | ArtifactRepairAuthority key attempt_id attempt_count \<Rightarrow>
            settle_artifact publication key attempt_id attempt_count now s))))"

section \<open>Beginning and validating a publication\<close>

datatype publication_outcome = Applied | Superseded

text \<open>What the columns and the insert trigger of the authority demand.\<close>

fun authority_storage :: "publication_authority \<Rightarrow> (store_failure, unit) result" where
  "authority_storage CurrentHead = Ok ()"
| "authority_storage (MigrationRebuildAuthority contract digest attempt_id attempt_count) = Ok ()"
| "authority_storage (ArtifactRepairAuthority key attempt_id attempt_count) =
     rbind (epoch_i64 (rk_epoch key)) (\<lambda>_. Ok ())"

fun authority_insertable :: "publication_authority \<Rightarrow> bool" where
  "authority_insertable CurrentHead \<longleftrightarrow> True"
| "authority_insertable (MigrationRebuildAuthority contract digest attempt_id attempt_count) \<longleftrightarrow>
     1 \<le> attempt_count \<and> attempt_count \<le> 5"
| "authority_insertable (ArtifactRepairAuthority key attempt_id attempt_count) \<longleftrightarrow>
     1 \<le> attempt_count \<and> attempt_count \<le> 5"

definition drafted :: "publication_draft \<Rightarrow> search_publication" where
  "drafted draft =
     \<lparr> pub_generation = dr_generation draft, pub_base_generation = dr_base_generation draft,
       pub_expected_visible_epoch = dr_expected_epoch draft,
       pub_classifier_epoch = dr_classifier_epoch draft, pub_projection_digest = dr_projection_digest draft,
       pub_fingerprint = None, pub_state = Preparing, pub_fulltext = None, pub_vector = None,
       pub_created_at = dr_now draft, pub_updated_at = dr_now draft \<rparr>"

definition begin_search_publication ::
  "hash \<Rightarrow> string option \<Rightarrow> publication_draft \<Rightarrow> pub_store \<Rightarrow> publication_outcome tx" where
  "begin_search_publication sha active draft s =
     rbind (validate_draft draft) (\<lambda>_.
     rbind (ensure_no_pending_retirement s) (\<lambda>_.
     rbind (authority_for_begin sha s active draft) (\<lambda>found.
     let authority = (case found of None \<Rightarrow> CurrentHead | Some a \<Rightarrow> a) in
     rbind (authority_storage authority) (\<lambda>_.
     rbind (u64_to_i64 (dr_expected_epoch draft)) (\<lambda>_.
     if journal_row_of s (dr_generation draft) \<noteq> None \<or> dr_now draft < 0 \<or> \<not> authority_insertable authority
     then Err Aborted
     else
       let s1 = s\<lparr>ps_journal := ps_journal s @
             [\<lparr> jr_publication = drafted draft, jr_authority = authority \<rparr>]\<rparr>
       in if found = None
          then rbind (begin_retirement_in_connection sha (dr_generation draft) (dr_now draft) plan_none s1)
                 (\<lambda>s2. Ok (Superseded, s2))
          else Ok (Applied, s1))))))"

definition counts_fit :: "publication_validation \<Rightarrow> bool" where
  "counts_fit v \<longleftrightarrow>
     list_all (\<lambda>n. n \<le> i64_max)
       [ftd_document_count (va_fulltext v), vd_projection_count (va_vector v), vd_vector_count (va_vector v),
        vd_document_count (va_vector v), vd_resume_version_count (va_vector v)]"

definition set_validated :: "string \<Rightarrow> publication_validation \<Rightarrow> search_publication \<Rightarrow> search_publication" where
  "set_validated fingerprint v p =
     p\<lparr>pub_state := Validated, pub_fingerprint := Some fingerprint, pub_fulltext := Some (va_fulltext v),
       pub_vector := Some (va_vector v), pub_updated_at := va_now v\<rparr>"

definition validate_search_publication :: "hash \<Rightarrow> publication_validation \<Rightarrow> pub_store \<Rightarrow> unit tx" where
  "validate_search_publication sha v s =
     rbind (validate_descriptors sha v) (\<lambda>_.
     rbind (search_publication_in_connection sha s (va_generation v)) (\<lambda>found.
     rbind (ok_or (Failed InvalidState) found) (\<lambda>publication.
     if pub_state publication \<noteq> Preparing \<or> pub_projection_digest publication \<noteq> ftd_projection_digest (va_fulltext v)
     then Err (Failed InvalidState)
     else if \<not> counts_fit v then Err (Failed InvalidDescriptor)
     else if va_now v < 0 then Err Aborted
     else
       let fingerprint = search_publication_fingerprint sha (pub_classifier_epoch publication)
             (pub_projection_digest publication) (va_fulltext v) (va_vector v)
       in Ok ((), on_journal (va_generation v) (set_validated fingerprint v) s))))"

section \<open>Committing a publication\<close>

text \<open>Collecting pairs into a map keeps the last value of a key.\<close>

definition collect_map :: "('k \<times> 'v) list \<Rightarrow> 'k \<rightharpoonup> 'v" where
  "collect_map kvs = map_of (rev kvs)"

definition is_replacement :: "projected_snapshot option \<Rightarrow> bool" where
  "is_replacement a \<longleftrightarrow> (case a of Some (Replacement p d) \<Rightarrow> True | _ \<Rightarrow> False)"

definition valid_transition ::
  "string option \<Rightarrow> projected_snapshot option \<Rightarrow> string \<Rightarrow> document_status option \<Rightarrow> bool" where
  "valid_transition target_version action current_version terminal_status \<longleftrightarrow>
     (case (target_version, action) of
        (Some v, Some (RetainedUnchanged p)) \<Rightarrow> v = current_version \<and> terminal_status = None
      | (Some v, Some (MetadataChanged p d)) \<Rightarrow> v = current_version \<and> terminal_status = None
      | (Some v, Some (Replacement p d)) \<Rightarrow> v \<noteq> current_version \<and> terminal_status = Some Searchable
      | (None, _) \<Rightarrow> (case terminal_status of None \<Rightarrow> False | Some st \<Rightarrow> is_stable_nonsearch_terminal st)
      | _ \<Rightarrow> False)"

definition validate_projection_transitions ::
  "pub_store \<Rightarrow> publication_commit \<Rightarrow> (string \<rightharpoonup> string) \<Rightarrow> string option \<Rightarrow> (store_failure, unit) result" where
  "validate_projection_transitions s commit target base =
     (let current = map (\<lambda>r. pair_of (ar_projection r)) (ps_active s);
          terminals = collect_map (map (\<lambda>t. (td_document t, td_terminal_status t)) (cm_terminals commit));
          actions = collect_map (map (\<lambda>a. (document_id (snapshot_projection a), a)) (cm_projected commit))
      in if list_ex (\<lambda>r. Some (ar_generation r) \<noteq> base) (ps_active s) then Err (Failed InvalidPersistedState)
         else if \<not> list_all (\<lambda>(d, v). valid_transition (target d) (actions d) v (terminals d)) current
         then Err (Failed InvalidProjectionTransition)
         else if \<not> list_all (\<lambda>p. document_id p \<in> fst ` set current \<or>
                terminals (document_id p) = Some Searchable \<and> is_replacement (actions (document_id p)))
              (cm_projections commit)
         then Err (Failed InvalidProjectionTransition)
         else Ok ())"

definition terminal_content_matches :: "pub_store \<Rightarrow> (string \<rightharpoonup> string) \<Rightarrow> terminal_update \<Rightarrow> bool" where
  "terminal_content_matches s active t \<longleftrightarrow>
     (case active (td_document t) of None \<Rightarrow> False
      | Some v \<Rightarrow> (case version_of s v of None \<Rightarrow> False
          | Some r \<Rightarrow> rv_document r = td_document t \<and> rv_content_hash r = td_expected_content_hash t))"

definition classified_at :: "pub_store \<Rightarrow> string \<Rightarrow> string \<Rightarrow> bool" where
  "classified_at s epoch v \<longleftrightarrow>
     (case version_of s v of None \<Rightarrow> False | Some r \<Rightarrow> epoch \<in> set (rv_resume_candidate_at r))"

definition validate_commit_against_publication ::
  "hash \<Rightarrow> pub_store \<Rightarrow> publication_commit \<Rightarrow> search_publication \<Rightarrow> (store_failure, unit) result" where
  "validate_commit_against_publication sha s commit publication =
     rbind (ok_or (Failed InvalidPersistedState) (pub_fulltext publication)) (\<lambda>fulltext.
     rbind (ok_or (Failed InvalidPersistedState) (pub_vector publication)) (\<lambda>vector.
     rbind (projection_digest sha (cm_projections commit)) (\<lambda>digest.
     if digest \<noteq> pub_projection_digest publication \<or> digest \<noteq> ftd_projection_digest fulltext \<or>
        digest \<noteq> vd_projection_digest vector \<or>
        ftd_document_count fulltext \<noteq> length (cm_projections commit) \<or>
        vd_projection_count vector \<noteq> length (cm_projections commit)
     then Err (Failed ProjectionMismatch)
     else
     rbind (projection_map (cm_projections commit)) (\<lambda>active.
     rbind (projection_map (cm_coverage commit)) (\<lambda>_.
     if list_ex (\<lambda>p. active (document_id p) \<noteq> Some (resume_version_id p)) (cm_coverage commit) \<or>
        length (cm_coverage commit) \<noteq> vd_document_count vector
     then Err (Failed VectorCoverageMismatch)
     else rbind (projection_digest sha (cm_coverage commit)) (\<lambda>coverage_digest.
     if coverage_digest \<noteq> vd_coverage_digest vector
     then Err (Failed VectorCoverageMismatch)
     else
     rbind (validate_projection_transitions s commit active (pub_base_generation publication)) (\<lambda>_.
     if \<not> list_all (terminal_content_matches s active)
          (filter (\<lambda>t. td_terminal_status t = Searchable) (cm_terminals commit))
     then Err (Failed InvalidDocumentState)
     else if cm_projections commit \<noteq> [] \<and> \<not> current_classifier_epoch (pub_classifier_epoch publication)
     then Err InvalidValueFailed
     else if \<not> list_all (\<lambda>p. classified_at s (pub_classifier_epoch publication) (resume_version_id p))
          (cm_projections commit)
     then Err (Failed ExactClassificationMissing)
     else Ok ())))))))"

text \<open>\<open>seal_resume_version\<close>: a seal is written once; later it has to agree.\<close>

definition seal_resume_version :: "int \<Rightarrow> string \<Rightarrow> pub_store \<Rightarrow> (store_failure, pub_store) result" where
  "seal_resume_version now v s =
     (case version_of s v of None \<Rightarrow> Err Aborted
      | Some r \<Rightarrow> (case rv_seal r of
          None \<Rightarrow>
            if now < 0 \<or> 256 < rv_mention_count r then Err InvariantFailed
            else Ok (s\<lparr>ps_versions := map (\<lambda>x. if rv_id x = v
                   then x\<lparr>rv_seal := Some (now, rv_mention_count x, rv_candidate x)\<rparr> else x) (ps_versions s)\<rparr>)
        | Some (sealed_at, mentions, candidate) \<Rightarrow>
            if mentions = rv_mention_count r \<and> candidate = rv_candidate r then Ok s else Err InvariantFailed))"

fun seal_resume_versions :: "int \<Rightarrow> string list \<Rightarrow> pub_store \<Rightarrow> (store_failure, pub_store) result" where
  "seal_resume_versions now [] s = Ok s"
| "seal_resume_versions now (v # vs) s = rbind (seal_resume_version now v s) (seal_resume_versions now vs)"

definition terminal_applies :: "terminal_update \<Rightarrow> document \<Rightarrow> bool" where
  "terminal_applies t d \<longleftrightarrow> doc_id d = td_document t \<and> doc_status d = td_expected_status t \<and>
     doc_is_deleted d = td_expected_is_deleted t \<and> doc_content_hash d = Some (td_expected_content_hash t)"

fun apply_terminal_document_updates ::
  "int \<Rightarrow> terminal_update list \<Rightarrow> pub_store \<Rightarrow> (store_failure, pub_store) result" where
  "apply_terminal_document_updates now [] s = Ok s"
| "apply_terminal_document_updates now (t # ts) s =
     (if length (filter (terminal_applies t) (ps_documents s)) \<noteq> 1 then Err (Failed InvalidDocumentState)
      else apply_terminal_document_updates now ts
        (s\<lparr>ps_documents := map (\<lambda>d. if terminal_applies t d
             then d\<lparr>doc_status := td_terminal_status t, doc_is_deleted := td_terminal_is_deleted t,
                    doc_updated_at := now\<rparr> else d) (ps_documents s)\<rparr>))"

definition retained_document :: "pub_store \<Rightarrow> active_projection \<Rightarrow> document option" where
  "retained_document s p = map_option ar_document (find (\<lambda>r. ar_projection r = p) (ps_active s))"

definition current_document_matches :: "pub_store \<Rightarrow> document \<Rightarrow> bool" where
  "current_document_matches s planned \<longleftrightarrow> find (\<lambda>d. doc_id d = doc_id planned) (ps_documents s) = Some planned"

definition document_matches_exact_source_revision ::
  "pub_store \<Rightarrow> active_projection \<Rightarrow> document \<Rightarrow> (store_failure, bool) result" where
  "document_matches_exact_source_revision s p d =
     (case doc_content_hash d of None \<Rightarrow> Ok False
      | Some hash \<Rightarrow>
          if doc_byte_size d > i64_max then Err (Failed InvalidDocumentState)
          else Ok (case version_of s (resume_version_id p) of None \<Rightarrow> False
            | Some r \<Rightarrow> rv_document r = document_id p \<and> rv_content_hash r = hash \<and> rv_byte_size r = doc_byte_size d))"

definition action_document :: "pub_store \<Rightarrow> projected_snapshot \<Rightarrow> (store_failure, document) result" where
  "action_document s action =
     (let retained = retained_document s (snapshot_projection action)
      in case action of
           RetainedUnchanged p \<Rightarrow> ok_or (Failed InvalidDocumentState) retained
         | MetadataChanged p d \<Rightarrow>
             rbind (ok_or (Failed InvalidDocumentState) retained) (\<lambda>r.
             if r = d \<or> \<not> current_document_matches s d then Err (Failed InvalidDocumentState) else Ok d)
         | Replacement p d \<Rightarrow>
             if retained \<noteq> None \<or> \<not> current_document_matches s d then Err (Failed InvalidDocumentState) else Ok d)"

definition projected_document_snapshots ::
  "pub_store \<Rightarrow> projected_snapshot list \<Rightarrow> (store_failure, document list) result" where
  "projected_document_snapshots s actions =
     traverse (\<lambda>action.
       rbind (action_document s action) (\<lambda>d.
       let p = snapshot_projection action in
       if doc_id d \<noteq> document_id p \<or> doc_is_deleted d \<or> doc_status d \<noteq> Searchable
       then Err (Failed InvalidDocumentState)
       else rbind (document_matches_exact_source_revision s p d) (\<lambda>exact.
         if exact then Ok d else Err (Failed InvalidDocumentState)))) actions"

definition active_rows ::
  "string \<Rightarrow> active_projection list \<Rightarrow> document list \<Rightarrow> (store_failure, active_row list) result" where
  "active_rows generation projections documents =
     traverse (\<lambda>(p, d).
       if doc_content_hash d = None \<or> doc_byte_size d > i64_max then Err (Failed InvalidDocumentState)
       else Ok \<lparr> ar_projection = p, ar_generation = generation, ar_document = d \<rparr>)
       (zip projections documents)"

datatype commit_precondition = PreconditionCurrentHead | PreconditionMigrationRebuild barrier_token

definition ready_head_and_epoch :: "pub_store \<Rightarrow> string option \<times> nat" where
  "ready_head_and_epoch s = (hr_generation (ps_head s), hr_epoch (ps_head s))"

definition publication_service_precondition :: "pub_store \<Rightarrow> service_state \<times> search_repair_reason option" where
  "publication_service_precondition s = (hr_service (ps_head s), hr_reason (ps_head s))"

definition validated_publication_for_commit ::
  "hash \<Rightarrow> pub_store \<Rightarrow> publication_commit \<Rightarrow> commit_precondition \<Rightarrow>
   (store_failure, (search_publication \<times> service_state \<times> search_repair_reason option) option) result" where
  "validated_publication_for_commit sha s commit precondition =
     rbind (search_publication_in_connection sha s (cm_generation commit)) (\<lambda>found.
     rbind (ok_or (Failed InvalidState) found) (\<lambda>publication.
     if pub_state publication \<noteq> Validated then Err (Failed InvalidState)
     else
       let service = publication_service_precondition s;
           barrier = (case precondition of PreconditionCurrentHead \<Rightarrow> None
                      | PreconditionMigrationRebuild t \<Rightarrow> Some t);
           (head, visible_epoch) = ready_head_and_epoch s
       in rbind (authority_matches_commit sha s (cm_generation commit) barrier) (\<lambda>matches.
          if \<not> matches \<or> head \<noteq> pub_base_generation publication \<or>
             visible_epoch \<noteq> pub_expected_visible_epoch publication
          then Ok None else Ok (Some (publication, service)))))"

text \<open>
  The commit guard exists only inside the transaction.  Its triggers and those of the projection
  table ask again for what the code has just checked; of the column constraints, the time of the
  commit is the one that is not implied.
\<close>

definition apply_search_publication_commit ::
  "hash \<Rightarrow> publication_commit \<Rightarrow> search_publication \<Rightarrow> service_state \<times> search_repair_reason option \<Rightarrow>
   pub_store \<Rightarrow> (store_failure, pub_store) result" where
  "apply_search_publication_commit sha commit publication service s =
     rbind (validate_commit_against_publication sha s commit publication) (\<lambda>_.
     rbind (seal_resume_versions (cm_now commit) (map resume_version_id (cm_projections commit)) s) (\<lambda>s1.
     rbind (apply_terminal_document_updates (cm_now commit) (cm_terminals commit) s1) (\<lambda>s2.
     rbind (projected_document_snapshots s2 (cm_projected commit)) (\<lambda>documents.
     rbind (active_rows (cm_generation commit) (cm_projections commit) documents) (\<lambda>rows.
     if cm_now commit < 0 then Err Aborted
     else if (case journal_row_of s2 (cm_generation commit) of None \<Rightarrow> True
              | Some j \<Rightarrow> pub_state (jr_publication j) \<noteq> Validated)
     then Err (Failed InvalidState)
     else if u64_max < pub_expected_visible_epoch publication + 1 then Err (Failed InvalidState)
     else rbind (u64_to_i64 (pub_expected_visible_epoch publication + 1)) (\<lambda>next_epoch.
     let h = ps_head s2;
         s3 = on_journal (cm_generation commit) (set_publication_state Ready (cm_now commit))
                (s2\<lparr>ps_active := rows\<rparr>)
     in if hr_generation h \<noteq> pub_base_generation publication \<or>
           hr_epoch h \<noteq> pub_expected_visible_epoch publication \<or> (hr_service h, hr_reason h) \<noteq> service
        then Err (Failed InvalidState)
        else Ok (update_head \<lparr> hr_service = ServiceReady, hr_generation = Some (cm_generation commit),
               hr_epoch = next_epoch, hr_reason = None, hr_updated_at = cm_now commit \<rparr> s3)))))))"

definition commit_with_precondition ::
  "hash \<Rightarrow> publication_commit \<Rightarrow> commit_precondition \<Rightarrow> pub_store \<Rightarrow> publication_outcome tx" where
  "commit_with_precondition sha commit precondition s =
     rbind (validated_publication_for_commit sha s commit precondition) (\<lambda>found.
     case found of
       None \<Rightarrow> Ok (Superseded, s)
     | Some (publication, service) \<Rightarrow>
         rbind (apply_search_publication_commit sha commit publication service s) (\<lambda>s'. Ok (Applied, s')))"

definition commit_search_publication ::
  "hash \<Rightarrow> publication_commit \<Rightarrow> pub_store \<Rightarrow> publication_outcome tx" where
  "commit_search_publication sha commit s =
     rbind (validate_commit_shape commit) (\<lambda>_. commit_with_precondition sha commit PreconditionCurrentHead s)"

definition commit_migration_rebuild_search_publication ::
  "hash \<Rightarrow> publication_commit \<Rightarrow> barrier_token \<Rightarrow> pub_store \<Rightarrow> publication_outcome tx" where
  "commit_migration_rebuild_search_publication sha commit barrier s =
     rbind (validate_commit_shape commit)
       (\<lambda>_. commit_with_precondition sha commit (PreconditionMigrationRebuild barrier) s)"

section \<open>Retention and pruning\<close>

definition journal_order :: "journal_row \<Rightarrow> int \<times> nat list" where
  "journal_order j = (pub_updated_at (jr_publication j), bytes (jr_generation j))"

text \<open>\<open>ORDER BY updated_at DESC, generation DESC LIMIT n\<close> over the ready publications.\<close>

definition newest_ready :: "nat \<Rightarrow> pub_store \<Rightarrow> journal_row list" where
  "newest_ready n s =
     take n (rev (sort_key journal_order (filter (\<lambda>j. pub_state (jr_publication j) = Ready) (ps_journal s))))"

definition limit_ok :: "nat \<Rightarrow> bool" where
  "limit_ok n \<longleftrightarrow> 1 \<le> n \<and> n \<le> 256"

definition recent_ready_search_publications ::
  "hash \<Rightarrow> nat \<Rightarrow> pub_store \<Rightarrow> (store_failure, search_publication list) result" where
  "recent_ready_search_publications sha limit s =
     (if \<not> limit_ok limit then Err (Failed InvalidDescriptor)
      else traverse (\<lambda>j. read_publication sha (jr_publication j)) (newest_ready limit s))"

definition interrupted_search_publications ::
  "hash \<Rightarrow> nat \<Rightarrow> pub_store \<Rightarrow> (store_failure, search_publication list) result" where
  "interrupted_search_publications sha limit s =
     (if \<not> limit_ok limit then Err (Failed InvalidDescriptor)
      else traverse (\<lambda>j. read_publication sha (jr_publication j))
        (take limit (sort_key journal_order
           (filter (\<lambda>j. pub_state (jr_publication j) \<in> {Preparing, Validated}) (ps_journal s)))))"

definition search_artifact_retention_generations ::
  "nat \<Rightarrow> pub_store \<Rightarrow> (store_failure, string set) result" where
  "search_artifact_retention_generations retain_ready s =
     (if \<not> limit_ok retain_ready then Err (Failed InvalidDescriptor)
      else Ok (set_option (hr_generation (ps_head s)) \<union>
        jr_generation ` set (filter (\<lambda>j. pub_state (jr_publication j) \<in> {Preparing, Validated}) (ps_journal s)) \<union>
        jr_generation ` set (newest_ready retain_ready s)))"

record prune_policy =
  pp_retain_ready :: nat
  pp_abandoned_before :: int
  pp_max_delete :: nat

definition prunable :: "prune_policy \<Rightarrow> pub_store \<Rightarrow> journal_row \<Rightarrow> bool" where
  "prunable policy s j \<longleftrightarrow>
     (let g = jr_generation j; p = jr_publication j
      in hr_generation (ps_head s) \<noteq> Some g \<and>
         \<not> list_ex (\<lambda>r. ar_generation r = g) (ps_active s) \<and>
         \<not> list_ex (\<lambda>r. rt_generation r = g \<and> rt_phase r = RetirementPending) (ps_retirements s) \<and>
         (pub_state p = Abandoned \<and> pub_updated_at p \<le> pp_abandoned_before policy \<or>
          pub_state p = Ready \<and> g \<notin> jr_generation ` set (newest_ready (pp_retain_ready policy) s)))"

definition prune_victims :: "prune_policy \<Rightarrow> pub_store \<Rightarrow> journal_row list" where
  "prune_victims policy s =
     take (pp_max_delete policy) (sort_key journal_order (filter (prunable policy s) (ps_journal s)))"

text \<open>Deleting a publication deletes its retirement; a context that refers to one forbids it.\<close>

definition delete_publications :: "string set \<Rightarrow> pub_store \<Rightarrow> pub_store" where
  "delete_publications generations s =
     s\<lparr>ps_journal := filter (\<lambda>j. jr_generation j \<notin> generations) (ps_journal s),
       ps_retirements := filter (\<lambda>r. rt_generation r \<notin> generations) (ps_retirements s)\<rparr>"

definition prune_search_publication_history :: "prune_policy \<Rightarrow> pub_store \<Rightarrow> nat tx" where
  "prune_search_publication_history policy s =
     (if \<not> limit_ok (pp_retain_ready policy) then Err (Failed InvalidDescriptor)
      else if \<not> limit_ok (pp_max_delete policy) then Err (Failed InvalidDescriptor)
      else
        let generations = jr_generation ` set (prune_victims policy s)
        in if (case ps_context s of None \<Rightarrow> False | Some c \<Rightarrow> rk_generation (rc_key c) \<in> generations)
           then Err Aborted
           else Ok (length (prune_victims policy s), delete_publications generations s))"

end
