(* ===== verification/ArtifactRepair.thy ===== *)
theory ArtifactRepair
  imports PublicationOps
begin

text \<open>
  The repair side of the protocol: the context that binds a repair to a published head
  (\<open>crates/meta-store/src/artifact_repair_context.rs\<close>), the bounded attempts of an artifact repair
  (\<open>artifact_repair_attempt_transaction.rs\<close>, \<open>artifact_repair_attempt_persistence.rs\<close>) and of a
  migration rebuild (\<open>migration_rebuild_attempt.rs\<close>), and the transitions of an unpublished head
  (\<open>immutable_search.rs\<close>, \<open>import_processing_store.rs\<close>).  The 32 random bytes of a new attempt are an
  argument, \<open>None\<close> where the random source fails.
\<close>

section \<open>The repair context\<close>

text \<open>\<open>artifact_repair_context_insert_authority\<close>: what the insert trigger demands of the store.\<close>

definition projection_intact :: "pub_store \<Rightarrow> string \<Rightarrow> active_row \<Rightarrow> bool" where
  "projection_intact s epoch r \<longleftrightarrow>
     (case version_of s (resume_version_id (ar_projection r)) of None \<Rightarrow> True
      | Some v \<Rightarrow> rv_document v = document_id (ar_projection r) \<longrightarrow>
          rv_seal v \<noteq> None \<and> epoch \<in> set (rv_resume_candidate_at v) \<and>
          \<not> doc_is_deleted (ar_document r) \<and> doc_status (ar_document r) = Searchable \<and>
          doc_content_hash (ar_document r) = Some (rv_content_hash v) \<and>
          doc_byte_size (ar_document r) = rv_byte_size v)"

definition context_insert_authorised :: "pub_store \<Rightarrow> search_publication \<Rightarrow> repair_context \<Rightarrow> bool" where
  "context_insert_authorised s p c \<longleftrightarrow>
     hr_epoch (ps_head s) = pub_expected_visible_epoch p + 1 \<and>
     (case (pub_fulltext p, pub_vector p) of
        (Some ft, Some vec) \<Rightarrow>
          ftd_generation ft = rk_generation (rc_key c) \<and> vd_generation vec = rk_generation (rc_key c) \<and>
          ftd_projection_digest ft = rc_projection_digest c \<and> vd_projection_digest vec = rc_projection_digest c
      | _ \<Rightarrow> False) \<and>
     list_all (\<lambda>r. ar_generation r = rk_generation (rc_key c)) (ps_active s) \<and>
     length (filter (\<lambda>r. ar_generation r = rk_generation (rc_key c)) (ps_active s)) = rc_projection_count c \<and>
     list_all (\<lambda>r. ar_generation r = rk_generation (rc_key c) \<longrightarrow> projection_intact s (rc_classifier_epoch c) r)
       (ps_active s)"

text \<open>
  \<open>INSERT ... SELECT ... ON CONFLICT DO NOTHING\<close> of the context of the head, where the head has the
  given service state and reason.  The trigger runs before the conflict is looked at.
\<close>

definition insert_context ::
  "service_state \<Rightarrow> search_repair_reason option \<Rightarrow> string \<Rightarrow> nat \<Rightarrow> int \<Rightarrow> pub_store \<Rightarrow>
   (store_failure, pub_store) result" where
  "insert_context service reason generation epoch now s =
     (let h = ps_head s
      in if hr_service h = service \<and> hr_reason h = reason \<and> hr_generation h = Some generation \<and> hr_epoch h = epoch
         then case journal_row_of s generation of None \<Rightarrow> Ok s
           | Some j \<Rightarrow> let p = jr_publication j in
               (case (pub_fingerprint p, pub_fulltext p, pub_vector p) of
                  (Some fingerprint, Some ft, Some vec) \<Rightarrow>
                    if pub_state p = Ready \<and> ftd_document_count ft = vd_projection_count vec
                    then let c = \<lparr> rc_key = \<lparr> rk_generation = generation, rk_fingerprint = fingerprint, rk_epoch = epoch \<rparr>,
                           rc_classifier_epoch = pub_classifier_epoch p, rc_projection_digest = pub_projection_digest p,
                           rc_projection_count = ftd_document_count ft, rc_vector = vd_mode vec, rc_created_at = now \<rparr>
                      in if \<not> context_insert_authorised s p c \<or> now < 0 then Err Aborted
                         else Ok (if ps_context s = None then s\<lparr>ps_context := Some c\<rparr> else s)
                    else Ok s
                | _ \<Rightarrow> Ok s)
         else Ok s)"

definition exact_context :: "pub_store \<Rightarrow> string \<Rightarrow> nat \<Rightarrow> bool" where
  "exact_context s generation epoch \<longleftrightarrow>
     (case ps_context s of None \<Rightarrow> False
      | Some c \<Rightarrow> rk_generation (rc_key c) = generation \<and> rk_epoch (rc_key c) = epoch)"

definition value_i64 :: "nat \<Rightarrow> (store_failure, nat) result" where
  "value_i64 e = (if e \<le> i64_max then Ok e else Err InvalidValueFailed)"

definition exact_current_publication :: "search_publication option \<Rightarrow> nat \<Rightarrow> bool" where
  "exact_current_publication found epoch \<longleftrightarrow>
     (case found of None \<Rightarrow> False
      | Some p \<Rightarrow> pub_state p = Ready \<and> pub_expected_visible_epoch p + 1 = epoch \<and>
          pub_expected_visible_epoch p + 1 \<le> u64_max \<and> pub_fingerprint p \<noteq> None)"

definition enter_artifact_repair :: "string \<Rightarrow> nat \<Rightarrow> int \<Rightarrow> pub_store \<Rightarrow> publication_outcome \<times> pub_store" where
  "enter_artifact_repair generation epoch now s =
     (let h = ps_head s
      in if exact_context s generation epoch \<and> hr_generation h = Some generation \<and> hr_epoch h = epoch \<and>
           (hr_service h = ServiceReady \<and> hr_reason h = None \<or>
            hr_service h = ServiceRepairing \<and> hr_reason h = Some ArtifactUnavailable)
         then (Applied, set_service ServiceRepairing ArtifactUnavailable now s)
         else (Superseded, s))"

definition begin_artifact_repair :: "hash \<Rightarrow> string \<Rightarrow> nat \<Rightarrow> int \<Rightarrow> pub_store \<Rightarrow> publication_outcome tx" where
  "begin_artifact_repair sha generation expected_epoch now s =
     rbind (value_i64 expected_epoch) (\<lambda>epoch.
     let resumes = exact_context s generation epoch \<and> artifact_repair_head s generation epoch in
     rbind (if resumes then Ok True
            else rbind (search_publication_in_connection sha s generation) (\<lambda>found.
              Ok (exact_current_publication found expected_epoch))) (\<lambda>current.
     if \<not> current then Ok (Superseded, s)
     else rbind (insert_context ServiceReady None generation epoch now s) (\<lambda>s1.
       Ok (enter_artifact_repair generation epoch now s1))))"

definition delete_attempt_of :: "string \<Rightarrow> nat \<Rightarrow> pub_store \<Rightarrow> pub_store" where
  "delete_attempt_of generation epoch s =
     s\<lparr>ps_attempt := (case ps_attempt s of None \<Rightarrow> None
        | Some a \<Rightarrow> if rk_generation (aa_key a) = generation \<and> rk_epoch (aa_key a) = epoch then None else Some a)\<rparr>"

text \<open>
  The rest of the reopening once the head is found blocked: bind the context, replacing a stale one,
  forget the attempts and go back to repairing.
\<close>

definition reopen_blocked :: "string \<Rightarrow> nat \<Rightarrow> int \<Rightarrow> pub_store \<Rightarrow> publication_outcome tx" where
  "reopen_blocked generation epoch now s =
     rbind (insert_context ServiceRepairBlocked (Some RuntimeInvariant) generation epoch now s) (\<lambda>s1.
     rbind (if exact_context s1 generation epoch then Ok s1
            else insert_context ServiceRepairBlocked (Some RuntimeInvariant) generation epoch now
                   (delete_context s1)) (\<lambda>s2.
     if \<not> exact_context s2 generation epoch then Ok (Superseded, s2)
     else Ok (Applied, set_service ServiceRepairing ArtifactUnavailable now (delete_attempt_of generation epoch s2))))"

definition reopen_runtime_invariant_for_artifact_repair ::
  "string \<Rightarrow> nat \<Rightarrow> int \<Rightarrow> pub_store \<Rightarrow> publication_outcome tx" where
  "reopen_runtime_invariant_for_artifact_repair generation expected_epoch now s =
     rbind (value_i64 expected_epoch) (\<lambda>epoch.
     if artifact_repair_head s generation epoch
     then Ok (if exact_context s generation epoch then Applied else Superseded, s)
     else if \<not> runtime_blocked_head s (Some generation) epoch then Ok (Superseded, s)
     else reopen_blocked generation epoch now s)"

definition block_artifact_repair :: "string \<Rightarrow> string \<Rightarrow> nat \<Rightarrow> int \<Rightarrow> pub_store \<Rightarrow> publication_outcome tx" where
  "block_artifact_repair generation fingerprint expected_epoch now s =
     rbind (value_i64 expected_epoch) (\<lambda>epoch.
     if artifact_repair_head s generation epoch \<and>
        context_matches s \<lparr> rk_generation = generation, rk_fingerprint = fingerprint, rk_epoch = epoch \<rparr>
     then Ok (Applied, set_service ServiceRepairBlocked RuntimeInvariant now s)
     else Ok (Superseded, s))"

section \<open>Attempts of an artifact repair\<close>

definition MAX_ATTEMPTS :: nat where
  "MAX_ATTEMPTS = 5"

definition RETRY_DELAYS_SECONDS :: "int list" where
  "RETRY_DELAYS_SECONDS = [1, 4, 15, 30, 60]"

definition saturating_add_i64 :: "int \<Rightarrow> int \<Rightarrow> int" where
  "saturating_add_i64 a b = max (- (2 ^ 63)) (min (2 ^ 63 - 1) (a + b))"

definition retry_at :: "int \<Rightarrow> nat \<Rightarrow> int" where
  "retry_at now attempt_count =
     saturating_add_i64 now
       (RETRY_DELAYS_SECONDS ! min (attempt_count - 1) (length RETRY_DELAYS_SECONDS - 1))"

definition random_attempt_id :: "hash \<Rightarrow> nat list option \<Rightarrow> (store_failure, string) result" where
  "random_attempt_id sha entropy =
     rbind (ok_or RandomFailed entropy) (\<lambda>bytes. Ok (content_digest sha bytes))"

record retry_snapshot =
  pr_count :: nat
  pr_started_at :: int
  pr_next_retry :: int
  pr_error :: artifact_error_kind
  pr_updated_at :: int

record artifact_attempt =
  at_key :: artifact_repair_key
  at_id :: string
  at_count :: nat
  at_prior :: "retry_snapshot option"

datatype attempt_acquire =
  Started artifact_attempt | InProgress | NotDue | AcquireRepairBlocked | AcquireSuperseded

definition exact_repair_context_matches :: "pub_store \<Rightarrow> artifact_repair_key \<Rightarrow> bool" where
  "exact_repair_context_matches s key \<longleftrightarrow>
     context_matches s key \<and> artifact_repair_head s (rk_generation key) (rk_epoch key)"

definition exact_terminal_blocked_repair_context_matches :: "pub_store \<Rightarrow> artifact_repair_key \<Rightarrow> bool" where
  "exact_terminal_blocked_repair_context_matches s key \<longleftrightarrow>
     context_matches s key \<and> runtime_blocked_head s (Some (rk_generation key)) (rk_epoch key)"

definition block_exact_head ::
  "artifact_repair_key \<Rightarrow> string \<Rightarrow> nat \<Rightarrow> int \<Rightarrow> pub_store \<Rightarrow> bool tx" where
  "block_exact_head key attempt_id attempt_count now s =
     rbind (epoch_i64 (rk_epoch key)) (\<lambda>epoch.
     if artifact_repair_head s (rk_generation key) epoch \<and> context_matches s key \<and>
        exact_attempt s key attempt_id attempt_count RetryWait
     then Ok (True, set_service ServiceRepairBlocked RuntimeInvariant now s)
     else Ok (False, s))"

definition set_retry :: "int \<Rightarrow> artifact_error_kind \<Rightarrow> int \<Rightarrow> artifact_attempt_row \<Rightarrow> artifact_attempt_row" where
  "set_retry next_retry kind now a =
     a\<lparr>aa_phase := RetryWait, aa_next_retry := Some next_retry, aa_error := Some kind, aa_updated_at := now\<rparr>"

text \<open>An attempt that was running when its process ended waits like one that failed.\<close>

definition acquire_interrupted :: "artifact_attempt_row \<Rightarrow> int \<Rightarrow> pub_store \<Rightarrow> attempt_acquire tx" where
  "acquire_interrupted existing now s =
     (if now < 0 then Err Aborted
      else
        let s1 = s\<lparr>ps_attempt := Some (set_retry (retry_at now (aa_count existing)) Interrupted now existing)\<rparr>
        in if aa_count existing \<ge> MAX_ATTEMPTS
           then rbind (block_exact_head (aa_key existing) (aa_id existing) (aa_count existing) now s1)
             (\<lambda>(blocked, s2). Ok (if blocked then AcquireRepairBlocked else AcquireSuperseded, s2))
           else Ok (NotDue, s1))"

definition acquire_fresh ::
  "hash \<Rightarrow> nat list option \<Rightarrow> artifact_repair_key \<Rightarrow> retry_snapshot option \<Rightarrow> int \<Rightarrow> pub_store \<Rightarrow>
   attempt_acquire tx" where
  "acquire_fresh sha entropy key prior now s =
     (let attempt_count = (case prior of None \<Rightarrow> 1 | Some p \<Rightarrow> min 255 (pr_count p + 1))
      in if attempt_count > MAX_ATTEMPTS then Err InvariantFailed
         else rbind (random_attempt_id sha entropy) (\<lambda>attempt_id.
           if now < 0 then Err Aborted
           else Ok (Started \<lparr> at_key = key, at_id = attempt_id, at_count = attempt_count, at_prior = prior \<rparr>,
             s\<lparr>ps_attempt := Some \<lparr> aa_key = key, aa_id = attempt_id, aa_count = attempt_count,
                 aa_phase = Running, aa_started_at = now, aa_next_retry = None, aa_error = None,
                 aa_updated_at = now \<rparr>\<rparr>)))"

definition acquire_waiting ::
  "hash \<Rightarrow> nat list option \<Rightarrow> artifact_repair_key \<Rightarrow> artifact_attempt_row \<Rightarrow> int \<Rightarrow> pub_store \<Rightarrow>
   attempt_acquire tx" where
  "acquire_waiting sha entropy key existing now s =
     rbind (ok_or InvariantFailed (aa_next_retry existing)) (\<lambda>next_retry.
     if next_retry \<noteq> retry_at (aa_updated_at existing) (aa_count existing) then Err InvariantFailed
     else if now < aa_updated_at existing then
       if now < 0 then Err Aborted
       else Ok (NotDue, s\<lparr>ps_attempt := Some (existing\<lparr>
              aa_next_retry := Some (retry_at now (aa_count existing)), aa_updated_at := now\<rparr>)\<rparr>)
     else if now < next_retry then Ok (NotDue, s)
     else if aa_count existing \<ge> MAX_ATTEMPTS
     then rbind (block_exact_head (aa_key existing) (aa_id existing) (aa_count existing) now s)
            (\<lambda>(blocked, s2). Ok (if blocked then AcquireRepairBlocked else AcquireSuperseded, s2))
     else rbind (ok_or InvariantFailed (aa_error existing)) (\<lambda>kind.
       acquire_fresh sha entropy key
         (Some \<lparr> pr_count = aa_count existing, pr_started_at = aa_started_at existing,
            pr_next_retry = next_retry, pr_error = kind, pr_updated_at = aa_updated_at existing \<rparr>) now s))"

definition acquire_attempt ::
  "hash \<Rightarrow> nat list option \<Rightarrow> string option \<Rightarrow> artifact_repair_key \<Rightarrow> int \<Rightarrow> pub_store \<Rightarrow> attempt_acquire tx" where
  "acquire_attempt sha entropy active key now s =
     rbind (epoch_i64 (rk_epoch key)) (\<lambda>_.
     rbind (ensure_no_pending_retirement s) (\<lambda>_.
     if \<not> exact_repair_context_matches s key then Ok (AcquireSuperseded, s)
     else case ps_attempt s of
         None \<Rightarrow> acquire_fresh sha entropy key None now s
       | Some existing \<Rightarrow>
           if aa_key existing \<noteq> key then acquire_fresh sha entropy key None now (s\<lparr>ps_attempt := None\<rparr>)
           else case aa_phase existing of
               Running \<Rightarrow>
                 if active = Some (aa_id existing) then Ok (InProgress, s)
                 else if active \<noteq> None then Err InvariantFailed
                 else acquire_interrupted existing now s
             | RetryWait \<Rightarrow> acquire_waiting sha entropy key existing now s
             | Terminal \<Rightarrow> Err InvariantFailed))"

datatype attempt_failure = Retryable artifact_error_kind | TerminalFailure artifact_error_kind

datatype attempt_failure_outcome = RetryScheduled | FailureRepairBlocked | FailureSuperseded

definition failure_kind :: "attempt_failure \<Rightarrow> artifact_error_kind \<times> bool" where
  "failure_kind f = (case f of Retryable k \<Rightarrow> (k, False) | TerminalFailure k \<Rightarrow> (k, True))"

definition delete_exact_attempt :: "artifact_attempt \<Rightarrow> pub_store \<Rightarrow> pub_store" where
  "delete_exact_attempt t s =
     (if exact_attempt s (at_key t) (at_id t) (at_count t) Running then s\<lparr>ps_attempt := None\<rparr> else s)"

definition finish_attempt_failure ::
  "artifact_attempt \<Rightarrow> attempt_failure \<Rightarrow> int \<Rightarrow> pub_store \<Rightarrow> attempt_failure_outcome tx" where
  "finish_attempt_failure t failure now s =
     (let (kind, terminal) = failure_kind failure;
          running = exact_attempt s (at_key t) (at_id t) (at_count t) Running;
          terminal_attempt = exact_attempt s (at_key t) (at_id t) (at_count t) Terminal
      in rbind (epoch_i64 (rk_epoch (at_key t))) (\<lambda>_.
         if terminal \<and> terminal_attempt \<and> exact_terminal_blocked_repair_context_matches s (at_key t)
         then Ok (FailureRepairBlocked, s)
         else if \<not> (running \<and> exact_repair_context_matches s (at_key t))
         then Ok (FailureSuperseded, delete_exact_attempt t s)
         else if now < 0 then Err Aborted
         else
           let s1 = s\<lparr>ps_attempt := map_option (set_retry (retry_at now (at_count t)) kind now) (ps_attempt s)\<rparr>
           in if terminal \<or> at_count t \<ge> MAX_ATTEMPTS
              then rbind (block_exact_head (at_key t) (at_id t) (at_count t) now s1)
                (\<lambda>(blocked, s2). Ok (if blocked then FailureRepairBlocked else FailureSuperseded, s2))
              else Ok (RetryScheduled, s1)))"

datatype cancellation_outcome = Restored | CancelSuperseded

definition cancel_attempt ::
  "hash \<Rightarrow> nat list option \<Rightarrow> artifact_attempt \<Rightarrow> pub_store \<Rightarrow> cancellation_outcome tx" where
  "cancel_attempt sha entropy t s =
     rbind (epoch_i64 (rk_epoch (at_key t))) (\<lambda>_.
     if \<not> exact_attempt s (at_key t) (at_id t) (at_count t) Running then Ok (CancelSuperseded, s)
     else case at_prior t of
         None \<Rightarrow> Ok (Restored, delete_exact_attempt t s)
       | Some prior \<Rightarrow>
           rbind (random_attempt_id sha entropy) (\<lambda>restored_id.
           if pr_updated_at prior < 0 \<or> pr_started_at prior < 0 \<or> pr_count prior < 1 \<or> 5 < pr_count prior
           then Err Aborted
           else Ok (Restored, s\<lparr>ps_attempt := map_option (\<lambda>a. a\<lparr>aa_id := restored_id, aa_count := pr_count prior,
                  aa_phase := RetryWait, aa_started_at := pr_started_at prior,
                  aa_next_retry := Some (pr_next_retry prior), aa_error := Some (pr_error prior),
                  aa_updated_at := pr_updated_at prior\<rparr>) (ps_attempt s)\<rparr>)))"

text \<open>The session keeps the id of the attempt it started; a new session has none.\<close>

definition acquire_artifact_repair_attempt ::
  "hash \<Rightarrow> nat list option \<Rightarrow> artifact_repair_key \<Rightarrow> int \<Rightarrow> string option \<times> pub_store \<Rightarrow>
   (store_failure, attempt_acquire \<times> string option \<times> pub_store) result" where
  "acquire_artifact_repair_attempt sha entropy key now session =
     (case session of (active, s) \<Rightarrow>
        rbind (acquire_attempt sha entropy active key now s) (\<lambda>(outcome, s').
          Ok (outcome, (case outcome of Started t \<Rightarrow> Some (at_id t) | _ \<Rightarrow> active), s')))"

definition clear_active_attempt_if :: "string \<Rightarrow> string option \<Rightarrow> string option" where
  "clear_active_attempt_if attempt_id active = (if active = Some attempt_id then None else active)"

definition finish_artifact_repair_attempt_failure ::
  "artifact_attempt \<Rightarrow> attempt_failure \<Rightarrow> int \<Rightarrow> string option \<times> pub_store \<Rightarrow>
   (store_failure, attempt_failure_outcome \<times> string option \<times> pub_store) result" where
  "finish_artifact_repair_attempt_failure t failure now session =
     (case session of (active, s) \<Rightarrow>
        rbind (finish_attempt_failure t failure now s) (\<lambda>(outcome, s').
          Ok (outcome, clear_active_attempt_if (at_id t) active, s')))"

definition cancel_artifact_repair_attempt ::
  "hash \<Rightarrow> nat list option \<Rightarrow> artifact_attempt \<Rightarrow> string option \<times> pub_store \<Rightarrow>
   (store_failure, cancellation_outcome \<times> string option \<times> pub_store) result" where
  "cancel_artifact_repair_attempt sha entropy t session =
     (case session of (active, s) \<Rightarrow>
        rbind (cancel_attempt sha entropy t s) (\<lambda>(outcome, s').
          Ok (outcome, clear_active_attempt_if (at_id t) active, s')))"

section \<open>Attempts of a migration rebuild\<close>

record migration_attempt =
  mt_contract :: string
  mt_barrier :: barrier_token
  mt_digest :: string
  mt_id :: string
  mt_count :: nat

datatype migration_acquire =
  MigrationStarted migration_attempt | MigrationInProgress | MigrationNotDue | MigrationBlocked
  | MigrationSuperseded

definition block_unpublished_migration_head :: "int \<Rightarrow> pub_store \<Rightarrow> bool \<times> pub_store" where
  "block_unpublished_migration_head now s =
     (if unpublished_migration_head s then (True, set_service ServiceRepairBlocked RuntimeInvariant now s)
      else (False, s))"

definition block_or_supersede :: "int \<Rightarrow> pub_store \<Rightarrow> migration_acquire tx" where
  "block_or_supersede now s =
     (let (blocked, s') = block_unpublished_migration_head now s
      in Ok (if blocked then MigrationBlocked else MigrationSuperseded, s'))"

definition set_migration_retry ::
  "int \<Rightarrow> migration_error_class \<Rightarrow> int \<Rightarrow> migration_attempt_row \<Rightarrow> migration_attempt_row" where
  "set_migration_retry next_retry class now m =
     m\<lparr>ma_phase := RetryWait, ma_next_retry := Some next_retry, ma_error := Some class, ma_updated_at := now\<rparr>"

definition start_migration_attempt ::
  "hash \<Rightarrow> nat list option \<Rightarrow> barrier_token \<Rightarrow> nat \<Rightarrow> int \<Rightarrow> pub_store \<Rightarrow> migration_acquire tx" where
  "start_migration_attempt sha entropy barrier attempt_count now s =
     rbind (random_attempt_id sha entropy) (\<lambda>attempt_id.
     if now < 0 \<or> attempt_count < 1 \<or> 5 < attempt_count then Err Aborted
     else Ok (MigrationStarted \<lparr> mt_contract = bt_contract barrier, mt_barrier = barrier,
                mt_digest = identity_digest sha barrier, mt_id = attempt_id, mt_count = attempt_count \<rparr>,
       s\<lparr>ps_migration := Some \<lparr> ma_contract = bt_contract barrier, ma_digest = identity_digest sha barrier,
           ma_id = attempt_id, ma_count = attempt_count, ma_phase = Running, ma_started_at = now,
           ma_next_retry = None, ma_error = None, ma_updated_at = now \<rparr>\<rparr>))"

definition acquire_publication_attempt ::
  "hash \<Rightarrow> nat list option \<Rightarrow> string option \<Rightarrow> barrier_token \<Rightarrow> int \<Rightarrow> pub_store \<Rightarrow> migration_acquire tx" where
  "acquire_publication_attempt sha entropy active barrier now s =
     rbind (ensure_no_pending_retirement s) (\<lambda>_.
     if \<not> barrier_token_matches s barrier then Ok (MigrationSuperseded, s)
     else case ps_migration s of
         None \<Rightarrow> start_migration_attempt sha entropy barrier 1 now s
       | Some existing \<Rightarrow>
           if ma_contract existing \<noteq> bt_contract barrier then Err InvariantFailed
           else if ma_digest existing \<noteq> identity_digest sha barrier
           then start_migration_attempt sha entropy barrier 1 now s
           else case ma_phase existing of
               Running \<Rightarrow>
                 if active = Some (ma_id existing) then Ok (MigrationInProgress, s)
                 else if active \<noteq> None then Err InvariantFailed
                 else
                   let next_retry = retry_at now (ma_count existing)
                   in if next_retry < 0 \<or> now < 0 then Err Aborted
                      else
                        let s1 = s\<lparr>ps_migration := Some (set_migration_retry next_retry ClassInterrupted now existing)\<rparr>
                        in if ma_count existing \<ge> MAX_ATTEMPTS then block_or_supersede now s1
                           else Ok (MigrationNotDue, s1)
             | RetryWait \<Rightarrow>
                 rbind (ok_or InvariantFailed (ma_next_retry existing)) (\<lambda>next_retry.
                 if now < next_retry then Ok (MigrationNotDue, s)
                 else if ma_count existing \<ge> MAX_ATTEMPTS then block_or_supersede now s
                 else start_migration_attempt sha entropy barrier (min 255 (ma_count existing + 1)) now s)
             | Terminal \<Rightarrow> Err InvariantFailed)"

datatype migration_failure = MigrationRetryable migration_error_class | MigrationTerminal migration_error_class

definition migration_failure_class :: "migration_failure \<Rightarrow> migration_error_class \<times> bool" where
  "migration_failure_class f = (case f of MigrationRetryable c \<Rightarrow> (c, False) | MigrationTerminal c \<Rightarrow> (c, True))"

definition same_migration_attempt :: "migration_attempt \<Rightarrow> migration_attempt_row \<Rightarrow> bool" where
  "same_migration_attempt t m \<longleftrightarrow> ma_contract m = mt_contract t \<and> ma_digest m = mt_digest t \<and>
     ma_id m = mt_id t \<and> ma_count m = mt_count t"

definition delete_exact_migration_attempt :: "migration_attempt \<Rightarrow> pub_store \<Rightarrow> pub_store" where
  "delete_exact_migration_attempt t s =
     s\<lparr>ps_migration := (case ps_migration s of None \<Rightarrow> None
        | Some m \<Rightarrow> if same_migration_attempt t m then None else Some m)\<rparr>"

definition finish_publication_attempt_failure ::
  "migration_attempt \<Rightarrow> migration_failure \<Rightarrow> int \<Rightarrow> pub_store \<Rightarrow> attempt_failure_outcome tx" where
  "finish_publication_attempt_failure t failure now s =
     (let (class, terminal) = migration_failure_class failure;
          running = (case ps_migration s of None \<Rightarrow> False
            | Some m \<Rightarrow> same_migration_attempt t m \<and> ma_phase m = Running \<and>
                ps_active_contract s = Some (ma_contract m));
          repairing = (running \<and> barrier_token_matches s (mt_barrier t));
          terminal_block = (terminal \<and> running \<and> terminal_block_token_matches s (mt_barrier t));
          next_retry = retry_at now (mt_count t)
      in if \<not> repairing \<and> \<not> terminal_block
         then Ok (FailureSuperseded, if running then delete_exact_migration_attempt t s else s)
         else if next_retry < 0 \<or> now < 0 then Err Aborted
         else
           let s1 = s\<lparr>ps_migration := map_option (set_migration_retry next_retry class now) (ps_migration s)\<rparr>
           in if terminal \<or> mt_count t \<ge> MAX_ATTEMPTS
              then if terminal_block then Ok (FailureRepairBlocked, s1)
                else let (blocked, s2) = block_unpublished_migration_head now s1
                     in Ok (if blocked then FailureRepairBlocked else FailureSuperseded, s2)
              else Ok (RetryScheduled, s1))"

definition abandon_publication_attempt :: "migration_attempt \<Rightarrow> pub_store \<Rightarrow> attempt_failure_outcome tx" where
  "abandon_publication_attempt t s = Ok (FailureSuperseded, delete_exact_migration_attempt t s)"

section \<open>The unpublished head\<close>

definition block_migration_rebuild :: "search_repair_reason \<Rightarrow> int \<Rightarrow> pub_store \<Rightarrow> publication_outcome tx" where
  "block_migration_rebuild reason now s =
     (if reason \<noteq> SourceUnavailable \<and> reason \<noteq> RuntimeInvariant then Err TransitionFailed
      else if unpublished_migration_head s then Ok (Applied, set_service ServiceRepairBlocked reason now s)
      else Ok (Superseded, s))"

datatype contract_activation = Activated | AlreadyActive | RunningTaskConflict | ActivationSuperseded

text \<open>
  \<open>activate_migration_rebuild_contract\<close> on these tables: the contract row, the import tasks and the
  writer authority are those of the import side.  Every root loses its task; the trigger on the
  active contract clears the attempt of another contract.
\<close>

definition activate_migration_rebuild_contract ::
  "string \<Rightarrow> bool \<Rightarrow> int \<Rightarrow> pub_store \<Rightarrow> contract_activation tx" where
  "activate_migration_rebuild_contract contract running_task_exists now s =
     (let h = ps_head s;
          unpublished = unpublished_migration_head s;
          blocked_hard_cut = (hr_service h = ServiceRepairBlocked \<and> hr_generation h = None \<and>
            hr_reason h = Some RuntimeInvariant \<and>
            (case ps_active_contract s of None \<Rightarrow> False | Some c \<Rightarrow> c \<noteq> contract))
      in if \<not> unpublished \<and> \<not> blocked_hard_cut then Ok (ActivationSuperseded, s)
         else if unpublished \<and> ps_active_contract s = Some contract then Ok (AlreadyActive, s)
         else if running_task_exists then Ok (RunningTaskConflict, s)
         else
           let s1 = s\<lparr>ps_roots := map (\<lambda>r. r\<lparr>rr_latest_task := None\<rparr>) (ps_roots s), ps_unfinished := False,
                 ps_active_contract := Some contract, ps_migration := None\<rparr>
           in Ok (Activated, if blocked_hard_cut then set_service ServiceRepairing MigrationRebuild now s1 else s1))"

section \<open>Reading the head\<close>

fun service_state_storage :: "service_state \<Rightarrow> string" where
  "service_state_storage ServiceRepairing = ''repairing''"
| "service_state_storage ServiceReady = ''ready''"
| "service_state_storage ServiceRepairBlocked = ''repair_blocked''"

fun repair_reason_as_str :: "search_repair_reason \<Rightarrow> string" where
  "repair_reason_as_str MigrationRebuild = ''migration_rebuild''"
| "repair_reason_as_str ArtifactUnavailable = ''artifact_unavailable''"
| "repair_reason_as_str SourceUnavailable = ''source_unavailable''"
| "repair_reason_as_str RuntimeInvariant = ''runtime_invariant''"

text \<open>The row that a query transaction selects.\<close>

definition head_columns :: "pub_store \<Rightarrow> projection_state_row" where
  "head_columns s =
     \<lparr> row_service_state = service_state_storage (hr_service (ps_head s)),
       row_generation = hr_generation (ps_head s), row_visible_epoch = int (hr_epoch (ps_head s)),
       row_repair_reason = map_option repair_reason_as_str (hr_reason (ps_head s)) \<rparr>"

record search_projection_state =
  sps_service :: service_state
  sps_generation :: "string option"
  sps_epoch :: nat
  sps_reason :: "search_repair_reason option"
  sps_publication :: "search_publication option"
  sps_updated_at :: int

definition read_projection_state :: "hash \<Rightarrow> pub_store \<Rightarrow> (store_failure, search_projection_state) result" where
  "read_projection_state sha s =
     (let h = ps_head s;
          bound = (case hr_generation h of None \<Rightarrow> False | Some g \<Rightarrow> exact_context s g (hr_epoch h))
      in rbind (if hr_service h \<noteq> ServiceReady \<and> bound then Ok None
                else case hr_generation h of None \<Rightarrow> Ok None
                  | Some g \<Rightarrow> search_publication_in_connection sha s g) (\<lambda>publication.
         if hr_service h = ServiceReady \<and>
            (case publication of None \<Rightarrow> True | Some p \<Rightarrow> pub_state p \<noteq> Ready)
         then Err InvariantFailed
         else Ok \<lparr> sps_service = hr_service h, sps_generation = hr_generation h, sps_epoch = hr_epoch h,
                sps_reason = hr_reason h, sps_publication = publication, sps_updated_at = hr_updated_at h \<rparr>))"

end
