(* ===== verification/PublicationInvariant.thy ===== *)
theory PublicationInvariant
  imports ArtifactRepair
begin

text \<open>
  The invariant of the publication store - of the journal, the head and its projection, the
  retirements and the repair rows - and that every publication and repair operation keeps it.
\<close>

section \<open>The invariant\<close>

definition pub_ok :: "hash \<Rightarrow> search_publication \<Rightarrow> bool" where
  "pub_ok sha p \<longleftrightarrow> read_publication sha p = Ok p"

definition journal_inv :: "hash \<Rightarrow> pub_store \<Rightarrow> bool" where
  "journal_inv sha s \<longleftrightarrow>
     distinct (map jr_generation (ps_journal s)) \<and> (\<forall>j \<in> set (ps_journal s). pub_ok sha (jr_publication j))"

definition head_admissible :: "head_row \<Rightarrow> bool" where
  "head_admissible h \<longleftrightarrow> hr_epoch h \<le> i64_max \<and>
     (case hr_service h of
        ServiceReady \<Rightarrow> hr_generation h \<noteq> None \<and> hr_reason h = None
      | ServiceRepairing \<Rightarrow> hr_reason h = Some MigrationRebuild \<and> hr_generation h = None \<or>
          hr_reason h = Some ArtifactUnavailable \<and> hr_generation h \<noteq> None
      | ServiceRepairBlocked \<Rightarrow> hr_reason h = Some SourceUnavailable \<and> hr_generation h = None \<or>
          hr_reason h = Some RuntimeInvariant)"

definition head_publication :: "pub_store \<Rightarrow> search_publication option" where
  "head_publication s = Option.bind (hr_generation (ps_head s)) (\<lambda>g. map_option jr_publication (journal_row_of s g))"

text \<open>The head names a ready publication, and the active projection is the one it sealed.\<close>

definition published_by :: "hash \<Rightarrow> search_publication \<Rightarrow> pub_store \<Rightarrow> bool" where
  "published_by sha p s \<longleftrightarrow>
     pub_state p = Ready \<and> hr_epoch (ps_head s) = pub_expected_visible_epoch p + 1 \<and>
     (\<forall>r \<in> set (ps_active s). ar_generation r = pub_generation p) \<and>
     from_pairs sha (map (\<lambda>r. pair_of (ar_projection r)) (ps_active s)) = Ok (pub_projection_digest p) \<and>
     map_option ftd_document_count (pub_fulltext p) = Some (length (ps_active s))"

definition head_inv :: "hash \<Rightarrow> pub_store \<Rightarrow> bool" where
  "head_inv sha s \<longleftrightarrow> head_admissible (ps_head s) \<and>
     (if hr_generation (ps_head s) = None then ps_active s = []
      else \<exists>p. head_publication s = Some p \<and> published_by sha p s)"

definition retirement_inv :: "pub_store \<Rightarrow> bool" where
  "retirement_inv s \<longleftrightarrow>
     distinct (map rt_generation (ps_retirements s)) \<and>
     (\<forall>r \<in> set (ps_retirements s). \<exists>j \<in> set (ps_journal s).
        jr_generation j = rt_generation r \<and> pub_state (jr_publication j) = Abandoned)"

definition attempt_ok :: "artifact_attempt_row \<Rightarrow> bool" where
  "attempt_ok a \<longleftrightarrow> 1 \<le> aa_count a \<and> aa_count a \<le> MAX_ATTEMPTS \<and> 0 \<le> aa_updated_at a \<and> 0 \<le> aa_started_at a \<and>
     (case aa_phase a of
        Running \<Rightarrow> aa_next_retry a = None \<and> aa_error a = None
      | RetryWait \<Rightarrow> aa_next_retry a = Some (retry_at (aa_updated_at a) (aa_count a)) \<and> aa_error a \<noteq> None
      | Terminal \<Rightarrow> aa_next_retry a = None \<and> aa_error a \<noteq> None)"

definition context_ok :: "pub_store \<Rightarrow> repair_context \<Rightarrow> bool" where
  "context_ok s c \<longleftrightarrow> \<not> cleanup_due (ps_head s) c \<and>
     map_option pub_fingerprint (head_publication s) = Some (Some (rk_fingerprint (rc_key c)))"

definition repair_inv :: "pub_store \<Rightarrow> bool" where
  "repair_inv s \<longleftrightarrow>
     (\<forall>c. ps_context s = Some c \<longrightarrow> context_ok s c) \<and>
     (\<forall>a. ps_attempt s = Some a \<longrightarrow> attempt_ok a \<and> (\<exists>c. ps_context s = Some c \<and> rc_key c = aa_key a))"

definition terminal_blocked :: "pub_store \<Rightarrow> bool" where
  "terminal_blocked s \<longleftrightarrow>
     (\<forall>a. ps_attempt s = Some a \<and> aa_phase a = Terminal \<longrightarrow> hr_service (ps_head s) = ServiceRepairBlocked)"

text \<open>Within a transaction an attempt may already be terminal while its head is not yet blocked.\<close>

definition tables_inv :: "hash \<Rightarrow> pub_store \<Rightarrow> bool" where
  "tables_inv sha s \<longleftrightarrow> journal_inv sha s \<and> head_inv sha s \<and> retirement_inv s \<and> repair_inv s"

definition store_inv :: "hash \<Rightarrow> pub_store \<Rightarrow> bool" where
  "store_inv sha s \<longleftrightarrow> tables_inv sha s \<and> terminal_blocked s"

section \<open>Fields after an update\<close>

lemma update_head_fields [simp]:
  "ps_head (update_head h s) = h"
  "ps_journal (update_head h s) = ps_journal s"
  "ps_active (update_head h s) = ps_active s"
  "ps_retirements (update_head h s) = ps_retirements s"
  "ps_active_contract (update_head h s) = ps_active_contract s"
  by (simp_all add: update_head_def delete_context_def Let_def split: option.split)

lemma journal_row_of_cong: "ps_journal s = ps_journal t \<Longrightarrow> journal_row_of s = journal_row_of t"
  by (rule ext) (simp add: journal_row_of_def)

lemma set_service_fields [simp]:
  "ps_journal (set_service st reason now s) = ps_journal s"
  "ps_active (set_service st reason now s) = ps_active s"
  "ps_retirements (set_service st reason now s) = ps_retirements s"
  "ps_active_contract (set_service st reason now s) = ps_active_contract s"
  "hr_generation (ps_head (set_service st reason now s)) = hr_generation (ps_head s)"
  "hr_epoch (ps_head (set_service st reason now s)) = hr_epoch (ps_head s)"
  "hr_service (ps_head (set_service st reason now s)) = st"
  "hr_reason (ps_head (set_service st reason now s)) = Some reason"
  by (simp_all add: set_service_def Let_def)

lemma head_publication_cong:
  "ps_journal s = ps_journal t \<Longrightarrow> hr_generation (ps_head s) = hr_generation (ps_head t) \<Longrightarrow>
   head_publication s = head_publication t"
  by (simp add: head_publication_def journal_row_of_cong [of s t])

lemma context_update_head:
  "ps_context (update_head h s) =
     (case ps_context s of None \<Rightarrow> None | Some c \<Rightarrow> if cleanup_due h c then None else Some c)"
  by (simp add: update_head_def delete_context_def Let_def split: option.split)

lemma attempt_update_head:
  assumes "repair_inv s"
  shows "ps_attempt (update_head h s) =
     (case ps_context s of None \<Rightarrow> None | Some c \<Rightarrow> if cleanup_due h c then None else ps_attempt s)"
proof (cases "ps_attempt s")
  case None
  then show ?thesis by (simp add: update_head_def delete_context_def Let_def split: option.split)
next
  case (Some a)
  then obtain c where "ps_context s = Some c" "rc_key c = aa_key a"
    using assms by (auto simp: repair_inv_def)
  with Some show ?thesis by (simp add: update_head_def delete_context_def Let_def)
qed

section \<open>Journal rows after an update\<close>

lemma find_map_update:
  assumes "\<And>x. key (f x) = key x"
  shows "find (\<lambda>x. key x = k) (map (\<lambda>x. if key x = g then f x else x) xs) =
    (if k = g then map_option f (find (\<lambda>x. key x = k) xs) else find (\<lambda>x. key x = k) xs)"
  using assms by (induction xs) auto

lemma journal_row_of_on_journal:
  assumes "\<And>p. pub_generation (f p) = pub_generation p"
  shows "journal_row_of (on_journal g f s) k =
    (if k = g then map_option (\<lambda>j. j\<lparr>jr_publication := f (jr_publication j)\<rparr>) (journal_row_of s k)
     else journal_row_of s k)"
  unfolding journal_row_of_def on_journal_def
  using find_map_update [of jr_generation "\<lambda>j. j\<lparr>jr_publication := f (jr_publication j)\<rparr>" k g "ps_journal s"]
    assms by simp

lemma on_journal_fields [simp]:
  "ps_head (on_journal g f s) = ps_head s"
  "ps_active (on_journal g f s) = ps_active s"
  "ps_retirements (on_journal g f s) = ps_retirements s"
  "ps_context (on_journal g f s) = ps_context s"
  "ps_attempt (on_journal g f s) = ps_attempt s"
  "ps_migration (on_journal g f s) = ps_migration s"
  by (simp_all add: on_journal_def)

lemma journal_row_of_Some:
  "journal_row_of s g = Some j \<Longrightarrow> j \<in> set (ps_journal s) \<and> jr_generation j = g"
  by (auto simp: journal_row_of_def find_Some_iff)

lemma journal_row_of_unique:
  assumes "distinct (map jr_generation (ps_journal s))" "j \<in> set (ps_journal s)"
  shows "journal_row_of s (jr_generation j) = Some j"
proof -
  obtain k where k: "journal_row_of s (jr_generation j) = Some k"
    using assms(2) by (cases "journal_row_of s (jr_generation j)") (auto simp: journal_row_of_def find_None_iff)
  with journal_row_of_Some [OF k] assms show ?thesis by (auto simp: distinct_map dest: inj_onD)
qed

lemma search_publication_in_connection_Ok:
  assumes "search_publication_in_connection sha s g = Ok (Some p)"
  shows "\<exists>j. journal_row_of s g = Some j \<and> jr_publication j = p \<and> pub_generation p = g \<and> pub_ok sha p"
  using assms journal_row_of_Some [of s g]
  by (auto simp: search_publication_in_connection_def pub_ok_def read_publication_def result_simps
      split: option.splits if_splits)

lemma search_publication_readable:
  assumes "journal_inv sha s" "journal_row_of s g = Some j"
  shows "search_publication_in_connection sha s g = Ok (Some (jr_publication j))"
  using assms journal_row_of_Some [OF assms(2)]
  by (simp add: search_publication_in_connection_def journal_inv_def pub_ok_def)

section \<open>The invariant under the elementary updates\<close>

lemma head_inv_cong:
  assumes "ps_journal t = ps_journal s" "ps_active t = ps_active s"
    "hr_generation (ps_head t) = hr_generation (ps_head s)" "hr_epoch (ps_head t) = hr_epoch (ps_head s)"
    and "head_inv sha s" "head_admissible (ps_head t)"
  shows "head_inv sha t"
proof -
  have "published_by sha p t = published_by sha p s" for p using assms by (simp add: published_by_def)
  moreover have "head_publication t = head_publication s" using assms by (intro head_publication_cong)
  ultimately show ?thesis using assms by (simp add: head_inv_def)
qed

lemma tables_inv_cong:
  assumes "ps_head t = ps_head s" "ps_journal t = ps_journal s" "ps_active t = ps_active s"
    "ps_retirements t = ps_retirements s" "ps_context t = ps_context s" "ps_attempt t = ps_attempt s"
  shows "tables_inv sha t = tables_inv sha s" and "store_inv sha t = store_inv sha s"
proof -
  have pub: "head_publication t = head_publication s" using assms by (intro head_publication_cong) simp_all
  have "published_by sha p t = published_by sha p s" for p using assms by (simp add: published_by_def)
  then have "head_inv sha t = head_inv sha s" using assms pub by (simp add: head_inv_def)
  then show *: "tables_inv sha t = tables_inv sha s"
    using assms pub by (simp add: tables_inv_def journal_inv_def retirement_inv_def repair_inv_def context_ok_def)
  show "store_inv sha t = store_inv sha s"
    using assms by (simp add: store_inv_def * terminal_blocked_def)
qed

lemma inv_set_service:
  assumes "tables_inv sha s"
    and "head_admissible (ps_head (set_service st reason now s))"
    and "\<And>a. ps_attempt s = Some a \<Longrightarrow> aa_phase a = Terminal \<Longrightarrow> st = ServiceRepairBlocked"
  shows "store_inv sha (set_service st reason now s)"
proof -
  let ?h = "(ps_head s)\<lparr>hr_service := st, hr_reason := Some reason, hr_updated_at := max (hr_updated_at (ps_head s)) now\<rparr>"
  let ?t = "update_head ?h s"
  have t: "set_service st reason now s = ?t" by (simp add: set_service_def Let_def)
  have inv: "journal_inv sha s" "head_inv sha s" "retirement_inv s" "repair_inv s"
    using assms(1) by (simp_all add: tables_inv_def)
  have pub: "head_publication ?t = head_publication s" by (rule head_publication_cong) simp_all
  have "repair_inv ?t"
    using inv(4) unfolding repair_inv_def context_ok_def pub
    by (auto simp: context_update_head attempt_update_head [OF inv(4)] split: option.splits if_splits)
  moreover have "terminal_blocked ?t"
    using assms(3) by (auto simp: terminal_blocked_def attempt_update_head [OF inv(4)] split: option.splits if_splits)
  moreover have "head_inv sha ?t"
    by (rule head_inv_cong [OF _ _ _ _ inv(2)]) (use assms(2) in \<open>simp_all add: t\<close>)
  ultimately show ?thesis
    using inv(1,3) by (simp add: store_inv_def tables_inv_def t journal_inv_def retirement_inv_def)
qed

lemma inv_attempt_Some:
  assumes "store_inv sha s" "attempt_ok a" "context_matches s (aa_key a)"
  shows "tables_inv sha (s\<lparr>ps_attempt := Some a\<rparr>)"
    and "aa_phase a \<noteq> Terminal \<Longrightarrow> store_inv sha (s\<lparr>ps_attempt := Some a\<rparr>)"
proof -
  let ?t = "s\<lparr>ps_attempt := Some a\<rparr>"
  have pub: "head_publication ?t = head_publication s" by (rule head_publication_cong) simp_all
  have "repair_inv ?t"
    using assms pub by (auto simp: store_inv_def tables_inv_def repair_inv_def context_ok_def context_matches_def
        split: option.splits)
  moreover have "head_inv sha ?t"
    by (rule head_inv_cong [of _ s]) (use assms(1) in \<open>simp_all add: store_inv_def tables_inv_def head_inv_def\<close>)
  ultimately show *: "tables_inv sha ?t"
    using assms(1) by (simp add: store_inv_def tables_inv_def journal_inv_def retirement_inv_def)
  show "aa_phase a \<noteq> Terminal \<Longrightarrow> store_inv sha ?t"
    by (simp add: store_inv_def * terminal_blocked_def)
qed

lemma inv_attempt_None:
  assumes "store_inv sha s"
  shows "store_inv sha (s\<lparr>ps_attempt := None\<rparr>)"
proof -
  let ?t = "s\<lparr>ps_attempt := None\<rparr>"
  have pub: "head_publication ?t = head_publication s" by (rule head_publication_cong) simp_all
  have "head_inv sha ?t"
    by (rule head_inv_cong [of _ s]) (use assms in \<open>simp_all add: store_inv_def tables_inv_def head_inv_def\<close>)
  then show ?thesis
    using assms pub by (simp add: store_inv_def tables_inv_def journal_inv_def retirement_inv_def
        repair_inv_def context_ok_def terminal_blocked_def)
qed

lemma inv_attempt_ok: "store_inv sha s \<Longrightarrow> ps_attempt s = Some a \<Longrightarrow> attempt_ok a \<and> context_matches s (aa_key a)"
  by (auto simp: store_inv_def tables_inv_def repair_inv_def context_matches_def)

text \<open>Blocking a head, from whatever admissible state.\<close>

lemma inv_block:
  assumes "tables_inv sha s" "reason = RuntimeInvariant \<or> reason = SourceUnavailable \<and> hr_generation (ps_head s) = None"
  shows "store_inv sha (set_service ServiceRepairBlocked reason now s)"
  by (rule inv_set_service) (use assms in \<open>auto simp: head_admissible_def tables_inv_def head_inv_def\<close>)

lemmas inv_tables = store_inv_def [THEN iffD1, THEN conjunct1]

section \<open>The invariant under the attempts of an artifact repair\<close>

lemma inv_block_exact_head:
  "store_inv sha s \<Longrightarrow> block_exact_head key i n now s = Ok (b, s') \<Longrightarrow> store_inv sha s'"
  by (auto simp: block_exact_head_def result_simps intro: inv_block inv_tables split: if_splits)

lemma attempt_ok_set_retry:
  "attempt_ok a \<Longrightarrow> 0 \<le> now \<Longrightarrow> attempt_ok (set_retry (retry_at now (aa_count a)) kind now a)"
  by (simp add: attempt_ok_def set_retry_def)

lemma inv_set_retry:
  assumes "store_inv sha s" "ps_attempt s = Some a" "0 \<le> now"
  shows "store_inv sha (s\<lparr>ps_attempt := Some (set_retry (retry_at now (aa_count a)) kind now a)\<rparr>)"
  using inv_attempt_ok [OF assms(1,2)] attempt_ok_set_retry [OF _ assms(3)]
  by (intro inv_attempt_Some(2) [OF assms(1)]) (auto simp: set_retry_def)

lemma inv_acquire_fresh:
  assumes "store_inv sha s" "context_matches s key" "acquire_fresh h entropy key prior now s = Ok (out, s')"
    and "\<And>p. prior = Some p \<Longrightarrow> 1 \<le> pr_count p"
  shows "store_inv sha s'"
  using assms
  by (auto simp: acquire_fresh_def result_simps Let_def attempt_ok_def intro!: inv_attempt_Some(2)
      split: if_splits option.splits)

lemma inv_acquire_waiting:
  assumes inv: "store_inv sha s" and a: "ps_attempt s = Some a" and key: "aa_key a = key"
    and wait: "aa_phase a = RetryWait" and acquire: "acquire_waiting h entropy key a now s = Ok (out, s')"
  shows "store_inv sha s'"
proof -
  have ok: "attempt_ok a" "context_matches s (aa_key a)" using inv_attempt_ok [OF inv a] by simp_all
  from acquire consider
      (rebase) "0 \<le> now" "s' = s\<lparr>ps_attempt := Some (a\<lparr>aa_next_retry := Some (retry_at now (aa_count a)), aa_updated_at := now\<rparr>)\<rparr>"
    | (wait) "s' = s"
    | (block) b where "block_exact_head (aa_key a) (aa_id a) (aa_count a) now s = Ok (b, s')"
    | (fresh) p where "acquire_fresh h entropy key (Some p) now s = Ok (out, s')" "pr_count p = aa_count a"
    by (auto simp: acquire_waiting_def result_simps split: if_splits prod.splits)
  then show ?thesis
  proof cases
    case rebase
    with ok wait show ?thesis by (auto simp: attempt_ok_def intro!: inv_attempt_Some(2) [OF inv])
  next
    case fresh
    with ok key show ?thesis by (auto simp: attempt_ok_def intro: inv_acquire_fresh [OF inv])
  qed (use inv inv_block_exact_head in auto)
qed

lemma inv_acquire_interrupted:
  assumes inv: "store_inv sha s" and a: "ps_attempt s = Some a"
    and acquire: "acquire_interrupted a now s = Ok (out, s')"
  shows "store_inv sha s'"
proof -
  let ?s1 = "s\<lparr>ps_attempt := Some (set_retry (retry_at now (aa_count a)) Interrupted now a)\<rparr>"
  have "0 \<le> now" and cases: "s' = ?s1 \<or> (\<exists>b. block_exact_head (aa_key a) (aa_id a) (aa_count a) now ?s1 = Ok (b, s'))"
    using acquire by (auto simp: acquire_interrupted_def result_simps Let_def split: if_splits prod.splits)
  then have "store_inv sha ?s1" using inv_set_retry [OF inv a] by simp
  with cases show ?thesis by (auto intro: inv_block_exact_head)
qed

lemma inv_acquire_attempt:
  assumes inv: "store_inv sha s" and acquire: "acquire_attempt h entropy active key now s = Ok (out, s')"
  shows "store_inv sha s'"
proof (cases "exact_repair_context_matches s key")
  case False
  with assms show ?thesis by (auto simp: acquire_attempt_def result_simps)
next
  case True
  then have ctx: "context_matches s key" by (simp add: exact_repair_context_matches_def)
  show ?thesis
  proof (cases "ps_attempt s")
    case None
    with True acquire ctx show ?thesis
      by (auto simp: acquire_attempt_def result_simps intro: inv_acquire_fresh [OF inv])
  next
    case a: (Some a)
    show ?thesis
    proof (cases "aa_key a = key")
      case False
      with True a acquire ctx inv_attempt_None [OF inv] show ?thesis
        by (auto simp: acquire_attempt_def result_simps context_matches_def elim!: inv_acquire_fresh [rotated 2])
    next
      case key: True
      show ?thesis
      proof (cases "aa_phase a")
        case Running
        with True a key acquire inv show ?thesis
          by (auto simp: acquire_attempt_def result_simps intro: inv_acquire_interrupted split: if_splits)
      next
        case RetryWait
        with True a key acquire show ?thesis
          by (auto simp: acquire_attempt_def result_simps intro: inv_acquire_waiting [OF inv a key])
      next
        case Terminal
        with True a key acquire show ?thesis by (auto simp: acquire_attempt_def result_simps)
      qed
    qed
  qed
qed

lemma inv_delete_exact_attempt: "store_inv sha s \<Longrightarrow> store_inv sha (delete_exact_attempt t s)"
  by (simp add: delete_exact_attempt_def inv_attempt_None)

lemma inv_finish_attempt_failure:
  assumes inv: "store_inv sha s" and finish: "finish_attempt_failure t failure now s = Ok (out, s')"
  shows "store_inv sha s'"
proof (cases "exact_attempt s (at_key t) (at_id t) (at_count t) Running \<and> exact_repair_context_matches s (at_key t)")
  case False
  with finish inv show ?thesis
    by (auto simp: finish_attempt_failure_def result_simps inv_delete_exact_attempt split: if_splits prod.splits)
next
  case True
  then obtain a where a: "ps_attempt s = Some a" "aa_count a = at_count t" "aa_phase a = Running"
    by (auto simp: exact_attempt_def split: option.splits)
  obtain kind terminal where kind: "failure_kind failure = (kind, terminal)" by force
  let ?s1 = "s\<lparr>ps_attempt := Some (set_retry (retry_at now (aa_count a)) kind now a)\<rparr>"
  have "0 \<le> now" and cases: "s' = ?s1 \<or> (\<exists>b. block_exact_head (at_key t) (at_id t) (at_count t) now ?s1 = Ok (b, s'))"
    using finish True a kind
    by (auto simp: finish_attempt_failure_def exact_attempt_def result_simps Let_def split: if_splits prod.splits)
  then have "store_inv sha ?s1" using inv_set_retry [OF inv a(1)] by simp
  with cases show ?thesis by (auto intro: inv_block_exact_head)
qed

text \<open>What acquiring promises of the retry state it hands out with an attempt.\<close>

definition token_ok :: "artifact_attempt \<Rightarrow> bool" where
  "token_ok t \<longleftrightarrow> (case at_prior t of None \<Rightarrow> True
     | Some p \<Rightarrow> pr_next_retry p = retry_at (pr_updated_at p) (pr_count p) \<and>
         1 \<le> pr_count p \<and> pr_count p < MAX_ATTEMPTS \<and> 0 \<le> pr_updated_at p \<and> 0 \<le> pr_started_at p)"

lemma inv_cancel_attempt:
  assumes inv: "store_inv sha s" and "token_ok t" and cancel: "cancel_attempt h entropy t s = Ok (out, s')"
  shows "store_inv sha s'"
proof (cases "exact_attempt s (at_key t) (at_id t) (at_count t) Running")
  case False
  with assms show ?thesis by (auto simp: cancel_attempt_def result_simps)
next
  case True
  then obtain a where a: "ps_attempt s = Some a" by (auto simp: exact_attempt_def split: option.splits)
  show ?thesis
  proof (cases "at_prior t")
    case None
    with True cancel inv show ?thesis by (auto simp: cancel_attempt_def result_simps inv_delete_exact_attempt)
  next
    case (Some p)
    with True cancel assms(2) inv_attempt_ok [OF inv a] a show ?thesis
      by (auto simp: cancel_attempt_def result_simps attempt_ok_def token_ok_def MAX_ATTEMPTS_def
          intro!: inv_attempt_Some(2) [OF inv] split: if_splits)
  qed
qed

lemma acquire_token_ok:
  assumes inv: "store_inv sha s" and acquire: "acquire_attempt h entropy active key now s = Ok (Started t, s')"
  shows "token_ok t"
proof (cases "ps_attempt s")
  case None
  with acquire show ?thesis
    by (auto simp: acquire_attempt_def acquire_fresh_def token_ok_def result_simps Let_def split: if_splits)
next
  case (Some a)
  with inv_attempt_ok [OF inv Some] acquire show ?thesis
    by (auto simp: acquire_attempt_def acquire_interrupted_def acquire_waiting_def acquire_fresh_def token_ok_def
        attempt_ok_def result_simps Let_def split: if_splits attempt_phase.splits prod.splits)
qed

section \<open>The invariant under the repair context\<close>

lemma inv_context_ok: "store_inv sha s \<Longrightarrow> ps_context s = Some c \<Longrightarrow> context_ok s c"
  by (simp add: store_inv_def tables_inv_def repair_inv_def)

lemma inv_ready:
  assumes "store_inv sha s" "hr_service (ps_head s) = ServiceReady"
  shows "ps_context s = None" and "ps_attempt s = None"
proof -
  show "ps_context s = None"
    using assms inv_context_ok [OF assms(1)] by (cases "ps_context s") (auto simp: context_ok_def cleanup_due_def)
  with assms(1) show "ps_attempt s = None"
    by (cases "ps_attempt s") (auto simp: store_inv_def tables_inv_def repair_inv_def)
qed

lemma inv_unpublished:
  assumes "store_inv sha s" "hr_generation (ps_head s) = None"
  shows "ps_context s = None" and "ps_attempt s = None"
proof -
  show "ps_context s = None"
    using assms inv_context_ok [OF assms(1)] by (cases "ps_context s") (auto simp: context_ok_def cleanup_due_def)
  with assms(1) show "ps_attempt s = None"
    by (cases "ps_attempt s") (auto simp: store_inv_def tables_inv_def repair_inv_def)
qed

lemma inv_not_terminal:
  "store_inv sha s \<Longrightarrow> hr_service (ps_head s) \<noteq> ServiceRepairBlocked \<Longrightarrow> ps_attempt s = Some a \<Longrightarrow> aa_phase a \<noteq> Terminal"
  by (auto simp: store_inv_def terminal_blocked_def)

lemma inv_context_Some:
  assumes "store_inv sha s" "context_ok s c" "ps_context s = None"
  shows "store_inv sha (s\<lparr>ps_context := Some c\<rparr>)"
proof -
  let ?t = "s\<lparr>ps_context := Some c\<rparr>"
  have pub: "head_publication ?t = head_publication s" by (rule head_publication_cong) simp_all
  have "head_inv sha ?t"
    by (rule head_inv_cong [of _ s]) (use assms in \<open>simp_all add: store_inv_def tables_inv_def head_inv_def\<close>)
  then show ?thesis
    using assms pub by (auto simp: store_inv_def tables_inv_def journal_inv_def retirement_inv_def
        repair_inv_def context_ok_def terminal_blocked_def)
qed

lemma inv_delete_context:
  assumes "store_inv sha s"
  shows "store_inv sha (delete_context s)" and "ps_context (delete_context s) = None"
    and "ps_head (delete_context s) = ps_head s" and "ps_journal (delete_context s) = ps_journal s"
    and "ps_active (delete_context s) = ps_active s"
proof -
  show f: "ps_context (delete_context s) = None" "ps_head (delete_context s) = ps_head s"
    "ps_journal (delete_context s) = ps_journal s" "ps_active (delete_context s) = ps_active s"
    by (simp_all add: delete_context_def split: option.split)
  have a: "ps_attempt (delete_context s) = None" and r: "ps_retirements (delete_context s) = ps_retirements s"
    using assms by (auto simp: delete_context_def store_inv_def tables_inv_def repair_inv_def split: option.split)
  have "head_inv sha (delete_context s)"
    by (rule head_inv_cong [of _ s]) (use assms f in \<open>simp_all add: store_inv_def tables_inv_def head_inv_def\<close>)
  then show "store_inv sha (delete_context s)"
    using assms f a r by (simp add: store_inv_def tables_inv_def journal_inv_def retirement_inv_def
        repair_inv_def terminal_blocked_def)
qed

lemma insert_context_Ok:
  assumes "insert_context service reason g e now s = Ok s'"
  shows "s' = s \<or> (\<exists>c. ps_context s = None \<and> s' = s\<lparr>ps_context := Some c\<rparr> \<and>
     rk_generation (rc_key c) = g \<and> rk_epoch (rc_key c) = e \<and> hr_service (ps_head s) = service \<and>
     hr_reason (ps_head s) = reason \<and> hr_generation (ps_head s) = Some g \<and> hr_epoch (ps_head s) = e \<and>
     map_option pub_fingerprint (head_publication s) = Some (Some (rk_fingerprint (rc_key c))))"
  using assms
  by (auto simp: insert_context_def head_publication_def Let_def split: if_splits option.splits)

lemma set_service_context:
  assumes "ps_context s = None" "\<not> cleanup_due (ps_head (set_service st reason now s)) c" "st \<noteq> ServiceReady"
  shows "set_service st reason now (s\<lparr>ps_context := Some c\<rparr>) = (set_service st reason now s)\<lparr>ps_context := Some c\<rparr>"
  using assms by (simp add: set_service_def update_head_def Let_def)

lemma inv_begin_artifact_repair:
  assumes inv: "store_inv sha s" and begin_ok: "begin_artifact_repair h g e now s = Ok (out, s')"
  shows "store_inv sha s'"
proof -
  have "s' = s \<or> (\<exists>s1. insert_context ServiceReady None g e now s = Ok s1 \<and> (out, s') = enter_artifact_repair g e now s1)"
    using begin_ok
    by (auto simp: begin_artifact_repair_def value_i64_def result_simps Let_def split: if_splits)
  then show ?thesis
  proof
    assume "\<exists>s1. insert_context ServiceReady None g e now s = Ok s1 \<and> (out, s') = enter_artifact_repair g e now s1"
    then obtain s1 where ins: "insert_context ServiceReady None g e now s = Ok s1"
      and enter: "(out, s') = enter_artifact_repair g e now s1" by blast
    have repairing: "store_inv sha (set_service ServiceRepairing ArtifactUnavailable now s)"
      if "hr_generation (ps_head s) = Some g" "hr_service (ps_head s) \<noteq> ServiceRepairBlocked"
      by (rule inv_set_service [OF inv_tables [OF inv]])
        (use that inv inv_not_terminal [OF inv] in
          \<open>auto simp: head_admissible_def store_inv_def tables_inv_def head_inv_def\<close>)
    from insert_context_Ok [OF ins] show ?thesis
    proof
      assume "s1 = s"
      with enter inv repairing show ?thesis by (auto simp: enter_artifact_repair_def Let_def split: if_splits)
    next
      assume "\<exists>c. ps_context s = None \<and> s1 = s\<lparr>ps_context := Some c\<rparr> \<and>
        rk_generation (rc_key c) = g \<and> rk_epoch (rc_key c) = e \<and> hr_service (ps_head s) = ServiceReady \<and>
        hr_reason (ps_head s) = None \<and> hr_generation (ps_head s) = Some g \<and> hr_epoch (ps_head s) = e \<and>
        map_option pub_fingerprint (head_publication s) = Some (Some (rk_fingerprint (rc_key c)))"
      then obtain c where c: "ps_context s = None" "s1 = s\<lparr>ps_context := Some c\<rparr>"
        "rk_generation (rc_key c) = g" "rk_epoch (rc_key c) = e" "hr_service (ps_head s) = ServiceReady"
        "hr_reason (ps_head s) = None" "hr_generation (ps_head s) = Some g" "hr_epoch (ps_head s) = e"
        "map_option pub_fingerprint (head_publication s) = Some (Some (rk_fingerprint (rc_key c)))"
        by blast
      let ?t = "set_service ServiceRepairing ArtifactUnavailable now s"
      have keep: "\<not> cleanup_due (ps_head ?t) c" using c by (simp add: cleanup_due_def)
      have "s' = set_service ServiceRepairing ArtifactUnavailable now s1"
        using enter c by (simp add: enter_artifact_repair_def exact_context_def Let_def)
      then have s': "s' = ?t\<lparr>ps_context := Some c\<rparr>" using set_service_context [OF c(1) keep] c(2) by simp
      have "head_publication ?t = head_publication s" by (rule head_publication_cong) simp_all
      then have "context_ok ?t c" using keep c(9) by (simp add: context_ok_def)
      moreover have "ps_context ?t = None" using c(1) by (simp add: set_service_def context_update_head Let_def)
      moreover have "store_inv sha ?t" using repairing c by simp
      ultimately show ?thesis unfolding s' by (intro inv_context_Some)
    qed
  qed (use inv in simp)
qed

lemma inv_insert_context_blocked:
  assumes inv: "store_inv sha s" and ins: "insert_context ServiceRepairBlocked (Some RuntimeInvariant) g e now s = Ok s'"
  shows "store_inv sha s'" and "ps_head s' = ps_head s"
  using insert_context_Ok [OF ins] inv inv_context_Some [OF inv]
  by (auto simp: context_ok_def cleanup_due_def)

lemma inv_delete_attempt_of:
  assumes "store_inv sha s"
  shows "store_inv sha (delete_attempt_of g e s)"
proof -
  have "delete_attempt_of g e s = s \<or> delete_attempt_of g e s = s\<lparr>ps_attempt := None\<rparr>"
    by (cases "ps_attempt s") (auto simp: delete_attempt_of_def)
  then show ?thesis using assms inv_attempt_None [OF assms] by auto
qed

lemma delete_attempt_of_exact:
  assumes "store_inv sha s" "exact_context s g e"
  shows "ps_attempt (delete_attempt_of g e s) = None" and "ps_head (delete_attempt_of g e s) = ps_head s"
  using assms
  by (auto simp: delete_attempt_of_def exact_context_def store_inv_def tables_inv_def repair_inv_def split: option.splits)

lemma inv_reopen_blocked:
  assumes inv: "store_inv sha s" and head: "runtime_blocked_head s (Some g) e"
    and reopen: "reopen_blocked g e now s = Ok (out, s')"
  shows "store_inv sha s'"
proof -
  let ?ins = "insert_context ServiceRepairBlocked (Some RuntimeInvariant) g e now"
  obtain s1 s2 where s1: "?ins s = Ok s1"
    and s2: "(if exact_context s1 g e then Ok s1 else ?ins (delete_context s1)) = Ok s2"
    and out: "(if \<not> exact_context s2 g e then Ok (Superseded, s2)
       else Ok (Applied, set_service ServiceRepairing ArtifactUnavailable now (delete_attempt_of g e s2)) :: publication_outcome tx) = Ok (out, s')"
    using reopen unfolding reopen_blocked_def rbind_eq_Inr by (elim exE conjE) (rule that)
  have s': "s' = (if exact_context s2 g e
       then set_service ServiceRepairing ArtifactUnavailable now (delete_attempt_of g e s2) else s2)"
    using out by (auto split: if_splits)
  have 1: "store_inv sha s1" "ps_head s1 = ps_head s" using inv_insert_context_blocked [OF inv s1] by simp_all
  have 2: "store_inv sha s2" "ps_head s2 = ps_head s"
    using s2 1 inv_insert_context_blocked [OF inv_delete_context(1) [OF 1(1)]] inv_delete_context(3) [OF 1(1)]
    by (auto split: if_splits)
  show ?thesis
  proof (cases "exact_context s2 g e")
    case True
    let ?d = "delete_attempt_of g e s2"
    have d: "ps_attempt ?d = None" "ps_head ?d = ps_head s" "store_inv sha ?d"
      using delete_attempt_of_exact [OF 2(1) True] 2 inv_delete_attempt_of [OF 2(1)] by simp_all
    have "store_inv sha (set_service ServiceRepairing ArtifactUnavailable now ?d)"
      by (rule inv_set_service [OF inv_tables [OF d(3)]])
        (use d head inv in \<open>auto simp: head_admissible_def runtime_blocked_head_def store_inv_def tables_inv_def head_inv_def\<close>)
    with True show ?thesis by (simp add: s')
  qed (use 2 s' in simp)
qed

lemma inv_reopen:
  "store_inv sha s \<Longrightarrow> reopen_runtime_invariant_for_artifact_repair g e now s = Ok (out, s') \<Longrightarrow> store_inv sha s'"
  by (auto simp: reopen_runtime_invariant_for_artifact_repair_def value_i64_def result_simps
      intro: inv_reopen_blocked split: if_splits)

lemma inv_block_artifact_repair:
  "store_inv sha s \<Longrightarrow> block_artifact_repair g f e now s = Ok (out, s') \<Longrightarrow> store_inv sha s'"
  by (auto simp: block_artifact_repair_def value_i64_def result_simps intro: inv_block inv_tables split: if_splits)

section \<open>The invariant under migration rebuilds\<close>

lemma inv_migration_field: "store_inv sha (s\<lparr>ps_migration := m\<rparr>) = store_inv sha s"
  by (rule tables_inv_cong(2)) simp_all

lemma inv_block_unpublished:
  "store_inv sha s \<Longrightarrow> block_unpublished_migration_head now s = (b, s') \<Longrightarrow> store_inv sha s'"
  by (auto simp: block_unpublished_migration_head_def intro: inv_block inv_tables split: if_splits)

lemma inv_block_or_supersede: "store_inv sha s \<Longrightarrow> block_or_supersede now s = Ok (out, s') \<Longrightarrow> store_inv sha s'"
  by (auto simp: block_or_supersede_def intro: inv_block_unpublished split: prod.splits)

lemma inv_start_migration_attempt:
  "store_inv sha s \<Longrightarrow> start_migration_attempt h entropy b n now s = Ok (out, s') \<Longrightarrow> store_inv sha s'"
  by (auto simp: start_migration_attempt_def result_simps inv_migration_field split: if_splits)

lemma inv_acquire_publication_attempt:
  assumes "store_inv sha s" "acquire_publication_attempt h entropy active b now s = Ok (out, s')"
  shows "store_inv sha s'"
  using assms
  by (auto simp: acquire_publication_attempt_def result_simps Let_def inv_migration_field
      dest: inv_start_migration_attempt [of sha, rotated] inv_block_or_supersede [of sha, rotated]
      split: if_splits option.splits attempt_phase.splits)

lemma inv_delete_migration: "store_inv sha (delete_exact_migration_attempt t s) = store_inv sha s"
  by (simp add: delete_exact_migration_attempt_def inv_migration_field)

lemma inv_finish_publication_attempt_failure:
  assumes "store_inv sha s" "finish_publication_attempt_failure t failure now s = Ok (out, s')"
  shows "store_inv sha s'"
  using assms
  by (auto simp: finish_publication_attempt_failure_def Let_def inv_migration_field inv_delete_migration
      dest: inv_block_unpublished [of sha, rotated] split: if_splits prod.splits)

lemma inv_block_migration_rebuild:
  "store_inv sha s \<Longrightarrow> block_migration_rebuild reason now s = Ok (out, s') \<Longrightarrow> store_inv sha s'"
  by (auto simp: block_migration_rebuild_def unpublished_migration_head_def intro: inv_block inv_tables split: if_splits)

lemma inv_activate:
  assumes inv: "store_inv sha s" and "activate_migration_rebuild_contract c running now s = Ok (out, s')"
  shows "store_inv sha s'"
proof -
  let ?s1 = "s\<lparr>ps_roots := map (\<lambda>r. r\<lparr>rr_latest_task := None\<rparr>) (ps_roots s), ps_unfinished := False,
      ps_active_contract := Some c, ps_migration := None\<rparr>"
  have 1: "store_inv sha ?s1" using inv by (simp add: tables_inv_cong(2) [of ?s1 s])
  have "s' = s \<or> s' = ?s1 \<or> hr_generation (ps_head s) = None \<and> s' = set_service ServiceRepairing MigrationRebuild now ?s1"
    using assms(2) by (auto simp: activate_migration_rebuild_contract_def Let_def split: if_splits)
  moreover have "store_inv sha (set_service ServiceRepairing MigrationRebuild now ?s1)" if "hr_generation (ps_head s) = None"
    by (rule inv_set_service [OF inv_tables [OF 1]])
      (use that inv inv_unpublished [OF inv] in \<open>auto simp: head_admissible_def store_inv_def tables_inv_def head_inv_def\<close>)
  ultimately show ?thesis using inv 1 by auto
qed

section \<open>The invariant under retirements\<close>

lemma inv_settle_current_head:
  "store_inv sha s \<Longrightarrow> settle_current_head p now s = Ok (out, s') \<Longrightarrow> store_inv sha s'"
  by (auto simp: settle_current_head_def block_current_head_def result_simps Let_def intro: inv_block inv_tables
      split: if_splits prod.splits)

lemma inv_settle_migration:
  assumes "store_inv sha s" "settle_migration h p c d i n now s = Ok (out, s')"
  shows "store_inv sha s'"
  using assms
  by (auto simp: settle_migration_def settle_migration_attempt_def block_migration_head_def result_simps Let_def
      inv_migration_field intro!: inv_block inv_tables split: if_splits prod.splits)

text \<open>What settling an artifact repair does: nothing, or the attempt ends and its head is blocked.\<close>

definition ended_attempt :: "int \<Rightarrow> artifact_attempt_row \<Rightarrow> artifact_attempt_row" where
  "ended_attempt now a = a\<lparr>aa_phase := Terminal, aa_next_retry := None, aa_error := Some Cleanup, aa_updated_at := now\<rparr>"

lemma settle_artifact_cases:
  assumes "settle_artifact p key i n now s = Ok (out, s')"
  obtains "out \<noteq> HeadBlocked" "s' = s"
  | a where "out = HeadBlocked" "exact_attempt s key i n Running" "context_matches s key"
      "artifact_repair_head s (rk_generation key) (rk_epoch key)" "ps_attempt s = Some a" "0 \<le> now"
      "s' = set_service ServiceRepairBlocked RuntimeInvariant now (s\<lparr>ps_attempt := Some (ended_attempt now a)\<rparr>)"
proof -
  obtain already where r1: "(if already then Ok (ExactHeadAlreadyBlocked, s)
     else rbind (exact_running_artifact_attempt s key i n) (\<lambda>running.
     if \<not> running then Ok (HeadSuperseded, s)
     else rbind (settle_artifact_attempt key i n now s) (\<lambda>(settled, s1).
       if \<not> settled then Ok (HeadSuperseded, s)
       else rbind (block_artifact_head key now s1) (\<lambda>(head_blocked, s2).
         if \<not> head_blocked then Ok (HeadSuperseded, s) else Ok (HeadBlocked, s2))))) = Ok (out, s')"
    using assms unfolding settle_artifact_def by (rule rbind_eq_Inr [THEN iffD1, THEN exE]) (elim conjE, rule that)
  show thesis
  proof (cases "already \<or> exact_running_artifact_attempt s key i n \<noteq> Ok True")
    case True
    with r1 show thesis by (auto simp: result_simps split: if_splits intro: that(1))
  next
    case False
    then have run: "exact_attempt s key i n Running" "context_matches s key" "rk_epoch key \<le> i64_max"
      "artifact_repair_head s (rk_generation key) (rk_epoch key)"
      by (auto simp: exact_running_artifact_attempt_def epoch_i64_def result_simps split: if_splits)
    then obtain a where a: "ps_attempt s = Some a" by (auto simp: exact_attempt_def split: option.splits)
    let ?s1 = "s\<lparr>ps_attempt := Some (ended_attempt now a)\<rparr>"
    have now: "0 \<le> now" and blocked: "rbind (block_artifact_head key now ?s1) (\<lambda>(head_blocked, s2).
         if \<not> head_blocked then Ok (HeadSuperseded, s) else Ok (HeadBlocked, s2)) = Ok (out, s')"
      using r1 False run a
      by (auto simp: settle_artifact_attempt_def epoch_i64_def ended_attempt_def rbind_eq_Inr split: if_splits)
    have "block_artifact_head key now ?s1 = Ok (True, set_service ServiceRepairBlocked RuntimeInvariant now ?s1)"
      using run by (simp add: block_artifact_head_def epoch_i64_def artifact_repair_head_def context_matches_def)
    with blocked now run a show thesis by (intro that(2)) auto
  qed
qed

lemma inv_settle_artifact:
  assumes inv: "store_inv sha s" and settle: "settle_artifact p key i n now s = Ok (out, s')"
  shows "store_inv sha s'"
  using settle
proof (cases rule: settle_artifact_cases)
  case (2 a)
  then have "tables_inv sha (s\<lparr>ps_attempt := Some (ended_attempt now a)\<rparr>)"
    using inv_attempt_ok [OF inv]
    by (intro inv_attempt_Some(1) [OF inv]) (auto simp: attempt_ok_def ended_attempt_def)
  with 2 show ?thesis by (auto intro: inv_block)
qed (use inv in simp)

lemma settle_cases:
  assumes "settle_search_publication_retirement_failure h g now s = Ok (out, s')"
  obtains p a where "search_publication_in_connection h s g = Ok (Some p)" "read_authority s g = Some a"
    "pub_state p = Abandoned" "retirement_is_pending s g"
    "(case a of CurrentHead \<Rightarrow> settle_current_head p now s
      | MigrationRebuildAuthority c d i n \<Rightarrow> settle_migration h p c d i n now s
      | ArtifactRepairAuthority key i n \<Rightarrow> settle_artifact p key i n now s) = Ok (out, s')"
  using assms
  by (auto simp: settle_search_publication_retirement_failure_def rbind_eq_Inr split: if_splits)

lemma inv_settle:
  assumes inv: "store_inv sha s" and settle: "settle_search_publication_retirement_failure h g now s = Ok (out, s')"
  shows "store_inv sha s'"
proof -
  obtain p a where "(case a of CurrentHead \<Rightarrow> settle_current_head p now s
      | MigrationRebuildAuthority c d i n \<Rightarrow> settle_migration h p c d i n now s
      | ArtifactRepairAuthority key i n \<Rightarrow> settle_artifact p key i n now s) = Ok (out, s')"
    by (rule settle_cases [OF settle])
  then show ?thesis
    using inv_settle_current_head [OF inv] inv_settle_migration [OF inv] inv_settle_artifact [OF inv]
    by (cases a) auto
qed

section \<open>The invariant under changes of the journal\<close>

lemma inv_journal_change:
  assumes inv: "store_inv sha s" and "journal_inv sha t" "retirement_inv t"
    and same: "ps_head t = ps_head s" "ps_active t = ps_active s" "ps_context t = ps_context s" "ps_attempt t = ps_attempt s"
    and row: "\<And>g. hr_generation (ps_head s) = Some g \<Longrightarrow> journal_row_of t g = journal_row_of s g"
  shows "store_inv sha t"
proof -
  have pub: "head_publication t = head_publication s"
    using row same by (cases "hr_generation (ps_head s)") (simp_all add: head_publication_def)
  have "published_by sha p t = published_by sha p s" for p using same by (simp add: published_by_def)
  then have "head_inv sha t" using inv same pub by (simp add: store_inv_def tables_inv_def head_inv_def)
  with assms pub show ?thesis
    by (simp add: store_inv_def tables_inv_def repair_inv_def context_ok_def terminal_blocked_def)
qed

lemma inv_journal: "store_inv sha s \<Longrightarrow> journal_inv sha s" "store_inv sha s \<Longrightarrow> retirement_inv s"
  by (simp_all add: store_inv_def tables_inv_def)

lemma head_row_ready:
  assumes "store_inv sha s" "hr_generation (ps_head s) = Some g"
  shows "\<exists>j. journal_row_of s g = Some j \<and> pub_state (jr_publication j) = Ready \<and> published_by sha (jr_publication j) s"
  using assms by (auto simp: store_inv_def tables_inv_def head_inv_def head_publication_def published_by_def)

lemma journal_inv_on_journal:
  assumes inv: "journal_inv sha s" and gen: "\<And>p. pub_generation (f p) = pub_generation p"
    and ok: "\<And>j. journal_row_of s g = Some j \<Longrightarrow> pub_ok sha (f (jr_publication j))"
  shows "journal_inv sha (on_journal g f s)"
proof -
  let ?u = "\<lambda>j. if jr_generation j = g then j\<lparr>jr_publication := f (jr_publication j)\<rparr> else j"
  have gens: "map jr_generation (map ?u (ps_journal s)) = map jr_generation (ps_journal s)" using gen by simp
  have "pub_ok sha (jr_publication (?u j))" if "j \<in> set (ps_journal s)" for j
    using inv that ok [of j] journal_row_of_unique [of s j] by (auto simp: journal_inv_def)
  then have "\<forall>j \<in> set (map ?u (ps_journal s)). pub_ok sha (jr_publication j)"
    unfolding set_map by blast
  moreover have "ps_journal (on_journal g f s) = map ?u (ps_journal s)" by (simp add: on_journal_def)
  ultimately show ?thesis using inv gens unfolding journal_inv_def by presburger
qed

lemma retirement_inv_on_journal:
  assumes inv: "journal_inv sha s" "retirement_inv s" and gen: "\<And>p. pub_generation (f p) = pub_generation p"
    and state: "\<And>j. journal_row_of s g = Some j \<Longrightarrow> pub_state (jr_publication j) = Abandoned \<Longrightarrow>
      pub_state (f (jr_publication j)) = Abandoned"
  shows "retirement_inv (on_journal g f s)"
  unfolding retirement_inv_def
proof (intro conjI ballI)
  show "distinct (map rt_generation (ps_retirements (on_journal g f s)))"
    using inv(2) by (simp add: retirement_inv_def)
  fix r assume "r \<in> set (ps_retirements (on_journal g f s))"
  then obtain j where j: "j \<in> set (ps_journal s)" "jr_generation j = rt_generation r" "pub_state (jr_publication j) = Abandoned"
    using inv(2) by (auto simp: retirement_inv_def)
  have row: "journal_row_of s (jr_generation j) = Some j"
    using inv(1) j(1) by (intro journal_row_of_unique) (simp_all add: journal_inv_def)
  let ?u = "\<lambda>j. if jr_generation j = g then j\<lparr>jr_publication := f (jr_publication j)\<rparr> else j"
  have "?u j \<in> set (ps_journal (on_journal g f s))" using j(1) by (auto simp: on_journal_def)
  moreover have "jr_generation (?u j) = rt_generation r" "pub_state (jr_publication (?u j)) = Abandoned"
    using j gen state [of j] row by auto
  ultimately show "\<exists>j \<in> set (ps_journal (on_journal g f s)).
      jr_generation j = rt_generation r \<and> pub_state (jr_publication j) = Abandoned" by blast
qed

lemma pub_ok_set_state:
  assumes "pub_ok sha p" "pub_state p = Validated \<and> st = Ready \<or> st = Abandoned"
  shows "pub_ok sha (set_publication_state st now p)"
  using assms
  by (auto simp: pub_ok_def read_publication_def set_publication_state_def result_simps
      split: if_splits option.splits)

lemma set_publication_state_simps [simp]:
  "pub_generation (set_publication_state st now p) = pub_generation p"
  "pub_state (set_publication_state st now p) = st"
  "pub_expected_visible_epoch (set_publication_state st now p) = pub_expected_visible_epoch p"
  "pub_base_generation (set_publication_state st now p) = pub_base_generation p"
  "pub_projection_digest (set_publication_state st now p) = pub_projection_digest p"
  "pub_fulltext (set_publication_state st now p) = pub_fulltext p"
  by (simp_all add: set_publication_state_def)

lemma inv_on_journal:
  assumes inv: "store_inv sha s" and gen: "\<And>p. pub_generation (f p) = pub_generation p"
    and row: "journal_row_of s g = Some j" "pub_state (jr_publication j) \<noteq> Ready"
    and ok: "pub_ok sha (f (jr_publication j))"
    and state: "pub_state (jr_publication j) = Abandoned \<Longrightarrow> pub_state (f (jr_publication j)) = Abandoned"
  shows "store_inv sha (on_journal g f s)"
proof (rule inv_journal_change [OF inv])
  show "journal_inv sha (on_journal g f s)"
    by (rule journal_inv_on_journal [OF inv_journal(1) [OF inv] gen]) (use row ok in simp)
  show "retirement_inv (on_journal g f s)"
    by (rule retirement_inv_on_journal [OF inv_journal [OF inv] gen]) (use row state in simp)
  show "journal_row_of (on_journal g f s) k = journal_row_of s k" if "hr_generation (ps_head s) = Some k" for k
    using head_row_ready [OF inv that] row by (auto simp: journal_row_of_on_journal [OF gen])
qed simp_all

lemma inv_retire_row:
  assumes inv: "store_inv sha s" and "retirement_in_connection s (rt_generation r) = None"
    and row: "journal_row_of s (rt_generation r) = Some j" "pub_state (jr_publication j) = Abandoned"
  shows "store_inv sha (s\<lparr>ps_retirements := ps_retirements s @ [r]\<rparr>)"
proof (rule inv_journal_change [OF inv])
  have fresh: "rt_generation r \<notin> rt_generation ` set (ps_retirements s)"
    using assms(2) by (auto simp: retirement_in_connection_def find_None_iff)
  have "j \<in> set (ps_journal s) \<and> jr_generation j = rt_generation r" using journal_row_of_Some [OF row(1)] .
  with inv_journal(2) [OF inv] fresh row(2)
  show "retirement_inv (s\<lparr>ps_retirements := ps_retirements s @ [r]\<rparr>)" by (auto simp: retirement_inv_def)
  show "journal_inv sha (s\<lparr>ps_retirements := ps_retirements s @ [r]\<rparr>)"
    using inv_journal(1) [OF inv] by (simp add: journal_inv_def)
qed (simp_all add: journal_row_of_def)

lemma on_journal_retirements: "on_journal g f (s\<lparr>ps_retirements := r\<rparr>) = (on_journal g f s)\<lparr>ps_retirements := r\<rparr>"
  by (simp add: on_journal_def)

lemma begin_retirement_cases:
  assumes "begin_retirement_in_connection h g now plan s = Ok s'"
  obtains "s' = s" "retirement_in_connection s g \<noteq> None"
  | p s1 where "search_publication_in_connection h s g = Ok (Some p)" "pub_state p \<noteq> Ready"
      "retirement_in_connection s g = None"
      "s1 = (if pub_state p = Abandoned then s else on_journal g (set_publication_state Abandoned now) s)"
      "s' = s1\<lparr>ps_retirements := ps_retirements s1 @ [new_retirement g now plan]\<rparr>"
proof (cases "retirement_in_connection s g")
  case (Some e)
  with assms have "s' = s" by (auto simp: begin_retirement_in_connection_def rbind_eq_Inr split: if_splits)
  with Some show thesis by (intro that(1)) simp_all
next
  case None
  let ?r = "\<lambda>s. s\<lparr>ps_retirements := ps_retirements s @ [new_retirement g now plan]\<rparr>"
  from assms None obtain p where p: "search_publication_in_connection h s g = Ok (Some p)" "pub_state p \<noteq> Ready"
    and s': "s' = (if pub_state p = Abandoned then ?r s else on_journal g (set_publication_state Abandoned now) (?r s))"
    by (auto simp: begin_retirement_in_connection_def rbind_eq_Inr Let_def split: if_splits)
  from p None show thesis by (rule that(2) [OF _ _ _ refl]) (simp add: s' on_journal_retirements)
qed

lemma inv_begin_retirement:
  assumes inv: "store_inv sha s" and "begin_retirement_in_connection sha g now plan s = Ok s'"
  shows "store_inv sha s'"
  using assms(2)
proof (cases rule: begin_retirement_cases)
  case (2 p s1)
  obtain j where j: "journal_row_of s g = Some j" "jr_publication j = p" "pub_ok sha p"
    using search_publication_in_connection_Ok [OF 2(1)] by blast
  have "store_inv sha s1"
    using inv 2(2,4) j by (auto intro!: inv_on_journal [OF inv] pub_ok_set_state)
  moreover have "\<exists>k. journal_row_of s1 g = Some k \<and> pub_state (jr_publication k) = Abandoned"
    using j 2(4) by (auto simp: journal_row_of_on_journal)
  moreover have "retirement_in_connection s1 g = None"
    using 2(3,4) by (simp add: retirement_in_connection_def)
  moreover have "rt_generation (new_retirement g now plan) = g" by (simp add: new_retirement_def Let_def)
  ultimately show ?thesis using 2(5) inv_retire_row [of sha s1 "new_retirement g now plan"] by auto
qed (use inv in simp)

lemma inv_complete_retirement:
  assumes inv: "store_inv sha s" and "complete_search_publication_retirement_artifact g artifact now s = Ok (u, s')"
  shows "store_inv sha s'"
proof -
  define u where "u r = (if rt_generation r = g then complete_artifact artifact now r else r)" for r
  have cases: "s' = s \<or> s' = s\<lparr>ps_retirements := map u (ps_retirements s)\<rparr>"
    using assms(2)
    by (auto simp: complete_search_publication_retirement_artifact_def rbind_eq_Inr u_def [abs_def] split: if_splits)
  have gen: "rt_generation (u r) = rt_generation r" for r by (cases artifact) (auto simp: u_def)
  then have gens: "map rt_generation (map u rs) = map rt_generation rs" for rs by simp
  have "store_inv sha (s\<lparr>ps_retirements := map u (ps_retirements s)\<rparr>)"
  proof (rule inv_journal_change [OF inv])
    show "journal_inv sha (s\<lparr>ps_retirements := map u (ps_retirements s)\<rparr>)"
      using inv_journal(1) [OF inv] by (simp add: journal_inv_def)
    show "retirement_inv (s\<lparr>ps_retirements := map u (ps_retirements s)\<rparr>)"
      using inv_journal(2) [OF inv] gen gens [of "ps_retirements s"] unfolding retirement_inv_def
      by (simp del: map_map)
  qed (simp_all add: journal_row_of_def)
  with cases inv show ?thesis by auto
qed

lemma inv_append_row:
  assumes inv: "store_inv sha s" and fresh: "journal_row_of s (jr_generation j) = None" and ok: "pub_ok sha (jr_publication j)"
  shows "store_inv sha (s\<lparr>ps_journal := ps_journal s @ [j]\<rparr>)"
    and "journal_row_of (s\<lparr>ps_journal := ps_journal s @ [j]\<rparr>) (jr_generation j) = Some j"
proof -
  have new: "jr_generation j \<notin> jr_generation ` set (ps_journal s)"
    using fresh by (auto simp: journal_row_of_def find_None_iff)
  have find_append: "find P (xs @ ys) = (case find P xs of None \<Rightarrow> find P ys | Some x \<Rightarrow> Some x)" for P :: "journal_row \<Rightarrow> bool" and xs ys
    by (induction xs) auto
  show "journal_row_of (s\<lparr>ps_journal := ps_journal s @ [j]\<rparr>) (jr_generation j) = Some j"
    using fresh by (simp add: journal_row_of_def find_append)
  show "store_inv sha (s\<lparr>ps_journal := ps_journal s @ [j]\<rparr>)"
  proof (rule inv_journal_change [OF inv])
    show "journal_inv sha (s\<lparr>ps_journal := ps_journal s @ [j]\<rparr>)"
      using inv_journal(1) [OF inv] ok new by (auto simp: journal_inv_def)
    show "retirement_inv (s\<lparr>ps_journal := ps_journal s @ [j]\<rparr>)"
      using inv_journal(2) [OF inv] by (auto simp: retirement_inv_def)
    show "journal_row_of (s\<lparr>ps_journal := ps_journal s @ [j]\<rparr>) g = journal_row_of s g"
      if "hr_generation (ps_head s) = Some g" for g
      using head_row_ready [OF inv that] by (auto simp: journal_row_of_def find_append)
  qed simp_all
qed

lemma begin_publication_cases:
  assumes "begin_search_publication h active draft s = Ok (out, s')"
  obtains authority s1 where "s1 = s\<lparr>ps_journal := ps_journal s @ [\<lparr> jr_publication = drafted draft, jr_authority = authority \<rparr>]\<rparr>"
    "journal_row_of s (dr_generation draft) = None" "ensure_no_pending_retirement s = Ok ()" "0 \<le> dr_now draft"
    "out = Applied \<and> s' = s1 \<and> authority_for_begin h s active draft = Ok (Some authority) \<or>
     out = Superseded \<and> begin_retirement_in_connection h (dr_generation draft) (dr_now draft) plan_none s1 = Ok s' \<and>
       authority_for_begin h s active draft = Ok None \<and> authority = CurrentHead"
  using assms
  by (auto simp: begin_search_publication_def rbind_eq_Inr Let_def split: if_splits option.splits)

lemma drafted_generation [simp]: "pub_generation (drafted draft) = dr_generation draft"
  by (simp add: drafted_def)

lemma pub_ok_drafted: "pub_ok sha (drafted draft)"
  by (simp add: pub_ok_def read_publication_def drafted_def)

lemma inv_begin_publication:
  assumes inv: "store_inv sha s" and "begin_search_publication sha active draft s = Ok (out, s')"
  shows "store_inv sha s'"
  using assms(2)
proof (cases rule: begin_publication_cases)
  case (1 authority s1)
  have "store_inv sha s1"
    unfolding 1(1) by (rule inv_append_row(1) [OF inv]) (use 1(2) in \<open>simp_all add: pub_ok_drafted\<close>)
  with 1(5) show ?thesis by (auto intro: inv_begin_retirement)
qed

lemma validate_publication_cases:
  assumes "validate_search_publication sha v s = Ok (u, s')"
  obtains j where "journal_row_of s (va_generation v) = Some j" "pub_state (jr_publication j) = Preparing"
    "pub_ok sha (jr_publication j)" "pub_generation (jr_publication j) = va_generation v"
    "validate_descriptors sha v = Ok ()" "counts_fit v"
    "pub_projection_digest (jr_publication j) = ftd_projection_digest (va_fulltext v)"
    "s' = on_journal (va_generation v) (set_validated (search_publication_fingerprint sha
       (pub_classifier_epoch (jr_publication j)) (pub_projection_digest (jr_publication j)) (va_fulltext v) (va_vector v)) v) s"
proof -
  from assms obtain p where p: "search_publication_in_connection sha s (va_generation v) = Ok (Some p)"
    "validate_descriptors sha v = Ok ()" "pub_state p = Preparing" "counts_fit v"
    "pub_projection_digest p = ftd_projection_digest (va_fulltext v)"
    "s' = on_journal (va_generation v) (set_validated (search_publication_fingerprint sha
       (pub_classifier_epoch p) (pub_projection_digest p) (va_fulltext v) (va_vector v)) v) s"
    by (auto simp: validate_search_publication_def rbind_eq_Inr Let_def split: if_splits)
  with search_publication_in_connection_Ok [OF p(1)] that show thesis by auto
qed

lemma pub_ok_validated:
  assumes "validate_descriptors sha v = Ok ()" "pub_generation p = va_generation v"
    "pub_projection_digest p = ftd_projection_digest (va_fulltext v)"
  shows "pub_ok sha (set_validated (search_publication_fingerprint sha (pub_classifier_epoch p)
     (pub_projection_digest p) (va_fulltext v) (va_vector v)) v p)"
proof -
  have "validate_descriptors sha (v\<lparr>va_now := 0\<rparr>) = Ok ()"
    using assms(1) by (simp add: validate_descriptors_def Let_def)
  moreover have "v\<lparr>va_now := 0\<rparr> = \<lparr> va_generation = pub_generation p, va_fulltext = va_fulltext v, va_vector = va_vector v, va_now = 0 \<rparr>"
    using assms(2) by simp
  ultimately show ?thesis using assms(2,3) by (simp add: pub_ok_def read_publication_def set_validated_def)
qed

lemma inv_validate_publication:
  assumes inv: "store_inv sha s" and "validate_search_publication sha v s = Ok (u, s')"
  shows "store_inv sha s'"
  using assms(2)
proof (cases rule: validate_publication_cases)
  case (1 j)
  show ?thesis
    unfolding 1(8)
    by (rule inv_on_journal [OF inv _ 1(1)])
      (use 1 pub_ok_validated [OF 1(5,4,7)] in \<open>auto simp: set_validated_def\<close>)
qed

lemma prune_victims_prunable:
  "j \<in> set (prune_victims policy s) \<Longrightarrow> j \<in> set (ps_journal s) \<and> prunable policy s j"
  by (auto simp: prune_victims_def dest!: in_set_takeD)

lemma prune_Ok:
  assumes "prune_search_publication_history policy s = Ok (n, s')"
  shows "s' = delete_publications (jr_generation ` set (prune_victims policy s)) s"
    and "n = length (prune_victims policy s)" and "limit_ok (pp_retain_ready policy)" "limit_ok (pp_max_delete policy)"
  using assms by (simp_all add: prune_search_publication_history_def Let_def split: if_splits)

lemma find_filter_keep: "(\<And>x. P x \<Longrightarrow> Q x) \<Longrightarrow> find P (filter Q xs) = find P xs"
  by (induction xs) auto

lemma journal_row_of_delete:
  "g \<notin> G \<Longrightarrow> journal_row_of (delete_publications G s) g = journal_row_of s g"
  unfolding journal_row_of_def delete_publications_def
  using find_filter_keep [of "\<lambda>j. jr_generation j = g" "\<lambda>j. jr_generation j \<notin> G" "ps_journal s"] by simp

lemma inv_delete_publications:
  assumes inv: "store_inv sha s" and head: "\<And>g. hr_generation (ps_head s) = Some g \<Longrightarrow> g \<notin> G"
  shows "store_inv sha (delete_publications G s)"
proof (rule inv_journal_change [OF inv])
  show "journal_inv sha (delete_publications G s)"
    using inv_journal(1) [OF inv] by (simp add: journal_inv_def delete_publications_def distinct_map_filter)
  show "retirement_inv (delete_publications G s)"
    unfolding retirement_inv_def
  proof (intro conjI ballI)
    show "distinct (map rt_generation (ps_retirements (delete_publications G s)))"
      using inv_journal(2) [OF inv] by (simp add: retirement_inv_def delete_publications_def distinct_map_filter)
    fix r assume "r \<in> set (ps_retirements (delete_publications G s))"
    then have "r \<in> set (ps_retirements s)" "rt_generation r \<notin> G" by (simp_all add: delete_publications_def)
    moreover obtain j where "j \<in> set (ps_journal s)" "jr_generation j = rt_generation r" "pub_state (jr_publication j) = Abandoned"
      using inv_journal(2) [OF inv] calculation(1) by (auto simp: retirement_inv_def)
    ultimately show "\<exists>j \<in> set (ps_journal (delete_publications G s)).
        jr_generation j = rt_generation r \<and> pub_state (jr_publication j) = Abandoned"
      by (intro bexI [of _ j]) (simp_all add: delete_publications_def)
  qed
  show "journal_row_of (delete_publications G s) g = journal_row_of s g" if "hr_generation (ps_head s) = Some g" for g
    using journal_row_of_delete [OF head [OF that]] .
qed (simp_all add: delete_publications_def)

lemma inv_prune:
  assumes inv: "store_inv sha s" and "prune_search_publication_history policy s = Ok (n, s')"
  shows "store_inv sha s'"
  unfolding prune_Ok(1) [OF assms(2)]
  by (rule inv_delete_publications [OF inv]) (auto simp: prunable_def Let_def dest!: prune_victims_prunable)

section \<open>The invariant under a commit\<close>

text \<open>The import side may change a store between these tables.\<close>

definition same_tables :: "pub_store \<Rightarrow> pub_store \<Rightarrow> bool" where
  "same_tables s t \<longleftrightarrow>
     ps_head t = ps_head s \<and> ps_journal t = ps_journal s \<and> ps_active t = ps_active s \<and>
     ps_retirements t = ps_retirements s \<and> ps_context t = ps_context s \<and> ps_attempt t = ps_attempt s \<and>
     ps_migration t = ps_migration s \<and> ps_active_contract t = ps_active_contract s"

lemma inv_same_tables: "same_tables s t \<Longrightarrow> store_inv sha t = store_inv sha s"
  by (rule tables_inv_cong(2)) (simp_all add: same_tables_def)

lemma seal_same_tables: "seal_resume_versions now vs s = Ok t \<Longrightarrow> same_tables s t"
proof (induction vs arbitrary: s)
  case (Cons v vs)
  then obtain s1 where "seal_resume_version now v s = Ok s1" "same_tables s1 t"
    by (auto simp: rbind_eq_Inr)
  moreover from this(1) have "same_tables s s1"
    by (auto simp: seal_resume_version_def same_tables_def split: option.splits if_splits prod.splits)
  ultimately show ?case by (simp add: same_tables_def)
qed (simp add: same_tables_def)

lemma terminals_same_tables: "apply_terminal_document_updates now ts s = Ok t \<Longrightarrow> same_tables s t"
  by (induction ts arbitrary: s) (auto simp: same_tables_def split: if_splits)

lemma active_rows_Ok:
  assumes "active_rows g ps ds = Ok rows"
  shows "rows = map (\<lambda>(p, d). \<lparr> ar_projection = p, ar_generation = g, ar_document = d \<rparr>) (zip ps ds)"
proof -
  have "list_all2 (\<lambda>x y. y = (case x of (p, d) \<Rightarrow> \<lparr> ar_projection = p, ar_generation = g, ar_document = d \<rparr>))
      (zip ps ds) rows"
    using assms unfolding active_rows_def traverse_Inr_iff
    by (rule list_all2_mono) (auto split: if_splits)
  then show ?thesis by (simp only: list_all2_map_self)
qed

lemma commit_shape_Ok:
  assumes "validate_commit_shape commit = Ok ()"
  shows "length (cm_projected commit) = length (cm_projections commit)"
    and "distinct (map document_id (cm_projections commit))"
    and "distinct (map resume_version_id (cm_projections commit))"
  using assms by (auto simp: validate_commit_shape_def projection_map_def rbind_eq_Inr split: if_splits)

lemma validate_commit_Ok:
  assumes "validate_commit_against_publication sha s commit p = Ok ()"
  shows "from_pairs sha (map pair_of (cm_projections commit)) = Ok (pub_projection_digest p)"
    and "map_option ftd_document_count (pub_fulltext p) = Some (length (cm_projections commit))"
    and "\<forall>q \<in> set (cm_projections commit). classified_at s (pub_classifier_epoch p) (resume_version_id q)"
  using assms
  by (auto simp: validate_commit_against_publication_def projection_digest_def rbind_eq_Inr list_all_iff
      split: if_splits)

definition committed :: "publication_commit \<Rightarrow> search_publication \<Rightarrow> active_row list \<Rightarrow> pub_store \<Rightarrow> pub_store" where
  "committed commit p rows s =
     update_head \<lparr> hr_service = ServiceReady, hr_generation = Some (cm_generation commit),
         hr_epoch = pub_expected_visible_epoch p + 1, hr_reason = None, hr_updated_at = cm_now commit \<rparr>
       (on_journal (cm_generation commit) (set_publication_state Ready (cm_now commit)) (s\<lparr>ps_active := rows\<rparr>))"

lemma apply_commit_Ok:
  assumes apply_ok: "apply_search_publication_commit sha commit p service s = Ok s'"
    and shape: "validate_commit_shape commit = Ok ()"
  obtains rows s2 where "same_tables s s2" "s' = committed commit p rows s2"
    "map ar_projection rows = cm_projections commit" "\<forall>r \<in> set rows. ar_generation r = cm_generation commit"
    "pub_expected_visible_epoch p + 1 \<le> i64_max"
    "hr_generation (ps_head s) = pub_base_generation p" "hr_epoch (ps_head s) = pub_expected_visible_epoch p"
    "validate_commit_against_publication sha s commit p = Ok ()"
proof -
  obtain s1 s2 docs rows where v: "validate_commit_against_publication sha s commit p = Ok ()"
    and s1: "seal_resume_versions (cm_now commit) (map resume_version_id (cm_projections commit)) s = Ok s1"
    and s2: "apply_terminal_document_updates (cm_now commit) (cm_terminals commit) s1 = Ok s2"
    and docs: "projected_document_snapshots s2 (cm_projected commit) = Ok docs"
    and rows: "active_rows (cm_generation commit) (cm_projections commit) docs = Ok rows"
    and epoch: "pub_expected_visible_epoch p + 1 \<le> i64_max"
    and head: "hr_generation (ps_head s2) = pub_base_generation p" "hr_epoch (ps_head s2) = pub_expected_visible_epoch p"
    and s': "s' = committed commit p rows s2"
    using apply_ok
    by (auto simp: apply_search_publication_commit_def committed_def u64_to_i64_def rbind_eq_Inr Let_def split: if_splits)
  have same: "same_tables s s2"
    using seal_same_tables [OF s1] terminals_same_tables [OF s2] by (simp add: same_tables_def)
  have "length docs = length (cm_projections commit)"
    using traverse_Inr_length [OF docs [unfolded projected_document_snapshots_def]] commit_shape_Ok(1) [OF shape] by simp
  then have proj: "map ar_projection rows = cm_projections commit"
    unfolding active_rows_Ok [OF rows] by (simp add: comp_def case_prod_unfold)
  have "\<forall>r \<in> set rows. ar_generation r = cm_generation commit"
    unfolding active_rows_Ok [OF rows] by auto
  with that [OF same s' proj] epoch head same v show thesis by (simp add: same_tables_def)
qed

lemma commit_cases:
  assumes commit_ok: "commit_with_precondition sha commit pre s = Ok (out, s')"
    and shape: "validate_commit_shape commit = Ok ()"
  obtains "out = Superseded" "s' = s"
  | j rows s2 where "out = Applied" "journal_row_of s (cm_generation commit) = Some j"
      "pub_state (jr_publication j) = Validated" "pub_ok sha (jr_publication j)"
      "same_tables s s2" "s' = committed commit (jr_publication j) rows s2"
      "map ar_projection rows = cm_projections commit" "\<forall>r \<in> set rows. ar_generation r = cm_generation commit"
      "pub_expected_visible_epoch (jr_publication j) + 1 \<le> i64_max"
      "hr_generation (ps_head s) = pub_base_generation (jr_publication j)"
      "hr_epoch (ps_head s) = pub_expected_visible_epoch (jr_publication j)"
      "validate_commit_against_publication sha s commit (jr_publication j) = Ok ()"
proof -
  obtain found where found: "validated_publication_for_commit sha s commit pre = Ok found"
    and result: "(case found of None \<Rightarrow> Ok (Superseded, s)
       | Some (publication, service) \<Rightarrow>
           rbind (apply_search_publication_commit sha commit publication service s) (\<lambda>s'. Ok (Applied, s'))) = Ok (out, s')"
    using commit_ok unfolding commit_with_precondition_def rbind_eq_Inr [of "validated_publication_for_commit sha s commit pre"]
    by (elim exE conjE) (rule that)
  show thesis
  proof (cases found)
    case None
    with result that(1) show thesis by simp
  next
    case (Some ps)
    obtain p service where ps: "ps = (p, service)" by (cases ps)
    have p: "search_publication_in_connection sha s (cm_generation commit) = Ok (Some p)" "pub_state p = Validated"
      using found Some ps
      by (auto simp: validated_publication_for_commit_def rbind_eq_Inr Let_def split: if_splits prod.splits)
    obtain j where j: "journal_row_of s (cm_generation commit) = Some j" "jr_publication j = p" "pub_ok sha p"
      using search_publication_in_connection_Ok [OF p(1)] by blast
    from result Some ps have "out = Applied" "apply_search_publication_commit sha commit p service s = Ok s'"
      by (auto simp: rbind_eq_Inr)
    from apply_commit_Ok [OF this(2) shape] this(1) j p(2) that(2) [of j] show thesis by metis
  qed
qed

lemma committed_fields [simp]:
  "ps_head (committed commit p rows s) = \<lparr> hr_service = ServiceReady, hr_generation = Some (cm_generation commit),
     hr_epoch = pub_expected_visible_epoch p + 1, hr_reason = None, hr_updated_at = cm_now commit \<rparr>"
  "ps_active (committed commit p rows s) = rows"
  "ps_retirements (committed commit p rows s) = ps_retirements s"
  by (simp_all add: committed_def)

lemma journal_row_of_committed:
  "journal_row_of (committed commit p rows s) k =
     (if k = cm_generation commit
      then map_option (\<lambda>j. j\<lparr>jr_publication := set_publication_state Ready (cm_now commit) (jr_publication j)\<rparr>) (journal_row_of s k)
      else journal_row_of s k)"
proof -
  have "journal_row_of (committed commit p rows s) =
      journal_row_of (on_journal (cm_generation commit) (set_publication_state Ready (cm_now commit)) (s\<lparr>ps_active := rows\<rparr>))"
    by (rule journal_row_of_cong) (simp add: committed_def)
  moreover have "journal_row_of (s\<lparr>ps_active := rows\<rparr>) = journal_row_of s" by (rule journal_row_of_cong) simp
  ultimately show ?thesis by (simp add: journal_row_of_on_journal)
qed

lemma inv_committed:
  assumes inv: "store_inv sha s" and j: "journal_row_of s (cm_generation commit) = Some j"
    and p: "jr_publication j = p" "pub_state p = Validated" "pub_ok sha p" "pub_expected_visible_epoch p + 1 \<le> i64_max"
    and rows: "map ar_projection rows = cm_projections commit" "\<forall>r \<in> set rows. ar_generation r = cm_generation commit"
    and digest: "from_pairs sha (map pair_of (cm_projections commit)) = Ok (pub_projection_digest p)"
      "map_option ftd_document_count (pub_fulltext p) = Some (length (cm_projections commit))"
  shows "store_inv sha (committed commit p rows s)"
proof -
  let ?f = "set_publication_state Ready (cm_now commit)"
  let ?t = "s\<lparr>ps_active := rows\<rparr>" and ?u = "committed commit p rows s"
  have t: "journal_inv sha ?t" "retirement_inv ?t" "journal_row_of ?t = journal_row_of s"
    using inv_journal [OF inv] by (simp_all add: journal_inv_def retirement_inv_def journal_row_of_def fun_eq_iff)
  have journal: "journal_inv sha (on_journal (cm_generation commit) ?f ?t)"
    by (rule journal_inv_on_journal [OF t(1)]) (use j p t(3) in \<open>simp_all add: pub_ok_set_state\<close>)
  have retired: "retirement_inv (on_journal (cm_generation commit) ?f ?t)"
    by (rule retirement_inv_on_journal [OF t(1,2)]) (use j p t(3) in simp_all)
  have gen: "pub_generation p = cm_generation commit" using journal_row_of_Some [OF j] p(1) by simp
  have "map (\<lambda>r. pair_of (ar_projection r)) rows = map pair_of (cm_projections commit)"
    unfolding rows(1) [symmetric] by simp
  moreover have "length rows = length (cm_projections commit)" by (metis rows(1) length_map)
  ultimately have "published_by sha (?f p) ?u" using rows(2) digest gen by (simp add: published_by_def)
  moreover have "head_publication ?u = Some (?f p)"
    using j p(1) by (simp add: head_publication_def journal_row_of_committed)
  ultimately have head: "head_inv sha ?u" using p(4) by (simp add: head_inv_def head_admissible_def)
  have ctx: "ps_context ?u = None"
    by (simp add: committed_def context_update_head cleanup_due_def split: option.split)
  have att: "ps_attempt ?u = None"
    using inv unfolding committed_def update_head_def delete_context_def
    by (auto simp: Let_def cleanup_due_def store_inv_def tables_inv_def repair_inv_def split: option.split)
  have "journal_inv sha ?u" "retirement_inv ?u"
    using journal retired by (simp_all add: journal_inv_def retirement_inv_def committed_def)
  with head ctx att show ?thesis by (simp add: store_inv_def tables_inv_def repair_inv_def terminal_blocked_def)
qed

lemma inv_commit:
  assumes inv: "store_inv sha s" and commit: "commit_with_precondition sha commit pre s = Ok (out, s')"
    and shape: "validate_commit_shape commit = Ok ()"
  shows "store_inv sha s'"
  using commit shape
proof (cases rule: commit_cases)
  case (2 j rows s2)
  have "store_inv sha s2" using inv inv_same_tables [OF 2(5)] by simp
  moreover have "journal_row_of s2 = journal_row_of s" by (rule journal_row_of_cong) (use 2(5) in \<open>simp add: same_tables_def\<close>)
  ultimately show ?thesis
    unfolding 2(6) using 2 validate_commit_Ok [OF 2(12)] by (intro inv_committed) auto
qed (use inv in simp)

end
