(* ===== verification/PublicationSafety.thy ===== *)
theory PublicationSafety
  imports PublicationInvariant
begin

text \<open>
  Runs of the publication and repair operations, with the import side as the environment: the
  invariant holds throughout; the store refines a register that is written by compare-and-swap; and
  what follows for the head, for retirements, for pruning and for the attempts of a repair.
\<close>

section \<open>Runs\<close>

text \<open>A store and the attempts that were handed out; an attempt is only made by acquiring it.\<close>

record world =
  w_store :: pub_store
  w_issued :: "artifact_attempt set"

definition initial_world :: "world \<Rightarrow> bool" where
  "initial_world w \<longleftrightarrow> w_issued w = {} \<and>
     (let s = w_store w
      in unpublished_migration_head s \<and> hr_epoch (ps_head s) \<le> i64_max \<and> hr_updated_at (ps_head s) = 0 \<and>
         ps_journal s = [] \<and> ps_active s = [] \<and> ps_retirements s = [] \<and> ps_context s = None \<and>
         ps_attempt s = None \<and> ps_migration s = None)"

inductive pub_step :: "hash \<Rightarrow> world \<Rightarrow> world \<Rightarrow> bool" for sha where
  step_begin: "begin_search_publication sha active draft (w_store w) = Ok (out, s) \<Longrightarrow> pub_step sha w (w\<lparr>w_store := s\<rparr>)"
| step_validate: "validate_search_publication sha v (w_store w) = Ok (u, s) \<Longrightarrow> pub_step sha w (w\<lparr>w_store := s\<rparr>)"
| step_commit: "commit_search_publication sha commit (w_store w) = Ok (out, s) \<Longrightarrow> pub_step sha w (w\<lparr>w_store := s\<rparr>)"
| step_commit_migration:
    "commit_migration_rebuild_search_publication sha commit barrier (w_store w) = Ok (out, s) \<Longrightarrow>
     pub_step sha w (w\<lparr>w_store := s\<rparr>)"
| step_retire: "begin_search_publication_retirement sha g now plan (w_store w) = Ok (u, s) \<Longrightarrow> pub_step sha w (w\<lparr>w_store := s\<rparr>)"
| step_complete:
    "complete_search_publication_retirement_artifact g artifact now (w_store w) = Ok (u, s) \<Longrightarrow> pub_step sha w (w\<lparr>w_store := s\<rparr>)"
| step_settle:
    "settle_search_publication_retirement_failure sha g now (w_store w) = Ok (settled, s) \<Longrightarrow> pub_step sha w (w\<lparr>w_store := s\<rparr>)"
| step_prune: "prune_search_publication_history policy (w_store w) = Ok (n, s) \<Longrightarrow> pub_step sha w (w\<lparr>w_store := s\<rparr>)"
| step_begin_repair: "begin_artifact_repair sha g e now (w_store w) = Ok (out, s) \<Longrightarrow> pub_step sha w (w\<lparr>w_store := s\<rparr>)"
| step_reopen:
    "reopen_runtime_invariant_for_artifact_repair g e now (w_store w) = Ok (out, s) \<Longrightarrow> pub_step sha w (w\<lparr>w_store := s\<rparr>)"
| step_block_repair: "block_artifact_repair g f e now (w_store w) = Ok (out, s) \<Longrightarrow> pub_step sha w (w\<lparr>w_store := s\<rparr>)"
| step_acquire:
    "acquire_attempt sha entropy active key now (w_store w) = Ok (acquired, s) \<Longrightarrow>
     pub_step sha w \<lparr> w_store = s, w_issued = w_issued w \<union> (case acquired of Started t \<Rightarrow> {t} | _ \<Rightarrow> {}) \<rparr>"
| step_finish:
    "t \<in> w_issued w \<Longrightarrow> finish_attempt_failure t failure now (w_store w) = Ok (failed, s) \<Longrightarrow> pub_step sha w (w\<lparr>w_store := s\<rparr>)"
| step_cancel:
    "t \<in> w_issued w \<Longrightarrow> cancel_attempt sha entropy t (w_store w) = Ok (cancelled, s) \<Longrightarrow> pub_step sha w (w\<lparr>w_store := s\<rparr>)"
| step_migration_acquire:
    "acquire_publication_attempt sha entropy active barrier now (w_store w) = Ok (macquired, s) \<Longrightarrow> pub_step sha w (w\<lparr>w_store := s\<rparr>)"
| step_migration_finish:
    "finish_publication_attempt_failure mt mfailure now (w_store w) = Ok (failed, s) \<Longrightarrow> pub_step sha w (w\<lparr>w_store := s\<rparr>)"
| step_migration_abandon: "abandon_publication_attempt mt (w_store w) = Ok (failed, s) \<Longrightarrow> pub_step sha w (w\<lparr>w_store := s\<rparr>)"
| step_block_migration: "block_migration_rebuild reason now (w_store w) = Ok (out, s) \<Longrightarrow> pub_step sha w (w\<lparr>w_store := s\<rparr>)"
| step_activate: "activate_migration_rebuild_contract c running now (w_store w) = Ok (activation, s) \<Longrightarrow> pub_step sha w (w\<lparr>w_store := s\<rparr>)"
| step_import: "same_tables (w_store w) s \<Longrightarrow> pub_step sha w (w\<lparr>w_store := s\<rparr>)"

definition world_inv :: "hash \<Rightarrow> world \<Rightarrow> bool" where
  "world_inv sha w \<longleftrightarrow> store_inv sha (w_store w) \<and> (\<forall>t \<in> w_issued w. token_ok t)"

lemma world_inv_initial: "initial_world w \<Longrightarrow> world_inv sha w"
  by (auto simp: initial_world_def world_inv_def store_inv_def tables_inv_def journal_inv_def head_inv_def
      head_admissible_def unpublished_migration_head_def retirement_inv_def repair_inv_def terminal_blocked_def Let_def)

lemma commit_search_publication_Ok:
  "commit_search_publication sha commit s = Ok (out, s') \<longleftrightarrow>
     validate_commit_shape commit = Ok () \<and> commit_with_precondition sha commit PreconditionCurrentHead s = Ok (out, s')"
  "commit_migration_rebuild_search_publication sha commit barrier s = Ok (out, s') \<longleftrightarrow>
     validate_commit_shape commit = Ok () \<and>
     commit_with_precondition sha commit (PreconditionMigrationRebuild barrier) s = Ok (out, s')"
  by (auto simp: commit_search_publication_def commit_migration_rebuild_search_publication_def rbind_eq_Inr)

lemma world_inv_step:
  assumes "world_inv sha w" "pub_step sha w w'"
  shows "world_inv sha w'"
  using assms(2,1)
proof cases
  case (step_acquire entropy active key now acquired s)
  with assms(1) show ?thesis
    by (auto simp: world_inv_def intro: inv_acquire_attempt acquire_token_ok split: attempt_acquire.splits)
next
  case (step_import s)
  with assms(1) show ?thesis by (simp add: world_inv_def inv_same_tables)
qed (auto simp: world_inv_def commit_search_publication_Ok begin_search_publication_retirement_def rbind_eq_Inr
    abandon_publication_attempt_def inv_delete_migration
    intro: inv_begin_publication inv_validate_publication inv_commit inv_begin_retirement inv_complete_retirement
      inv_settle inv_prune inv_begin_artifact_repair inv_reopen inv_block_artifact_repair
      inv_finish_attempt_failure inv_cancel_attempt inv_acquire_publication_attempt
      inv_finish_publication_attempt_failure inv_block_migration_rebuild inv_activate)

section \<open>The head as a register\<close>

text \<open>
  The abstract machine: a value with a version number and tickets.  A ticket is taken at the current
  version; the value is replaced with the ticket of the current version, and the version goes up by one.
\<close>

record register =
  rg_version :: nat
  rg_value :: "(string \<times> (string \<times> string) list) option"
  rg_tickets :: "string \<rightharpoonup> nat"

inductive register_step :: "register \<Rightarrow> register \<Rightarrow> bool" where
  take_ticket: "rg_tickets r g = None \<Longrightarrow> register_step r (r\<lparr>rg_tickets := (rg_tickets r)(g \<mapsto> rg_version r)\<rparr>)"
| drop_ticket: "register_step r (r\<lparr>rg_tickets := (rg_tickets r)(g := None)\<rparr>)"
| replace_value: "rg_tickets r g = Some (rg_version r) \<Longrightarrow>
    register_step r \<lparr> rg_version = rg_version r + 1, rg_value = Some (g, m), rg_tickets = (rg_tickets r)(g := None) \<rparr>"

lemma register_runs:
  assumes "register_step\<^sup>*\<^sup>* r r'"
  shows "rg_version r \<le> rg_version r'" and "rg_version r = rg_version r' \<Longrightarrow> rg_value r = rg_value r'"
proof -
  have "rg_version r \<le> rg_version r' \<and> (rg_version r = rg_version r' \<longrightarrow> rg_value r = rg_value r')"
    using assms
  proof (induction rule: rtranclp_induct)
    case (step q t)
    from step.hyps(2) step.IH show ?case by (cases rule: register_step.cases) auto
  qed simp
  then show "rg_version r \<le> rg_version r'" and "rg_version r = rg_version r' \<Longrightarrow> rg_value r = rg_value r'" by auto
qed

definition open_ticket :: "pub_store \<Rightarrow> string \<rightharpoonup> nat" where
  "open_ticket s g = (case journal_row_of s g of None \<Rightarrow> None
     | Some j \<Rightarrow> if pub_state (jr_publication j) \<in> {Preparing, Validated}
         then Some (pub_expected_visible_epoch (jr_publication j)) else None)"

definition register_of :: "pub_store \<Rightarrow> register" where
  "register_of s = \<lparr> rg_version = hr_epoch (ps_head s),
     rg_value = map_option (\<lambda>g. (g, map (\<lambda>r. pair_of (ar_projection r)) (ps_active s))) (hr_generation (ps_head s)),
     rg_tickets = open_ticket s \<rparr>"

text \<open>Operations that keep journal, projection and head generation do not show in the register.\<close>

definition same_register_tables :: "pub_store \<Rightarrow> pub_store \<Rightarrow> bool" where
  "same_register_tables s t \<longleftrightarrow> ps_journal t = ps_journal s \<and> ps_active t = ps_active s \<and>
     hr_generation (ps_head t) = hr_generation (ps_head s) \<and> hr_epoch (ps_head t) = hr_epoch (ps_head s)"

lemma same_register_tables_refl [simp]: "same_register_tables s s"
  by (simp add: same_register_tables_def)

lemma same_register_of: "same_register_tables s t \<Longrightarrow> register_of t = register_of s"
  by (simp add: same_register_tables_def register_of_def open_ticket_def [abs_def] journal_row_of_def)

lemma same_register_simps [simp]:
  "same_register_tables s (set_service st reason now t) = same_register_tables s t"
  "same_register_tables s (t\<lparr>ps_attempt := a\<rparr>) = same_register_tables s t"
  "same_register_tables s (t\<lparr>ps_context := c\<rparr>) = same_register_tables s t"
  "same_register_tables s (t\<lparr>ps_migration := m\<rparr>) = same_register_tables s t"
  "same_register_tables s (t\<lparr>ps_retirements := r\<rparr>) = same_register_tables s t"
  "same_register_tables s (delete_context t) = same_register_tables s t"
  "same_register_tables (delete_context s) t = same_register_tables s t"
  "same_register_tables s (delete_attempt_of g e t) = same_register_tables s t"
  "same_register_tables s (delete_exact_attempt tk t) = same_register_tables s t"
  "same_register_tables s (delete_exact_migration_attempt mt t) = same_register_tables s t"
  by (simp_all add: same_register_tables_def delete_context_def delete_attempt_of_def delete_exact_attempt_def
      delete_exact_migration_attempt_def split: option.split)

lemma insert_context_register: "insert_context sv r g e now s = Ok t \<Longrightarrow> same_register_tables s t"
  using insert_context_Ok [of sv r g e now s t] by auto

lemma begin_repair_register: "begin_artifact_repair sha g e now s = Ok (out, t) \<Longrightarrow> same_register_tables s t"
  by (auto simp: begin_artifact_repair_def enter_artifact_repair_def value_i64_def result_simps Let_def
      dest: insert_context_register split: if_splits)

lemma same_register_trans: "same_register_tables s t \<Longrightarrow> same_register_tables t u \<Longrightarrow> same_register_tables s u"
  by (simp add: same_register_tables_def)

lemma reopen_register:
  "reopen_runtime_invariant_for_artifact_repair g e now s = Ok (out, t) \<Longrightarrow> same_register_tables s t"
  by (auto simp: reopen_runtime_invariant_for_artifact_repair_def reopen_blocked_def value_i64_def result_simps Let_def
      dest!: insert_context_register intro: same_register_trans split: if_splits)

lemma block_repair_register: "block_artifact_repair g f e now s = Ok (out, t) \<Longrightarrow> same_register_tables s t"
  by (auto simp: block_artifact_repair_def value_i64_def result_simps split: if_splits)

lemma block_exact_head_register: "block_exact_head key i n now s = Ok (b, t) \<Longrightarrow> same_register_tables s t"
  by (auto simp: block_exact_head_def result_simps split: if_splits)

lemma acquire_fresh_register: "acquire_fresh sha entropy key prior now s = Ok (out, t) \<Longrightarrow> same_register_tables s t"
  by (auto simp: acquire_fresh_def result_simps Let_def split: if_splits)

lemma same_register_left: "same_register_tables (s\<lparr>ps_attempt := a\<rparr>) t = same_register_tables s t"
  by (simp add: same_register_tables_def)

lemma acquire_register: "acquire_attempt sha entropy active key now s = Ok (out, t) \<Longrightarrow> same_register_tables s t"
  by (auto simp: acquire_attempt_def acquire_interrupted_def acquire_waiting_def result_simps Let_def same_register_left
      dest!: block_exact_head_register acquire_fresh_register split: if_splits option.splits attempt_phase.splits prod.splits)

lemma finish_register:
  assumes "finish_attempt_failure tk failure now s = Ok (out, t)"
  shows "same_register_tables s t"
proof -
  obtain kind terminal where "failure_kind failure = (kind, terminal)" by force
  with assms show ?thesis
    by (auto simp: finish_attempt_failure_def result_simps Let_def same_register_left
        dest!: block_exact_head_register split: if_splits prod.splits)
qed

lemma cancel_register: "cancel_attempt sha entropy tk s = Ok (out, t) \<Longrightarrow> same_register_tables s t"
  by (auto simp: cancel_attempt_def result_simps split: if_splits option.splits)

lemma block_unpublished_register: "block_unpublished_migration_head now s = (b, t) \<Longrightarrow> same_register_tables s t"
  by (auto simp: block_unpublished_migration_head_def split: if_splits)

lemma same_register_migration: "same_register_tables (s\<lparr>ps_migration := m\<rparr>) t = same_register_tables s t"
  by (simp add: same_register_tables_def)

lemma migration_acquire_register:
  "acquire_publication_attempt sha entropy active b now s = Ok (out, t) \<Longrightarrow> same_register_tables s t"
  by (auto simp: acquire_publication_attempt_def start_migration_attempt_def block_or_supersede_def result_simps Let_def
      same_register_migration dest!: block_unpublished_register
      split: if_splits option.splits attempt_phase.splits prod.splits)

lemma migration_finish_register:
  "finish_publication_attempt_failure mt failure now s = Ok (out, t) \<Longrightarrow> same_register_tables s t"
  by (auto simp: finish_publication_attempt_failure_def Let_def same_register_migration
      dest!: block_unpublished_register split: if_splits prod.splits)

lemma block_migration_register: "block_migration_rebuild reason now s = Ok (out, t) \<Longrightarrow> same_register_tables s t"
  by (auto simp: block_migration_rebuild_def split: if_splits)

lemma activate_register:
  assumes "activate_migration_rebuild_contract c running now s = Ok (out, t)"
  shows "same_register_tables s t"
proof -
  let ?s1 = "s\<lparr>ps_roots := map (\<lambda>r. r\<lparr>rr_latest_task := None\<rparr>) (ps_roots s), ps_unfinished := False,
      ps_active_contract := Some c, ps_migration := None\<rparr>"
  have "t = s \<or> t = ?s1 \<or> t = set_service ServiceRepairing MigrationRebuild now ?s1"
    using assms by (auto simp: activate_migration_rebuild_contract_def Let_def split: if_splits)
  moreover have "same_register_tables s ?s1" by (simp add: same_register_tables_def)
  ultimately show ?thesis by auto
qed

lemma settle_register:
  assumes "settle_search_publication_retirement_failure sha g now s = Ok (out, t)"
  shows "same_register_tables s t"
proof -
  obtain p a where "(case a of CurrentHead \<Rightarrow> settle_current_head p now s
      | MigrationRebuildAuthority c d i n \<Rightarrow> settle_migration sha p c d i n now s
      | ArtifactRepairAuthority key i n \<Rightarrow> settle_artifact p key i n now s) = Ok (out, t)"
    by (rule settle_cases [OF assms])
  moreover have "same_register_tables s t" if "settle_artifact p key i n now s = Ok (out, t)" for key i n
    using that by (cases rule: settle_artifact_cases) simp_all
  ultimately show ?thesis
    by (cases a) (auto simp: settle_current_head_def block_current_head_def settle_migration_def
        settle_migration_attempt_def block_migration_head_def result_simps Let_def split: if_splits prod.splits)
qed

lemma complete_register:
  "complete_search_publication_retirement_artifact g artifact now s = Ok (u, t) \<Longrightarrow> same_register_tables s t"
  by (auto simp: complete_search_publication_retirement_artifact_def result_simps split: if_splits)

lemma migration_abandon_register: "abandon_publication_attempt mt s = Ok (out, t) \<Longrightarrow> same_register_tables s t"
  by (auto simp: abandon_publication_attempt_def)

lemmas keeps_register =
  settle_register complete_register begin_repair_register reopen_register block_repair_register acquire_register
  finish_register cancel_register migration_acquire_register migration_finish_register block_migration_register
  activate_register migration_abandon_register

section \<open>Refinement\<close>

lemma open_ticket_on_journal:
  assumes "\<And>p. pub_generation (f p) = pub_generation p"
  shows "open_ticket (on_journal g f s) = (open_ticket s)(g := (case journal_row_of s g of None \<Rightarrow> None
     | Some j \<Rightarrow> if pub_state (f (jr_publication j)) \<in> {Preparing, Validated}
         then Some (pub_expected_visible_epoch (f (jr_publication j))) else None))"
  by (rule ext) (simp add: open_ticket_def journal_row_of_on_journal [OF assms] split: option.split)

lemma register_of_retirement:
  assumes "begin_retirement_in_connection sha g now plan s = Ok t"
  shows "register_of t = register_of s \<or> register_of t = (register_of s)\<lparr>rg_tickets := (rg_tickets (register_of s))(g := None)\<rparr>"
    and "retirement_in_connection s g = None \<Longrightarrow>
      register_of t = (register_of s)\<lparr>rg_tickets := (rg_tickets (register_of s))(g := None)\<rparr>"
proof -
  have drop: "register_of t = (register_of s)\<lparr>rg_tickets := (rg_tickets (register_of s))(g := None)\<rparr>"
    if found: "search_publication_in_connection sha s g = Ok (Some p)" "pub_state p \<noteq> Ready"
      and s1: "s1 = (if pub_state p = Abandoned then s else on_journal g (set_publication_state Abandoned now) s)"
      and t: "t = s1\<lparr>ps_retirements := ps_retirements s1 @ [new_retirement g now plan]\<rparr>" for p s1
  proof -
    obtain j where j: "journal_row_of s g = Some j" "jr_publication j = p"
      using search_publication_in_connection_Ok [OF found(1)] by blast
    have "open_ticket t = open_ticket s1"
      using t by (simp add: open_ticket_def [abs_def] journal_row_of_def)
    also have "\<dots> = (open_ticket s)(g := None)"
      using s1 j by (auto simp: open_ticket_on_journal) (auto simp: open_ticket_def fun_eq_iff)
    finally show ?thesis using s1 t by (simp add: register_of_def)
  qed
  show "register_of t = register_of s \<or> register_of t = (register_of s)\<lparr>rg_tickets := (rg_tickets (register_of s))(g := None)\<rparr>"
    using assms by (cases rule: begin_retirement_cases) (use drop in blast)+
  show "register_of t = (register_of s)\<lparr>rg_tickets := (rg_tickets (register_of s))(g := None)\<rparr>"
    if "retirement_in_connection s g = None"
    using assms by (cases rule: begin_retirement_cases) (use drop that in blast)+
qed

lemma register_of_append:
  assumes "journal_row_of s (jr_generation j) = None"
  shows "register_of (s\<lparr>ps_journal := ps_journal s @ [j]\<rparr>) = (register_of s)\<lparr>rg_tickets := (rg_tickets (register_of s))
    (jr_generation j := (if pub_state (jr_publication j) \<in> {Preparing, Validated}
       then Some (pub_expected_visible_epoch (jr_publication j)) else None))\<rparr>"
proof -
  have "find P (xs @ ys) = (case find P xs of None \<Rightarrow> find P ys | Some x \<Rightarrow> Some x)" for P :: "journal_row \<Rightarrow> bool" and xs ys
    by (induction xs) auto
  with assms show ?thesis
    by (auto simp: register_of_def open_ticket_def journal_row_of_def fun_eq_iff split: option.split)
qed

lemma register_of_begin:
  assumes inv: "store_inv sha s" and "begin_search_publication sha active draft s = Ok (out, t)"
  shows "register_step\<^sup>*\<^sup>* (register_of s) (register_of t)"
  using assms(2)
proof (cases rule: begin_publication_cases)
  case (1 authority s1)
  let ?g = "dr_generation draft"
  have free: "rg_tickets (register_of s) ?g = None" using 1(2) by (simp add: register_of_def open_ticket_def)
  have s1: "register_of s1 = (register_of s)\<lparr>rg_tickets := (rg_tickets (register_of s))(?g \<mapsto> dr_expected_epoch draft)\<rparr>"
    using register_of_append [of s "\<lparr> jr_publication = drafted draft, jr_authority = authority \<rparr>"] 1(1,2)
    by (simp add: drafted_def)
  from 1(5) show ?thesis
  proof
    assume applied: "out = Applied \<and> t = s1 \<and> authority_for_begin sha s active draft = Ok (Some authority)"
    then have "rg_version (register_of s) = dr_expected_epoch draft"
      by (auto simp: authority_for_begin_def register_of_def Let_def split: if_splits)
    with take_ticket [OF free] s1 applied show ?thesis by auto
  next
    assume "out = Superseded \<and> begin_retirement_in_connection sha ?g (dr_now draft) plan_none s1 = Ok t \<and>
       authority_for_begin sha s active draft = Ok None \<and> authority = CurrentHead"
    moreover have "retirement_in_connection s1 ?g = None"
    proof -
      have "rt_generation r \<noteq> ?g" if "r \<in> set (ps_retirements s)" for r
        using inv_journal(2) [OF inv] that 1(2) by (auto simp: retirement_inv_def journal_row_of_def find_None_iff)
      then show ?thesis using 1(1) by (auto simp: retirement_in_connection_def find_None_iff)
    qed
    ultimately have "register_of t = (register_of s1)\<lparr>rg_tickets := (rg_tickets (register_of s1))(?g := None)\<rparr>"
      using register_of_retirement(2) by blast
    also have "\<dots> = register_of s" using s1 free by (simp add: fun_upd_idem)
    finally show ?thesis by simp
  qed
qed

lemma register_of_validate:
  assumes "validate_search_publication sha v s = Ok (u, t)"
  shows "register_of t = register_of s"
  using assms
proof (cases rule: validate_publication_cases)
  case (1 j)
  have "open_ticket s (va_generation v) = Some (pub_expected_visible_epoch (jr_publication j))"
    using 1(1,2) by (simp add: open_ticket_def)
  then have "open_ticket t = open_ticket s"
    unfolding 1(8) using 1(1) by (simp add: open_ticket_on_journal set_validated_def fun_upd_idem)
  then show ?thesis unfolding 1(8) by (simp add: register_of_def)
qed

lemma register_of_prune:
  assumes "journal_inv sha s" "prune_search_publication_history policy s = Ok (n, t)"
  shows "register_of t = register_of s"
proof -
  let ?G = "jr_generation ` set (prune_victims policy s)"
  have t: "t = delete_publications ?G s" by (rule prune_Ok(1) [OF assms(2)])
  have "open_ticket t g = open_ticket s g" for g
  proof (cases "g \<in> ?G")
    case False
    then show ?thesis by (simp add: t open_ticket_def journal_row_of_delete)
  next
    case True
    then obtain j where j: "j \<in> set (prune_victims policy s)" "jr_generation j = g" by blast
    then have p: "j \<in> set (ps_journal s)" "prunable policy s j" using prune_victims_prunable by blast+
    have "journal_row_of s g = Some j"
      using journal_row_of_unique [of s j] p(1) j(2) assms(1) by (simp add: journal_inv_def)
    then have "open_ticket s g = None" using p(2) by (auto simp: open_ticket_def prunable_def Let_def)
    moreover have "journal_row_of t g = None"
      using True by (auto simp: t delete_publications_def journal_row_of_def find_None_iff)
    ultimately show ?thesis by (simp add: open_ticket_def)
  qed
  then have "open_ticket t = open_ticket s" by (rule ext)
  then show ?thesis by (simp add: t register_of_def delete_publications_def)
qed

lemma register_of_commit:
  assumes "commit_with_precondition sha commit pre s = Ok (out, t)" "validate_commit_shape commit = Ok ()"
  shows "register_step\<^sup>*\<^sup>* (register_of s) (register_of t)"
  using assms
proof (cases rule: commit_cases)
  case (2 j rows s2)
  let ?g = "cm_generation commit"
  have row: "journal_row_of s2 = journal_row_of s" by (rule journal_row_of_cong) (use 2(5) in \<open>simp add: same_tables_def\<close>)
  have "open_ticket t = (open_ticket s)(?g := None)"
    unfolding 2(6) by (rule ext) (simp add: open_ticket_def journal_row_of_committed row 2(2))
  moreover have "map (\<lambda>r. pair_of (ar_projection r)) rows = map pair_of (cm_projections commit)"
    unfolding 2(7) [symmetric] by simp
  ultimately have "register_of t = \<lparr> rg_version = rg_version (register_of s) + 1,
      rg_value = Some (?g, map pair_of (cm_projections commit)), rg_tickets = (rg_tickets (register_of s))(?g := None) \<rparr>"
    using 2(11) by (simp add: register_of_def 2(6))
  moreover have "rg_tickets (register_of s) ?g = Some (rg_version (register_of s))"
    using 2(2,3,11) by (simp add: register_of_def open_ticket_def)
  ultimately show ?thesis using replace_value by (metis r_into_rtranclp)
qed simp

lemma register_stutter: "same_register_tables s t \<Longrightarrow> register_step\<^sup>*\<^sup>* (register_of s) (register_of t)"
  using same_register_of by (metis rtranclp.rtrancl_refl)

lemma register_of_step:
  assumes "world_inv sha w" "pub_step sha w w'"
  shows "register_step\<^sup>*\<^sup>* (register_of (w_store w)) (register_of (w_store w'))"
  using assms(2)
proof cases
  case (step_begin active draft out s)
  with assms(1) show ?thesis by (auto simp: world_inv_def intro: register_of_begin)
next
  case (step_retire g now plan u s)
  then show ?thesis using register_of_retirement(1) [of sha g now plan "w_store w" s] drop_ticket
    by (auto simp: begin_search_publication_retirement_def rbind_eq_Inr)
next
  case (step_prune policy n s)
  with assms(1) show ?thesis using register_of_prune [OF inv_journal(1), of sha "w_store w" policy n s] by (simp add: world_inv_def)
next
  case (step_import s)
  then show ?thesis by (auto simp: same_register_tables_def same_tables_def intro: register_stutter)
qed (auto simp: commit_search_publication_Ok register_of_validate
    intro: register_of_commit register_stutter keeps_register)

interpretation publication: simulation initial_world "pub_step sha" "world_inv sha" "\<lambda>w. register_of (w_store w)" register_step
  for sha
  by unfold_locales (auto intro: world_inv_initial world_inv_step register_of_step)

section \<open>Authorities of the journal\<close>

text \<open>A publication that an attempt authorised was begun on the head of that attempt.\<close>

definition authority_ok :: "head_row \<Rightarrow> journal_row \<Rightarrow> bool" where
  "authority_ok h j \<longleftrightarrow>
     (case jr_authority j of
        CurrentHead \<Rightarrow> True
      | MigrationRebuildAuthority c d i n \<Rightarrow> pub_base_generation (jr_publication j) = None \<and>
          (hr_generation h = None \<longrightarrow> pub_expected_visible_epoch (jr_publication j) = hr_epoch h)
      | ArtifactRepairAuthority key i n \<Rightarrow> pub_base_generation (jr_publication j) = Some (rk_generation key) \<and>
          pub_expected_visible_epoch (jr_publication j) = rk_epoch key)"

definition authority_inv :: "pub_store \<Rightarrow> bool" where
  "authority_inv s \<longleftrightarrow> (\<forall>j \<in> set (ps_journal s). authority_ok (ps_head s) j)"

lemma authority_ok_cong:
  "hr_generation h = hr_generation h' \<Longrightarrow> hr_epoch h = hr_epoch h' \<Longrightarrow> authority_ok h j = authority_ok h' j"
  by (simp add: authority_ok_def split: publication_authority.split)

lemma authority_inv_register: "same_register_tables s t \<Longrightarrow> authority_inv t = authority_inv s"
  by (simp add: authority_inv_def same_register_tables_def authority_ok_cong [of "ps_head t" "ps_head s"])

lemma authority_inv_on_journal:
  assumes "\<And>p. pub_base_generation (f p) = pub_base_generation p"
    "\<And>p. pub_expected_visible_epoch (f p) = pub_expected_visible_epoch p"
  shows "authority_inv (on_journal g f s) = authority_inv s"
proof -
  define u where "u j = (if jr_generation j = g then j\<lparr>jr_publication := f (jr_publication j)\<rparr> else j)" for j
  have "authority_ok h (u j) = authority_ok h j" for h j
    using assms by (simp add: u_def authority_ok_def split: publication_authority.split)
  then show ?thesis by (simp add: authority_inv_def on_journal_def u_def [symmetric, abs_def])
qed

lemma authority_inv_retirements: "authority_inv (s\<lparr>ps_retirements := r\<rparr>) = authority_inv s"
  by (simp add: authority_inv_def)

lemma authority_inv_retire:
  assumes "begin_retirement_in_connection sha g now plan s = Ok t"
  shows "authority_inv t = authority_inv s"
  using assms
  by (cases rule: begin_retirement_cases) (auto simp: authority_inv_retirements authority_inv_on_journal)

lemma authority_for_begin_ok:
  assumes "authority_for_begin sha s active draft = Ok (Some a)"
  shows "authority_ok (ps_head s) \<lparr> jr_publication = drafted draft, jr_authority = a \<rparr>"
  using assms
  by (auto simp: authority_for_begin_def running_migration_authority_def running_artifact_authority_def
      authority_ok_def drafted_def Let_def split: if_splits option.splits)

lemma authority_inv_begin:
  assumes "authority_inv s" "begin_search_publication sha active draft s = Ok (out, t)"
  shows "authority_inv t"
  using assms(2)
proof (cases rule: begin_publication_cases)
  case (1 authority s1)
  from 1(5) show ?thesis
  proof
    assume "out = Applied \<and> t = s1 \<and> authority_for_begin sha s active draft = Ok (Some authority)"
    with assms(1) authority_for_begin_ok 1(1) show ?thesis by (auto simp: authority_inv_def)
  next
    assume superseded: "out = Superseded \<and> begin_retirement_in_connection sha (dr_generation draft) (dr_now draft) plan_none s1 = Ok t \<and>
       authority_for_begin sha s active draft = Ok None \<and> authority = CurrentHead"
    with assms(1) 1(1) have "authority_inv s1" by (auto simp: authority_inv_def authority_ok_def)
    with superseded show ?thesis using authority_inv_retire by blast
  qed
qed

lemma authority_inv_commit:
  assumes "authority_inv s" "commit_with_precondition sha commit pre s = Ok (out, t)" "validate_commit_shape commit = Ok ()"
  shows "authority_inv t"
  using assms(2,3)
proof (cases rule: commit_cases)
  case (2 j rows s2)
  let ?g = "cm_generation commit"
  let ?u = "on_journal ?g (set_publication_state Ready (cm_now commit)) (s2\<lparr>ps_active := rows\<rparr>)"
  have "authority_inv s2" using assms(1) 2(5) by (simp add: authority_inv_def same_tables_def)
  then have "authority_inv (s2\<lparr>ps_active := rows\<rparr>)" by (simp add: authority_inv_def)
  then have "authority_inv ?u" by (simp add: authority_inv_on_journal)
  moreover have "authority_ok (ps_head t) k" if "authority_ok (ps_head ?u) k" for k
    using that by (auto simp: 2(6) authority_ok_def split: publication_authority.splits)
  moreover have "ps_journal t = ps_journal ?u" by (simp add: 2(6) committed_def)
  ultimately show ?thesis by (simp add: authority_inv_def)
qed (use assms(1) in simp)

lemma authority_inv_step:
  assumes inv: "authority_inv (w_store w)" and step: "pub_step sha w w'"
  shows "authority_inv (w_store w')"
  using step
proof cases
  case (step_validate v u s)
  from this(2) have "authority_inv s"
    by (cases rule: validate_publication_cases) (simp add: authority_inv_on_journal set_validated_def inv)
  with step_validate show ?thesis by simp
next
  case (step_prune policy n s)
  then show ?thesis using inv prune_Ok(1) [OF step_prune(2)] by (simp add: authority_inv_def delete_publications_def)
next
  case (step_import s)
  then show ?thesis using inv by (simp add: authority_inv_def same_tables_def)
next
  case (step_retire g now plan u s)
  then show ?thesis using inv authority_inv_retire
    by (auto simp: begin_search_publication_retirement_def rbind_eq_Inr)
qed (use inv in \<open>auto simp: commit_search_publication_Ok
      intro: authority_inv_commit authority_inv_begin iffD2 [OF authority_inv_register] keeps_register\<close>)

interpretation authority: safety initial_world "pub_step sha" "\<lambda>w. authority_inv (w_store w)" for sha
proof unfold_locales
  show "initial_world w \<Longrightarrow> authority_inv (w_store w)" for w
    by (simp add: initial_world_def authority_inv_def Let_def)
qed (rule authority_inv_step)

end
