(* ===== verification/PublicationSample.thy ===== *)
theory PublicationSample
  imports PublicationSafety
begin

text \<open>
  A concrete run of the publication and repair operations, evaluated step by step: an empty store is
  activated, a rebuild attempt publishes one document as the first generation, the artifacts of that
  generation are found missing and repair attempts follow.  The hash function stays a parameter.
\<close>

definition sample_doc :: document where
  "sample_doc = \<lparr> doc_id = sample_document 0, doc_content_hash = Some ''h'', doc_byte_size = 7,
     doc_is_deleted = False, doc_status = FieldsExtracted, doc_updated_at = 1, doc_other = ''cv.pdf'' \<rparr>"

definition sample_row :: version_row where
  "sample_row = \<lparr> rv_id = sample_version 0, rv_document = sample_document 0, rv_content_hash = ''h'',
     rv_byte_size = 7, rv_resume_candidate_at = [CLASSIFIER_EPOCH], rv_mention_count = 3,
     rv_candidate = None, rv_seal = None \<rparr>"

definition sample_head :: head_row where
  "sample_head = \<lparr> hr_service = ServiceRepairing, hr_generation = None, hr_epoch = 0,
     hr_reason = Some MigrationRebuild, hr_updated_at = 0 \<rparr>"

definition sample0 :: pub_store where
  "sample0 = \<lparr> ps_head = sample_head, ps_journal = [], ps_active = [], ps_retirements = [], ps_context = None,
     ps_attempt = None, ps_migration = None, ps_active_contract = None, ps_documents = [sample_doc],
     ps_versions = [sample_row], ps_roots = [], ps_unfinished = False \<rparr>"

definition sample_barrier :: barrier_token where
  "sample_barrier = \<lparr> bt_generation = None, bt_epoch = 0, bt_contract = ''contract-1'', bt_roots = [] \<rparr>"

definition sample_pair :: active_projection where
  "sample_pair = \<lparr> document_id = sample_document 0, resume_version_id = sample_version 0 \<rparr>"

definition sample_digest :: "hash \<Rightarrow> (string \<times> string) list \<Rightarrow> string" where
  "sample_digest sha ps = content_digest sha (projection_message ps)"

definition sample_draft :: "hash \<Rightarrow> publication_draft" where
  "sample_draft sha = \<lparr> dr_generation = ''gen-1'', dr_base_generation = None, dr_expected_epoch = 0,
     dr_classifier_epoch = CLASSIFIER_EPOCH, dr_projection_digest = sample_digest sha [pair_of sample_pair], dr_now = 3 \<rparr>"

definition sample_validation :: "hash \<Rightarrow> publication_validation" where
  "sample_validation sha =
     \<lparr> va_generation = ''gen-1'',
       va_fulltext = \<lparr> ftd_generation = ''gen-1'', ftd_document_count = 1,
         ftd_projection_digest = sample_digest sha [pair_of sample_pair], ftd_logical_content_digest = ''f'' \<rparr>,
       va_vector = disabled_descriptor ''gen-1'' 1 (sample_digest sha [pair_of sample_pair]) (sample_digest sha []) ''v'',
       va_now = 4 \<rparr>"

definition sample_published_doc :: document where
  "sample_published_doc = sample_doc\<lparr>doc_status := Searchable, doc_updated_at := 5\<rparr>"

definition sample_commit :: publication_commit where
  "sample_commit =
     \<lparr> cm_generation = ''gen-1'',
       cm_terminals = [\<lparr> td_document = sample_document 0, td_expected_status = FieldsExtracted,
         td_expected_is_deleted = False, td_expected_content_hash = ''h'', td_terminal_status = Searchable,
         td_terminal_is_deleted = False \<rparr>],
       cm_projections = [sample_pair], cm_projected = [Replacement sample_pair sample_published_doc],
       cm_coverage = [], cm_now = 5 \<rparr>"

text \<open>The id of an attempt is the digest of the random bytes.\<close>

definition sample_id :: "hash \<Rightarrow> string" where
  "sample_id sha = content_digest sha [1]"

section \<open>The stores of the run\<close>

definition sample_activated :: pub_store where
  "sample_activated = sample0\<lparr>ps_active_contract := Some ''contract-1''\<rparr>"

definition sample_attempt :: "hash \<Rightarrow> migration_attempt_row" where
  "sample_attempt sha = \<lparr> ma_contract = ''contract-1'', ma_digest = identity_digest sha sample_barrier,
     ma_id = sample_id sha, ma_count = 1, ma_phase = Running, ma_started_at = 2, ma_next_retry = None,
     ma_error = None, ma_updated_at = 2 \<rparr>"

definition sample_acquired :: "hash \<Rightarrow> pub_store" where
  "sample_acquired sha = sample_activated\<lparr>ps_migration := Some (sample_attempt sha)\<rparr>"

definition sample_authority :: "hash \<Rightarrow> publication_authority" where
  "sample_authority sha =
     MigrationRebuildAuthority ''contract-1'' (identity_digest sha sample_barrier) (sample_id sha) 1"

definition sample_begun :: "hash \<Rightarrow> pub_store" where
  "sample_begun sha = (sample_acquired sha)\<lparr>ps_journal :=
     [\<lparr> jr_publication = drafted (sample_draft sha), jr_authority = sample_authority sha \<rparr>]\<rparr>"

definition sample_validated_row :: "hash \<Rightarrow> search_publication" where
  "sample_validated_row sha =
     set_validated (search_publication_fingerprint sha CLASSIFIER_EPOCH (sample_digest sha [pair_of sample_pair])
         (va_fulltext (sample_validation sha)) (va_vector (sample_validation sha)))
       (sample_validation sha) (drafted (sample_draft sha))"

definition sample_validated :: "hash \<Rightarrow> pub_store" where
  "sample_validated sha = (sample_begun sha)\<lparr>ps_journal :=
     [\<lparr> jr_publication = sample_validated_row sha, jr_authority = sample_authority sha \<rparr>]\<rparr>"

definition sample_published :: "hash \<Rightarrow> pub_store" where
  "sample_published sha = (sample_validated sha)\<lparr>
     ps_head := \<lparr> hr_service = ServiceReady, hr_generation = Some ''gen-1'', hr_epoch = 1, hr_reason = None,
       hr_updated_at = 5 \<rparr>,
     ps_journal := [\<lparr> jr_publication = (sample_validated_row sha)\<lparr>pub_state := Ready, pub_updated_at := 5\<rparr>,
       jr_authority = sample_authority sha \<rparr>],
     ps_active := [\<lparr> ar_projection = sample_pair, ar_generation = ''gen-1'', ar_document = sample_published_doc \<rparr>],
     ps_migration := None, ps_documents := [sample_published_doc],
     ps_versions := [sample_row\<lparr>rv_seal := Some (5, 3, None)\<rparr>]\<rparr>"

lemma sample_activate: "activate_migration_rebuild_contract ''contract-1'' False 1 sample0 = Ok (Activated, sample_activated)"
  by (simp add: activate_migration_rebuild_contract_def sample0_def sample_head_def unpublished_migration_head_def
      sample_activated_def)

lemmas sample_states = sample0_def sample_head_def sample_activated_def sample_acquired_def sample_begun_def
  sample_validated_def sample_published_def

lemma no_pending: "ps_retirements s = [] \<Longrightarrow> ensure_no_pending_retirement s = Ok ()"
  by (simp add: ensure_no_pending_retirement_def pending_retirements_def)

lemma sample_barrier_token:
  assumes "ps_head s = sample_head" "ps_active_contract s = Some ''contract-1''" "\<not> ps_unfinished s" "ps_roots s = []"
  shows "barrier_token_in_connection s ''contract-1'' AuthorityRepairing = Some sample_barrier"
  using assms by (simp add: barrier_token_in_connection_def sample_head_def sample_barrier_def)

lemma sample_acquire:
  "\<exists>t. acquire_publication_attempt sha (Some [1]) None sample_barrier 2 sample_activated = Ok (MigrationStarted t, sample_acquired sha)"
  by (simp add: acquire_publication_attempt_def no_pending sample_states barrier_token_matches_def
      barrier_token_in_connection_def start_migration_attempt_def random_attempt_id_def sample_attempt_def
      sample_id_def sample_barrier_def)

lemma sample_generation: "valid_generation ''gen-1''" "current_classifier_epoch CLASSIFIER_EPOCH"
  by code_simp+

lemma sample_begin:
  "begin_search_publication sha (Some (sample_id sha)) (sample_draft sha) (sample_acquired sha) = Ok (Applied, sample_begun sha)"
  by (simp add: begin_search_publication_def validate_draft_def sample_draft_def sample_generation no_pending
      authority_for_begin_def sample_states running_migration_authority_def sample_attempt_def
      barrier_digest_matches_def barrier_token_in_connection_def sample_barrier_def journal_row_of_def
      u64_to_i64_def i64_max_def sample_authority_def)

lemma sample_pair_simps [simp]:
  "document_id sample_pair = sample_document 0" "resume_version_id sample_pair = sample_version 0"
  "pair_of sample_pair = (sample_document 0, sample_version 0)"
  by (simp_all add: sample_pair_def pair_of_def)

lemma sample_digests:
  "from_pairs sha [(sample_document 0, sample_version 0)] = Ok (sample_digest sha [(sample_document 0, sample_version 0)])"
  "from_pairs sha [] = Ok (sample_digest sha [])"
  by (simp_all add: from_pairs_def from_pairs_message_def sample_digest_def sample_ids_valid)

lemma sample_descriptors: "validate_descriptors sha (sample_validation sha) = Ok ()"
  by (simp add: validate_descriptors_def sample_validation_def disabled_descriptor_def sample_generation valid_mode_def
      sample_digests)

lemma sample_read:
  "read_publication sha (drafted (sample_draft sha)) = Ok (drafted (sample_draft sha))"
  "read_publication sha (sample_validated_row sha) = Ok (sample_validated_row sha)"
  using sample_descriptors [of sha]
  by (simp_all add: read_publication_def drafted_def sample_validated_row_def set_validated_def sample_draft_def
      sample_validation_def disabled_descriptor_def validate_descriptors_def valid_mode_def)

lemma sample_validate:
  "validate_search_publication sha (sample_validation sha) (sample_begun sha) = Ok ((), sample_validated sha)"
  by (simp add: validate_search_publication_def sample_descriptors search_publication_in_connection_def
      journal_row_of_def sample_begun_def sample_read)
    (simp add: sample_states drafted_def sample_draft_def sample_validation_def counts_fit_def i64_max_def
      disabled_descriptor_def on_journal_def sample_validated_row_def)

lemma sample_commit_shape: "validate_commit_shape sample_commit = Ok ()"
  by (simp add: validate_commit_shape_def sample_commit_def sample_generation projection_map_def
      valid_terminal_shape_def sample_published_doc_def sample_doc_def)

lemma sample_validated_fields [simp]:
  "pub_generation (sample_validated_row sha) = ''gen-1''" "pub_state (sample_validated_row sha) = Validated"
  "pub_base_generation (sample_validated_row sha) = None" "pub_expected_visible_epoch (sample_validated_row sha) = 0"
  by (simp_all add: sample_validated_row_def set_validated_def drafted_def sample_draft_def)

lemma sample_for_commit:
  "validated_publication_for_commit sha (sample_validated sha) sample_commit (PreconditionMigrationRebuild sample_barrier)
     = Ok (Some (sample_validated_row sha, ServiceRepairing, Some MigrationRebuild))"
  by (simp add: validated_publication_for_commit_def search_publication_in_connection_def journal_row_of_def
      sample_validated_def sample_commit_def sample_read)
    (simp add: sample_states publication_service_precondition_def ready_head_and_epoch_def authority_matches_commit_def
      read_authority_def journal_row_of_def sample_authority_def barrier_token_matches_def sample_barrier_def
      barrier_token_in_connection_def exact_running_migration_attempt_def sample_attempt_def drafted_def)

lemma sample_commit_valid:
  "validate_commit_against_publication sha (sample_validated sha) sample_commit (sample_validated_row sha) = Ok ()"
  by (simp add: validate_commit_against_publication_def sample_validated_row_def set_validated_def drafted_def
      sample_draft_def sample_validation_def disabled_descriptor_def sample_commit_def projection_digest_def
      sample_digests projection_map_def sample_generation validate_projection_transitions_def sample_states
      terminal_content_matches_def classified_at_def version_of_def sample_row_def
      collect_map_def is_replacement_def valid_transition_def)

lemma sample_committed:
  "apply_search_publication_commit sha sample_commit (sample_validated_row sha) (ServiceRepairing, Some MigrationRebuild)
     (sample_validated sha) = Ok (sample_published sha)"
  by (simp add: apply_search_publication_commit_def sample_commit_valid)
    (simp add: sample_commit_def sample_states seal_resume_version_def version_of_def sample_row_def
      terminal_applies_def sample_doc_def projected_document_snapshots_def action_document_def retained_document_def
      current_document_matches_def sample_published_doc_def document_matches_exact_source_revision_def i64_max_def
      active_rows_def journal_row_of_def u64_max_def u64_to_i64_def on_journal_def set_publication_state_def update_head_def
      Let_def)

lemma sample_publish:
  "commit_migration_rebuild_search_publication sha sample_commit sample_barrier (sample_validated sha)
     = Ok (Applied, sample_published sha)"
  by (simp add: commit_migration_rebuild_search_publication_def sample_commit_shape commit_with_precondition_def
      sample_for_commit sample_committed)

section \<open>The run\<close>

definition sample_world :: "pub_store \<Rightarrow> world" where
  "sample_world s = \<lparr> w_store = s, w_issued = {} \<rparr>"

lemma sample_world_simps [simp]: "w_store (sample_world s) = s" "(sample_world s)\<lparr>w_store := t\<rparr> = sample_world t"
  by (simp_all add: sample_world_def)

lemma sample_run: "reach initial_world (pub_step sha) (sample_world (sample_published sha))"
proof -
  have "initial_world (sample_world sample0)"
    by (simp add: initial_world_def sample_world_def sample0_def sample_head_def unpublished_migration_head_def)
  then have r0: "reach initial_world (pub_step sha) (sample_world sample0)" by (rule reach_init)
  have r1: "reach initial_world (pub_step sha) (sample_world sample_activated)"
    using pub_step.step_activate [of _ _ _ "sample_world sample0"] sample_activate by (intro reach_step [OF r0]) force
  obtain t where "acquire_publication_attempt sha (Some [1]) None sample_barrier 2 sample_activated = Ok (MigrationStarted t, sample_acquired sha)"
    using sample_acquire by blast
  then have r2: "reach initial_world (pub_step sha) (sample_world (sample_acquired sha))"
    using pub_step.step_migration_acquire [of sha _ _ _ _ "sample_world sample_activated"] by (intro reach_step [OF r1]) force
  have r3: "reach initial_world (pub_step sha) (sample_world (sample_begun sha))"
    using pub_step.step_begin [of sha _ _ "sample_world (sample_acquired sha)"] sample_begin by (intro reach_step [OF r2]) force
  have r4: "reach initial_world (pub_step sha) (sample_world (sample_validated sha))"
    using pub_step.step_validate [of sha _ "sample_world (sample_begun sha)"] sample_validate by (intro reach_step [OF r3]) force
  show ?thesis
    using pub_step.step_commit_migration [of sha _ _ "sample_world (sample_validated sha)"] sample_publish
    by (intro reach_step [OF r4]) force
qed

section \<open>A second publication that is abandoned\<close>

definition sample_next_draft :: publication_draft where
  "sample_next_draft = \<lparr> dr_generation = ''gen-2'', dr_base_generation = Some ''gen-1'', dr_expected_epoch = 1,
     dr_classifier_epoch = CLASSIFIER_EPOCH, dr_projection_digest = ''d'', dr_now = 6 \<rparr>"

definition sample_next_row :: "search_publication_state \<Rightarrow> int \<Rightarrow> journal_row" where
  "sample_next_row st now =
     \<lparr> jr_publication = (drafted sample_next_draft)\<lparr>pub_state := st, pub_updated_at := now\<rparr>, jr_authority = CurrentHead \<rparr>"

definition sample_next :: "hash \<Rightarrow> pub_store" where
  "sample_next sha = (sample_published sha)\<lparr>ps_journal := ps_journal (sample_published sha) @ [sample_next_row Preparing 6]\<rparr>"

definition sample_plan :: retirement_plan where
  "sample_plan = \<lparr> rp_fulltext = MayExist, rp_vector = ExpectNone \<rparr>"

definition sample_abandoned :: "hash \<Rightarrow> pub_store" where
  "sample_abandoned sha = (sample_published sha)\<lparr>
     ps_journal := ps_journal (sample_published sha) @ [sample_next_row Abandoned 7],
     ps_retirements := [new_retirement ''gen-2'' 7 sample_plan]\<rparr>"

lemma sample_begin_next: "begin_search_publication sha None sample_next_draft (sample_published sha) = Ok (Applied, sample_next sha)"
proof -
  have "valid_generation ''gen-2''" by code_simp
  then show ?thesis
    by (simp add: begin_search_publication_def validate_draft_def sample_next_draft_def sample_generation no_pending
        authority_for_begin_def sample_states journal_row_of_def u64_to_i64_def i64_max_def sample_next_row_def
        sample_next_def drafted_def)
qed

lemma sample_next_read: "read_publication sha (jr_publication (sample_next_row st now)) =
  (if st \<in> {Preparing, Abandoned} then Ok (jr_publication (sample_next_row st now)) else Err (Failed InvalidPersistedState))"
  by (cases st) (simp_all add: read_publication_def sample_next_row_def drafted_def)

lemma sample_retire_next:
  "begin_search_publication_retirement sha ''gen-2'' 7 sample_plan (sample_next sha) = Ok ((), sample_abandoned sha)"
proof -
  have gen: "jr_generation (sample_next_row st now) = ''gen-2''" for st now
    by (simp add: sample_next_row_def drafted_def sample_next_draft_def)
  have row: "journal_row_of (sample_next sha) ''gen-2'' = Some (sample_next_row Preparing 6)"
    by (simp add: journal_row_of_def sample_next_def sample_published_def gen)
  have "retirement_in_connection (sample_next sha) ''gen-2'' = None" "ps_retirements (sample_next sha) = []"
    by (simp_all add: retirement_in_connection_def sample_next_def sample_states)
  moreover have "pub_state (jr_publication (sample_next_row Preparing 6)) = Preparing" by (simp add: sample_next_row_def)
  ultimately have "begin_search_publication_retirement sha ''gen-2'' 7 sample_plan (sample_next sha) =
      Ok ((), on_journal ''gen-2'' (set_publication_state Abandoned 7)
        ((sample_next sha)\<lparr>ps_retirements := [new_retirement ''gen-2'' 7 sample_plan]\<rparr>))"
    by (simp add: begin_search_publication_retirement_def begin_retirement_in_connection_def
        search_publication_in_connection_def row sample_next_read)
  also have "on_journal ''gen-2'' (set_publication_state Abandoned 7)
        ((sample_next sha)\<lparr>ps_retirements := [new_retirement ''gen-2'' 7 sample_plan]\<rparr>) = sample_abandoned sha"
    by (simp add: on_journal_def sample_next_def sample_published_def sample_abandoned_def gen)
      (simp add: sample_next_row_def set_publication_state_def)
  finally show ?thesis .
qed

lemma sample_next_run: "reach initial_world (pub_step sha) (sample_world (sample_next sha))"
  using pub_step.step_begin [of sha _ _ "sample_world (sample_published sha)"] sample_begin_next
  by (intro reach_step [OF sample_run]) force

lemma sample_abandoned_run: "reach initial_world (pub_step sha) (sample_world (sample_abandoned sha))"
  using pub_step.step_retire [of sha _ _ _ "sample_world (sample_next sha)"] sample_retire_next
  by (intro reach_step [OF sample_next_run]) force

lemma sample_settle:
  "settle_search_publication_retirement_failure sha ''gen-2'' 8 (sample_abandoned sha) =
     Ok (HeadBlocked, set_service ServiceRepairBlocked RuntimeInvariant 8 (sample_abandoned sha))"
proof -
  have gen: "jr_generation (sample_next_row st now) = ''gen-2''" for st now
    by (simp add: sample_next_row_def drafted_def sample_next_draft_def)
  have row: "journal_row_of (sample_abandoned sha) ''gen-2'' = Some (sample_next_row Abandoned 7)"
    by (simp add: journal_row_of_def sample_abandoned_def sample_published_def gen)
  have fields: "pub_state (jr_publication (sample_next_row Abandoned 7)) = Abandoned"
    "jr_authority (sample_next_row Abandoned 7) = CurrentHead"
    "pub_base_generation (jr_publication (sample_next_row Abandoned 7)) = Some ''gen-1''"
    "pub_expected_visible_epoch (jr_publication (sample_next_row Abandoned 7)) = 1"
    by (simp_all add: sample_next_row_def drafted_def sample_next_draft_def)
  have "retirement_is_pending (sample_abandoned sha) ''gen-2''"
    by (simp add: retirement_is_pending_def retirement_in_connection_def sample_abandoned_def new_retirement_def sample_plan_def)
  then show ?thesis
    by (simp add: settle_search_publication_retirement_failure_def search_publication_in_connection_def row sample_next_read
        read_authority_def fields settle_current_head_def block_current_head_def epoch_i64_def i64_max_def)
      (simp add: sample_abandoned_def sample_published_def)
qed

section \<open>A repair of the first generation\<close>

definition sample_key :: "hash \<Rightarrow> artifact_repair_key" where
  "sample_key sha = \<lparr> rk_generation = ''gen-1'',
     rk_fingerprint = search_publication_fingerprint sha CLASSIFIER_EPOCH (sample_digest sha [pair_of sample_pair])
       (va_fulltext (sample_validation sha)) (va_vector (sample_validation sha)), rk_epoch = 1 \<rparr>"

definition sample_context :: "hash \<Rightarrow> repair_context" where
  "sample_context sha = \<lparr> rc_key = sample_key sha, rc_classifier_epoch = CLASSIFIER_EPOCH,
     rc_projection_digest = sample_digest sha [pair_of sample_pair], rc_projection_count = 1,
     rc_vector = ModeDisabled, rc_created_at = 6 \<rparr>"

definition sample_repairing :: "hash \<Rightarrow> pub_store" where
  "sample_repairing sha = (sample_published sha)\<lparr>
     ps_head := \<lparr> hr_service = ServiceRepairing, hr_generation = Some ''gen-1'', hr_epoch = 1,
       hr_reason = Some ArtifactUnavailable, hr_updated_at = 6 \<rparr>,
     ps_context := Some (sample_context sha)\<rparr>"

definition sample_ready :: "hash \<Rightarrow> search_publication" where
  "sample_ready sha = (sample_validated_row sha)\<lparr>pub_state := Ready, pub_updated_at := 5\<rparr>"

lemma sample_ready_row:
  "journal_row_of (sample_published sha) ''gen-1'' = Some \<lparr> jr_publication = sample_ready sha, jr_authority = sample_authority sha \<rparr>"
  "read_publication sha (sample_ready sha) = Ok (sample_ready sha)"
  using sample_descriptors [of sha]
  by (simp_all add: journal_row_of_def sample_published_def sample_ready_def read_publication_def sample_validated_row_def
      set_validated_def drafted_def sample_draft_def sample_validation_def disabled_descriptor_def
      validate_descriptors_def valid_mode_def)

lemma sample_begin_repair:
  "begin_artifact_repair sha ''gen-1'' 1 6 (sample_published sha) = Ok (Applied, sample_repairing sha)"
proof -
  let ?s1 = "(sample_published sha)\<lparr>ps_context := Some (sample_context sha)\<rparr>"
  have fields: "pub_fingerprint (sample_ready sha) = Some (rk_fingerprint (sample_key sha))" "pub_state (sample_ready sha) = Ready"
    "pub_fulltext (sample_ready sha) = Some (va_fulltext (sample_validation sha))"
    "pub_vector (sample_ready sha) = Some (va_vector (sample_validation sha))"
    "pub_classifier_epoch (sample_ready sha) = CLASSIFIER_EPOCH" "pub_expected_visible_epoch (sample_ready sha) = 0"
    "pub_projection_digest (sample_ready sha) = sample_digest sha [pair_of sample_pair]"
    by (simp_all add: sample_ready_def sample_validated_row_def set_validated_def drafted_def sample_draft_def sample_key_def)
  have "context_insert_authorised (sample_published sha) (sample_ready sha) (sample_context sha)"
    by (simp add: context_insert_authorised_def fields)
      (simp add: sample_published_def [of sha] sample_context_def sample_key_def sample_validation_def
        disabled_descriptor_def projection_intact_def version_of_def sample_row_def
        sample_published_doc_def sample_doc_def)
  moreover have "\<lparr> rc_key = \<lparr> rk_generation = ''gen-1'', rk_fingerprint = rk_fingerprint (sample_key sha), rk_epoch = 1 \<rparr>,
      rc_classifier_epoch = CLASSIFIER_EPOCH, rc_projection_digest = sample_digest sha [pair_of sample_pair],
      rc_projection_count = 1, rc_vector = ModeDisabled, rc_created_at = 6 \<rparr> = sample_context sha"
    by (simp add: sample_context_def sample_key_def)
  moreover have "ps_context (sample_published sha) = None" "hr_service (ps_head (sample_published sha)) = ServiceReady"
    "hr_reason (ps_head (sample_published sha)) = None" "hr_generation (ps_head (sample_published sha)) = Some ''gen-1''"
    "hr_epoch (ps_head (sample_published sha)) = 1"
    by (simp_all add: sample_states)
  ultimately have insert: "insert_context ServiceReady None ''gen-1'' 1 6 (sample_published sha) = Ok ?s1"
    by (simp add: insert_context_def sample_ready_row fields Let_def sample_validation_def disabled_descriptor_def)
  have "enter_artifact_repair ''gen-1'' 1 6 ?s1 = (Applied, sample_repairing sha)"
    by (simp add: enter_artifact_repair_def exact_context_def sample_context_def sample_key_def sample_published_def
        sample_repairing_def set_service_def update_head_def cleanup_due_def)
  moreover have "exact_current_publication (Some (sample_ready sha)) 1"
    by (simp add: exact_current_publication_def u64_max_def sample_ready_def) (simp add: sample_validated_row_def set_validated_def)
  moreover have "\<not> exact_context (sample_published sha) ''gen-1'' 1"
    by (simp add: exact_context_def sample_states)
  ultimately show ?thesis
    using sample_ready_row [of sha] insert
    by (simp add: begin_artifact_repair_def value_i64_def i64_max_def search_publication_in_connection_def)
qed

lemma sample_repair_run: "reach initial_world (pub_step sha) (sample_world (sample_repairing sha))"
  using pub_step.step_begin_repair [of sha _ _ _ "sample_world (sample_published sha)"] sample_begin_repair
  by (intro reach_step [OF sample_run]) force

definition sample_token :: "hash \<Rightarrow> artifact_attempt" where
  "sample_token sha = \<lparr> at_key = sample_key sha, at_id = content_digest sha [2], at_count = 1, at_prior = None \<rparr>"

definition sample_attempted :: "hash \<Rightarrow> pub_store" where
  "sample_attempted sha = (sample_repairing sha)\<lparr>ps_attempt := Some \<lparr> aa_key = sample_key sha,
     aa_id = content_digest sha [2], aa_count = 1, aa_phase = Running, aa_started_at = 7, aa_next_retry = None,
     aa_error = None, aa_updated_at = 7 \<rparr>\<rparr>"

lemma sample_acquire_repair:
  "acquire_attempt sha (Some [2]) None (sample_key sha) 7 (sample_repairing sha) =
     Ok (Started (sample_token sha), sample_attempted sha)"
  by (simp add: acquire_attempt_def epoch_i64_def i64_max_def sample_key_def sample_repairing_def sample_states no_pending
      exact_repair_context_matches_def context_matches_def artifact_repair_head_def sample_context_def acquire_fresh_def
      MAX_ATTEMPTS_def random_attempt_id_def sample_token_def sample_attempted_def)

end
