(* ===== verification/PublicationTheorems.thy ===== *)
theory PublicationTheorems
  imports PublicationSample
begin

text \<open>
  The properties of the publication store: what a query transaction reads, what a commit does, that the
  store is a register written by compare-and-swap, what a failed cleanup blocks, what pruning keeps, and
  the budget of a repair.  At the end a concrete run from an empty store to a published generation.
\<close>

section \<open>Reading the head\<close>

text \<open>What a query transaction opens; \<open>cls\<close> is the class of a store failure.\<close>

definition open_head ::
  "(store_failure \<Rightarrow> meta_store_error_class) \<Rightarrow> hash \<Rightarrow> pub_store \<Rightarrow> ('e transaction_error, search_metadata_head) result" where
  "open_head cls sha s =
     read_ready_head (Ok (head_columns s)) (\<lambda>g. map_err cls (search_publication_in_connection sha s g))"

lemma read_ready_head_Ok:
  assumes "row_service_state row = ''ready''" "row_repair_reason row = None" "row_generation row = Some g"
    "lookup g = Ok (Some p)" "pub_state p = Ready" "row_visible_epoch row = int (pub_expected_visible_epoch p + 1)"
    "pub_expected_visible_epoch p + 1 \<le> u64_max"
  shows "read_ready_head (Ok row) lookup =
    Ok \<lparr> hd_generation = g, hd_visible_epoch = pub_expected_visible_epoch p + 1, hd_publication = p \<rparr>"
proof -
  have "nat (row_visible_epoch row) = pub_expected_visible_epoch p + 1" "\<not> row_visible_epoch row < 0"
    using assms(6) by simp_all
  then show ?thesis using assms by (simp add: read_ready_head_def)
qed

lemma i64_max_le_u64_max: "n \<le> i64_max \<Longrightarrow> n \<le> u64_max"
  by (simp add: i64_max_def u64_max_def)

lemma open_ready_head:
  assumes inv: "store_inv sha s" and ready: "hr_service (ps_head s) = ServiceReady"
  shows "\<exists>p. open_head cls sha s = Ok \<lparr> hd_generation = pub_generation p, hd_visible_epoch = hr_epoch (ps_head s), hd_publication = p \<rparr> \<and>
    hr_generation (ps_head s) = Some (pub_generation p) \<and> published_by sha p s"
proof -
  have adm: "head_admissible (ps_head s)" using inv by (simp add: store_inv_def tables_inv_def head_inv_def)
  with ready obtain g where g: "hr_generation (ps_head s) = Some g" "hr_reason (ps_head s) = None"
    by (auto simp: head_admissible_def)
  then obtain j where j: "journal_row_of s g = Some j" "published_by sha (jr_publication j) s"
    using head_row_ready [OF inv] by blast
  let ?p = "jr_publication j"
  have gen: "pub_generation ?p = g" using journal_row_of_Some [OF j(1)] by simp
  have read: "search_publication_in_connection sha s g = Ok (Some ?p)"
    by (rule search_publication_readable [OF inv_journal(1) [OF inv] j(1)])
  have "open_head cls sha s = Ok \<lparr> hd_generation = g, hd_visible_epoch = pub_expected_visible_epoch ?p + 1, hd_publication = ?p \<rparr>"
    unfolding open_head_def
    by (rule read_ready_head_Ok)
      (use ready g j(2) read adm in
        \<open>auto simp: head_columns_def published_by_def head_admissible_def intro: i64_max_le_u64_max\<close>)
  then show ?thesis using g(1) j(2) gen by (auto simp: published_by_def)
qed

text \<open>
  C2: In every reachable store a query transaction reads the head without a storage error.  A head that
  is ready gives its publication, and the active projection is exactly the one that publication sealed:
  every row is of its generation, and count and digest are those of its descriptor.  A head that is not
  ready gives the repair reason.
\<close>

theorem ready_head_is_served:
  assumes run: "reach initial_world (pub_step sha) w" and s: "s = w_store w"
  shows "case hr_service (ps_head s) of
      ServiceReady \<Rightarrow> \<exists>p. open_head cls sha s = Ok \<lparr> hd_generation = pub_generation p, hd_visible_epoch = hr_epoch (ps_head s), hd_publication = p \<rparr> \<and>
        hr_generation (ps_head s) = Some (pub_generation p) \<and>
        (\<forall>r \<in> set (ps_active s). ar_generation r = pub_generation p) \<and>
        from_pairs sha (map (\<lambda>r. pair_of (ar_projection r)) (ps_active s)) = Ok (pub_projection_digest p) \<and>
        map_option ftd_document_count (pub_fulltext p) = Some (length (ps_active s))
    | ServiceRepairing \<Rightarrow> \<exists>r. open_head cls sha s = Err (TxUnavailable (Repairing r))
    | ServiceRepairBlocked \<Rightarrow> \<exists>r. open_head cls sha s = Err (TxUnavailable (RepairBlocked r))"
proof -
  have inv: "store_inv sha s" using publication.reach_inv [OF run] by (simp add: world_inv_def s)
  then have adm: "head_admissible (ps_head s)" by (simp add: store_inv_def tables_inv_def head_inv_def)
  show ?thesis
  proof (cases "hr_service (ps_head s)")
    case ServiceReady
    then obtain p where "(open_head cls sha s :: ('b transaction_error, search_metadata_head) result) = Ok \<lparr> hd_generation = pub_generation p, hd_visible_epoch = hr_epoch (ps_head s), hd_publication = p \<rparr>"
      "hr_generation (ps_head s) = Some (pub_generation p)" "published_by sha p s"
      using open_ready_head [OF inv] by blast
    with ServiceReady show ?thesis by (auto simp: published_by_def intro: exI [of _ p])
  next
    case ServiceRepairing
    with adm show ?thesis
      by (auto simp: head_admissible_def open_head_def read_ready_head_def head_columns_def
          search_repair_reason_from_storage_def)
  next
    case ServiceRepairBlocked
    with adm show ?thesis
      by (auto simp: head_admissible_def open_head_def read_ready_head_def head_columns_def
          search_repair_reason_from_storage_def)
  qed
qed

theorem ready_head_witness:
  "\<exists>p. open_head (\<lambda>_. undefined) (\<lambda>_. []) (sample_published (\<lambda>_. [])) =
     (Ok \<lparr> hd_generation = pub_generation p, hd_visible_epoch = 1, hd_publication = p \<rparr> :: (unit transaction_error, _) result) \<and>
     pub_generation p = ''gen-1''"
  using ready_head_is_served [OF sample_run [of "\<lambda>_. []"], of "sample_published (\<lambda>_. [])"
      "\<lambda>_. undefined", where ?'a = unit]
  by (auto simp: sample_published_def)

section \<open>The head as a register\<close>



text \<open>
  C6: The visible epoch never goes back, and it identifies what is served: two moments of a run with
  the same visible epoch have the same head generation and the same projection.
\<close>

theorem visible_epoch_identifies_projection:
  assumes run: "reach initial_world (pub_step sha) w" and later: "(pub_step sha)\<^sup>*\<^sup>* w w'"
  shows "hr_epoch (ps_head (w_store w)) \<le> hr_epoch (ps_head (w_store w')) \<and>
    (hr_epoch (ps_head (w_store w)) = hr_epoch (ps_head (w_store w')) \<longrightarrow>
      hr_generation (ps_head (w_store w')) = hr_generation (ps_head (w_store w)) \<and>
      (hr_generation (ps_head (w_store w)) \<noteq> None \<longrightarrow>
       map (\<lambda>r. pair_of (ar_projection r)) (ps_active (w_store w')) = map (\<lambda>r. pair_of (ar_projection r)) (ps_active (w_store w))))"
  using register_runs [OF publication.sim_steps [OF later publication.reach_inv [OF run]]]
  by (cases "hr_generation (ps_head (w_store w))"; cases "hr_generation (ps_head (w_store w'))")
    (auto simp: register_of_def)

theorem visible_epoch_witness:
  "hr_epoch (ps_head (sample_published (\<lambda>_. []))) \<le> hr_epoch (ps_head (sample_next (\<lambda>_. []))) \<and>
     hr_generation (ps_head (sample_next (\<lambda>_. []))) = hr_generation (ps_head (sample_published (\<lambda>_. [])))"
proof -
  have "pub_step (\<lambda>_. []) (sample_world (sample_published (\<lambda>_. []))) (sample_world (sample_next (\<lambda>_. [])))"
    using pub_step.step_begin [of "\<lambda>_. []" _ _ "sample_world (sample_published (\<lambda>_. []))"] sample_begin_next [of "\<lambda>_. []"]
    by force
  from visible_epoch_identifies_projection [OF sample_run r_into_rtranclp [of "pub_step (\<lambda>_. [])", OF this]]
  show ?thesis by (simp add: sample_next_def)
qed

section \<open>A commit\<close>

text \<open>What a row of the projection promises of the version and the document it names.\<close>

definition row_exact :: "pub_store \<Rightarrow> string \<Rightarrow> active_row \<Rightarrow> bool" where
  "row_exact s epoch r \<longleftrightarrow>
     (case version_of s (resume_version_id (ar_projection r)) of None \<Rightarrow> False
      | Some v \<Rightarrow> rv_document v = document_id (ar_projection r) \<and> rv_seal v \<noteq> None \<and>
          epoch \<in> set (rv_resume_candidate_at v) \<and> doc_id (ar_document r) = document_id (ar_projection r) \<and>
          \<not> doc_is_deleted (ar_document r) \<and> doc_status (ar_document r) = Searchable \<and>
          doc_content_hash (ar_document r) = Some (rv_content_hash v) \<and>
          doc_byte_size (ar_document r) = rv_byte_size v)"

text \<open>Sealing keeps every version but for the seal, and keeps a seal that is there.\<close>

definition same_version :: "version_row \<Rightarrow> version_row \<Rightarrow> bool" where
  "same_version r r' \<longleftrightarrow> rv_document r' = rv_document r \<and> rv_content_hash r' = rv_content_hash r \<and>
     rv_byte_size r' = rv_byte_size r \<and> rv_resume_candidate_at r' = rv_resume_candidate_at r \<and>
     (rv_seal r \<noteq> None \<longrightarrow> rv_seal r' = rv_seal r)"

definition seals :: "pub_store \<Rightarrow> pub_store \<Rightarrow> bool" where
  "seals s t \<longleftrightarrow> (\<forall>v. rel_option same_version (version_of s v) (version_of t v))"

lemma same_version_simps [simp]: "same_version r r" "rv_seal r = None \<Longrightarrow> same_version r (r\<lparr>rv_seal := x\<rparr>)"
  by (simp_all add: same_version_def)

lemma seals_refl [simp]: "seals s s"
  by (simp add: seals_def rel_option_reflI)

lemma seals_trans:
  assumes "seals s t" "seals t u"
  shows "seals s u"
  unfolding seals_def
proof
  fix v
  have trans: "same_version a c" if "same_version a b" "same_version b c" for a b c
    using that by (auto simp: same_version_def)
  show "rel_option same_version (version_of s v) (version_of u v)"
    using assms [unfolded seals_def, rule_format, of v]
    by (cases "version_of s v"; cases "version_of t v"; cases "version_of u v") (auto dest: trans)
qed

lemma find_map_seal:
  "find (\<lambda>r. rv_id r = w) (map (\<lambda>x. if rv_id x = v then x\<lparr>rv_seal := f x\<rparr> else x) xs) =
     map_option (\<lambda>x. if rv_id x = v then x\<lparr>rv_seal := f x\<rparr> else x) (find (\<lambda>r. rv_id r = w) xs)"
  by (induction xs) auto

lemma version_of_id: "version_of s v = Some r \<Longrightarrow> rv_id r = v"
  by (auto simp: version_of_def find_Some_iff)

lemma seal_one:
  assumes "seal_resume_version now v s = Ok t"
  shows "seals s t \<and> (\<exists>r. version_of t v = Some r \<and> rv_seal r \<noteq> None)"
proof -
  obtain r where r: "version_of s v = Some r" using assms by (auto simp: seal_resume_version_def split: option.splits)
  show ?thesis
  proof (cases "rv_seal r")
    case None
    with assms r have t: "version_of t w = map_option
        (\<lambda>x. if rv_id x = v then x\<lparr>rv_seal := Some (now, rv_mention_count x, rv_candidate x)\<rparr> else x) (version_of s w)" for w
      by (auto simp: seal_resume_version_def version_of_def find_map_seal split: if_splits)
    have "rel_option same_version (version_of s w) (version_of t w)" for w
      unfolding t using version_of_id [of s w] r None
      by (cases "version_of s w") auto
    then show ?thesis using t r version_of_id [OF r] by (simp add: seals_def)
  next
    case (Some x)
    with assms r show ?thesis by (auto simp: seal_resume_version_def split: if_splits prod.splits)
  qed
qed

lemma seal_all:
  "seal_resume_versions now vs s = Ok t \<Longrightarrow>
     seals s t \<and> (\<forall>v \<in> set vs. \<exists>r. version_of t v = Some r \<and> rv_seal r \<noteq> None)"
proof (induction vs arbitrary: s)
  case (Cons v vs)
  then obtain s1 where s1: "seal_resume_version now v s = Ok s1" "seal_resume_versions now vs s1 = Ok t"
    by (auto simp: rbind_eq_Inr)
  note rest = Cons.IH [OF s1(2)] and one = seal_one [OF s1(1)]
  from one obtain r where r: "version_of s1 v = Some r" "rv_seal r \<noteq> None" by blast
  have "rel_option same_version (version_of s1 v) (version_of t v)" using rest by (simp add: seals_def)
  with r have "\<exists>r. version_of t v = Some r \<and> rv_seal r \<noteq> None"
    by (cases "version_of t v") (auto simp: same_version_def)
  with rest one show ?case using seals_trans by auto
qed simp

lemma terminals_versions: "apply_terminal_document_updates now ts s = Ok t \<Longrightarrow> ps_versions t = ps_versions s"
  by (induction ts arbitrary: s) (auto split: if_splits)

lemma snapshot_exact:
  assumes "projected_document_snapshots s acts = Ok docs" "(a, d) \<in> set (zip acts docs)"
  shows "doc_id d = document_id (snapshot_projection a)" "\<not> doc_is_deleted d" "doc_status d = Searchable"
    and "\<exists>v. version_of s (resume_version_id (snapshot_projection a)) = Some v \<and> rv_document v = document_id (snapshot_projection a) \<and>
      doc_content_hash d = Some (rv_content_hash v) \<and> doc_byte_size d = rv_byte_size v"
proof -
  have "list_all2 (\<lambda>a d. doc_id d = document_id (snapshot_projection a) \<and> \<not> doc_is_deleted d \<and> doc_status d = Searchable \<and>
      document_matches_exact_source_revision s (snapshot_projection a) d = Ok True) acts docs"
    using assms(1) unfolding projected_document_snapshots_def traverse_Inr_iff
    by (rule list_all2_mono) (auto simp: rbind_eq_Inr Let_def split: if_splits)
  with assms(2) have d: "doc_id d = document_id (snapshot_projection a) \<and> \<not> doc_is_deleted d \<and> doc_status d = Searchable \<and>
      document_matches_exact_source_revision s (snapshot_projection a) d = Ok True"
    by (auto simp: list_all2_iff)
  then show "doc_id d = document_id (snapshot_projection a)" "\<not> doc_is_deleted d" "doc_status d = Searchable" by auto
  from d show "\<exists>v. version_of s (resume_version_id (snapshot_projection a)) = Some v \<and> rv_document v = document_id (snapshot_projection a) \<and>
      doc_content_hash d = Some (rv_content_hash v) \<and> doc_byte_size d = rv_byte_size v"
    by (auto simp: document_matches_exact_source_revision_def split: option.splits if_splits)
qed

lemma commit_shape_projected:
  assumes "validate_commit_shape commit = Ok ()"
  shows "map snapshot_projection (cm_projected commit) = cm_projections commit"
proof -
  have "list_all2 (\<lambda>a p. snapshot_projection a = p) (cm_projected commit) (cm_projections commit)"
    using assms by (auto simp: validate_commit_shape_def rbind_eq_Inr list_all2_iff list_ex_iff split: if_splits)
  then show ?thesis by (simp add: list_all2_map1 [symmetric] list.rel_eq)
qed

lemma version_of_committed: "version_of (committed commit p rows s) = version_of s"
  by (simp add: committed_def update_head_def delete_context_def on_journal_def version_of_def fun_eq_iff Let_def
      split: option.split)

lemma apply_commit_rows:
  assumes apply_ok: "apply_search_publication_commit sha commit p service s = Ok s'"
    and shape: "validate_commit_shape commit = Ok ()"
  shows "\<forall>r \<in> set (ps_active s'). row_exact s' (pub_classifier_epoch p) r"
proof
  fix r assume r: "r \<in> set (ps_active s')"
  obtain s1 s2 docs rows where v: "validate_commit_against_publication sha s commit p = Ok ()"
    and s1: "seal_resume_versions (cm_now commit) (map resume_version_id (cm_projections commit)) s = Ok s1"
    and s2: "apply_terminal_document_updates (cm_now commit) (cm_terminals commit) s1 = Ok s2"
    and docs: "projected_document_snapshots s2 (cm_projected commit) = Ok docs"
    and rows: "active_rows (cm_generation commit) (cm_projections commit) docs = Ok rows"
    and s': "s' = committed commit p rows s2"
    using apply_ok
    by (auto simp: apply_search_publication_commit_def committed_def u64_to_i64_def rbind_eq_Inr Let_def split: if_splits)
  have version: "version_of s' = version_of s1"
    unfolding s' version_of_committed using terminals_versions [OF s2] by (simp add: version_of_def fun_eq_iff)
  have acts: "map snapshot_projection (cm_projected commit) = cm_projections commit"
    using shape by (rule commit_shape_projected)
  from r obtain i where i: "i < length (cm_projections commit)" "i < length docs"
    "r = \<lparr> ar_projection = cm_projections commit ! i, ar_generation = cm_generation commit, ar_document = docs ! i \<rparr>"
    unfolding s' by (auto simp: active_rows_Ok [OF rows] set_zip)
  have "(cm_projected commit ! i, docs ! i) \<in> set (zip (cm_projected commit) docs)"
    using i(1,2) arg_cong [OF acts, of length] by (auto simp: set_zip)
  note snap = snapshot_exact [OF docs this]
  have q: "snapshot_projection (cm_projected commit ! i) = cm_projections commit ! i"
    using i(1) acts by (metis nth_map length_map)
  have mem: "cm_projections commit ! i \<in> set (cm_projections commit)" using i(1) by simp
  with validate_commit_Ok(3) [OF v] have "classified_at s (pub_classifier_epoch p) (resume_version_id (cm_projections commit ! i))" by blast
  moreover from seal_all [OF s1] have "rel_option same_version (version_of s w) (version_of s1 w)" for w by (simp add: seals_def)
  note this [of "resume_version_id (cm_projections commit ! i)"]
  moreover from seal_all [OF s1] mem
  have "\<exists>r. version_of s1 (resume_version_id (cm_projections commit ! i)) = Some r \<and> rv_seal r \<noteq> None" by auto
  ultimately show "row_exact s' (pub_classifier_epoch p) r"
    using snap version terminals_versions [OF s2]
    by (auto simp: row_exact_def i(3) q classified_at_def same_version_def version_of_def split: option.splits)
qed

lemma commit_rows_exact:
  assumes "commit_with_precondition sha commit pre s = Ok (Applied, s')" "validate_commit_shape commit = Ok ()"
    and j: "journal_row_of s (cm_generation commit) = Some j"
  shows "\<forall>r \<in> set (ps_active s'). row_exact s' (pub_classifier_epoch (jr_publication j)) r"
proof -
  from assms(1) obtain p service where p: "validated_publication_for_commit sha s commit pre = Ok (Some (p, service))"
    and s': "apply_search_publication_commit sha commit p service s = Ok s'"
    by (auto simp: commit_with_precondition_def rbind_eq_Inr split: option.splits)
  then have "search_publication_in_connection sha s (cm_generation commit) = Ok (Some p)"
    by (auto simp: validated_publication_for_commit_def rbind_eq_Inr Let_def split: if_splits prod.splits)
  then have "jr_publication j = p" using j search_publication_in_connection_Ok by fastforce
  with apply_commit_rows [OF s' assms(2)] show ?thesis by simp
qed

lemma stale_commit_is_superseded:
  assumes "search_publication_in_connection sha s (cm_generation commit) = Ok (Some p)" "pub_state p = Validated"
    and "is_ok (authority_matches_commit sha s (cm_generation commit)
        (case pre of PreconditionCurrentHead \<Rightarrow> None | PreconditionMigrationRebuild t \<Rightarrow> Some t))"
    and "(hr_generation (ps_head s), hr_epoch (ps_head s)) \<noteq> (pub_base_generation p, pub_expected_visible_epoch p)"
  shows "commit_with_precondition sha commit pre s = Ok (Superseded, s)"
  using assms
  by (auto simp: commit_with_precondition_def validated_publication_for_commit_def ready_head_and_epoch_def Let_def is_ok_iff)

lemma commit_runs:
  assumes "run = commit_search_publication sha commit s \<and> barrier = None \<or>
    (\<exists>t. run = commit_migration_rebuild_search_publication sha commit t s \<and> barrier = Some t)"
  obtains pre where "run = rbind (validate_commit_shape commit) (\<lambda>_. commit_with_precondition sha commit pre s)"
    and "(case pre of PreconditionCurrentHead \<Rightarrow> None | PreconditionMigrationRebuild t \<Rightarrow> Some t) = barrier"
  using assms
proof (elim disjE conjE exE)
  assume "run = commit_search_publication sha commit s" "barrier = None"
  then show ?thesis by (intro that [of PreconditionCurrentHead]) (simp_all add: commit_search_publication_def)
next
  fix t assume "run = commit_migration_rebuild_search_publication sha commit t s" "barrier = Some t"
  then show ?thesis
    by (intro that [of "PreconditionMigrationRebuild t"]) (simp_all add: commit_migration_rebuild_search_publication_def)
qed

text \<open>
  C5: A commit is a compare-and-swap.  Superseded leaves the store as it is.  Applied needs the
  publication validated and the head at exactly its base generation and expected epoch; then the head
  serves the publication at the next epoch, the projection is the one of the commit, each row of it is
  exact (a sealed and classified version and a searchable document with the content of that version),
  and no other journal row changes.  Conversely a well-formed commit of a validated publication whose
  head has moved on, in its generation or its epoch, is not an error: its outcome is superseded.
\<close>

theorem commit_is_compare_and_swap:
  assumes "run = commit_search_publication sha commit s \<and> barrier = None \<or>
    (\<exists>t. run = commit_migration_rebuild_search_publication sha commit t s \<and> barrier = Some t)"
  shows "(\<forall>out s'. run = Ok (out, s') \<longrightarrow> (case out of Superseded \<Rightarrow> s' = s
    | Applied \<Rightarrow> \<exists>j. journal_row_of s (cm_generation commit) = Some j \<and> pub_state (jr_publication j) = Validated \<and>
        hr_generation (ps_head s) = pub_base_generation (jr_publication j) \<and>
        hr_epoch (ps_head s) = pub_expected_visible_epoch (jr_publication j) \<and>
        ps_head s' = \<lparr> hr_service = ServiceReady, hr_generation = Some (cm_generation commit),
          hr_epoch = hr_epoch (ps_head s) + 1, hr_reason = None, hr_updated_at = cm_now commit \<rparr> \<and>
        map ar_projection (ps_active s') = cm_projections commit \<and>
        (\<forall>r \<in> set (ps_active s'). ar_generation r = cm_generation commit \<and>
           row_exact s' (pub_classifier_epoch (jr_publication j)) r) \<and>
        (\<forall>g. g \<noteq> cm_generation commit \<longrightarrow> journal_row_of s' g = journal_row_of s g))) \<and>
    (\<forall>p. validate_commit_shape commit = Ok () \<and>
        search_publication_in_connection sha s (cm_generation commit) = Ok (Some p) \<and> pub_state p = Validated \<and>
        is_ok (authority_matches_commit sha s (cm_generation commit) barrier) \<and>
        (hr_generation (ps_head s), hr_epoch (ps_head s)) \<noteq> (pub_base_generation p, pub_expected_visible_epoch p) \<longrightarrow>
      run = Ok (Superseded, s))"
    (is "(\<forall>out s'. _ \<longrightarrow> ?post out s') \<and> ?stale")
proof
  obtain pre where run: "run = rbind (validate_commit_shape commit) (\<lambda>_. commit_with_precondition sha commit pre s)"
    and barrier: "(case pre of PreconditionCurrentHead \<Rightarrow> None | PreconditionMigrationRebuild t \<Rightarrow> Some t) = barrier"
    by (rule commit_runs [OF assms])
  show "\<forall>out s'. run = Ok (out, s') \<longrightarrow> ?post out s'"
  proof (intro allI impI)
    fix out s' assume "run = Ok (out, s')"
    then have commit: "commit_with_precondition sha commit pre s = Ok (out, s')" and shape: "validate_commit_shape commit = Ok ()"
      by (auto simp: run rbind_eq_Inr)
    from commit shape show "?post out s'"
    proof (cases rule: commit_cases)
      case (2 j rows s2)
      have "journal_row_of s2 = journal_row_of s" by (rule journal_row_of_cong) (use 2(5) in \<open>simp add: same_tables_def\<close>)
      with 2 commit_rows_exact [OF commit [unfolded 2(1)] shape 2(2)] show ?thesis by (simp add: journal_row_of_committed)
    qed simp
  qed
  show ?stale
    using stale_commit_is_superseded [of sha s commit _ pre, unfolded barrier] by (simp add: run)
qed

text \<open>The validated sample after another publication took the head to a later epoch.\<close>

definition sample_stale :: "hash \<Rightarrow> pub_store" where
  "sample_stale sha = (sample_validated sha)\<lparr>ps_head := (ps_head (sample_validated sha))\<lparr>hr_epoch := 7\<rparr>\<rparr>"

lemma sample_stale_read:
  "search_publication_in_connection sha (sample_stale sha) (cm_generation sample_commit) = Ok (Some (sample_validated_row sha))"
  "is_ok (authority_matches_commit sha (sample_stale sha) (cm_generation sample_commit) (Some sample_barrier))"
  by (simp_all add: sample_stale_def search_publication_in_connection_def journal_row_of_def sample_validated_def sample_commit_def
      sample_read authority_matches_commit_def read_authority_def sample_authority_def)

theorem commit_is_compare_and_swap_witness:
  "commit_migration_rebuild_search_publication (\<lambda>_. []) sample_commit sample_barrier (sample_validated (\<lambda>_. []))
      = Ok (Applied, sample_published (\<lambda>_. [])) \<and>
   hr_epoch (ps_head (sample_published (\<lambda>_. []))) = hr_epoch (ps_head (sample_validated (\<lambda>_. []))) + 1 \<and>
   commit_migration_rebuild_search_publication (\<lambda>_. []) sample_commit sample_barrier (sample_stale (\<lambda>_. []))
      = Ok (Superseded, sample_stale (\<lambda>_. []))"
proof -
  let ?sha = "\<lambda>_ :: nat list. [] :: nat list"
  let ?run = "commit_migration_rebuild_search_publication ?sha sample_commit sample_barrier"
  have cas: "?run s = commit_search_publication ?sha sample_commit s \<and> Some sample_barrier = None \<or>
      (\<exists>t. ?run s = commit_migration_rebuild_search_publication ?sha sample_commit t s \<and> Some sample_barrier = Some t)" for s by blast
  have "hr_epoch (ps_head (sample_published ?sha)) = hr_epoch (ps_head (sample_validated ?sha)) + 1"
    using conjunct1 [OF commit_is_compare_and_swap [OF cas [of "sample_validated ?sha"]]] sample_publish [of ?sha] by fastforce
  moreover have "hr_epoch (ps_head (sample_stale ?sha)) \<noteq> pub_expected_visible_epoch (sample_validated_row ?sha)"
    by (simp add: sample_stale_def)
  then have "?run (sample_stale ?sha) = Ok (Superseded, sample_stale ?sha)"
    using conjunct2 [OF commit_is_compare_and_swap [OF cas [of "sample_stale ?sha"]], rule_format, of "sample_validated_row ?sha"]
      sample_commit_shape sample_stale_read [of ?sha] by simp
  ultimately show ?thesis using sample_publish [of ?sha] by blast
qed

section \<open>A failed cleanup\<close>

text \<open>
  What a settlement may do for an abandoned publication: block the head the publication was made for,
  find it already blocked, or nothing.
\<close>

definition settlement ::
  "search_publication \<Rightarrow> retirement_failure_outcome \<Rightarrow> int \<Rightarrow> pub_store \<Rightarrow> pub_store \<Rightarrow> bool" where
  "settlement p out now s s' \<longleftrightarrow>
     (case out of
        HeadBlocked \<Rightarrow>
          hr_generation (ps_head s) = pub_base_generation p \<and> hr_epoch (ps_head s) = pub_expected_visible_epoch p \<and>
          hr_service (ps_head s) \<noteq> ServiceRepairBlocked \<and>
          ps_head s' = (ps_head s)\<lparr>hr_service := ServiceRepairBlocked, hr_reason := Some RuntimeInvariant,
            hr_updated_at := max (hr_updated_at (ps_head s)) now\<rparr> \<and>
          ps_journal s' = ps_journal s \<and> ps_active s' = ps_active s \<and> ps_retirements s' = ps_retirements s
      | ExactHeadAlreadyBlocked \<Rightarrow>
          s' = s \<and> runtime_blocked_head s (pub_base_generation p) (pub_expected_visible_epoch p)
      | HeadSuperseded \<Rightarrow> s' = s)"

lemma set_service_head:
  "ps_head (set_service st reason now s) = (ps_head s)\<lparr>hr_service := st, hr_reason := Some reason,
     hr_updated_at := max (hr_updated_at (ps_head s)) now\<rparr>"
  by (simp add: set_service_def Let_def)

lemma settle_current_head_settles: "settle_current_head p now s = Ok (out, s') \<Longrightarrow> settlement p out now s s'"
  by (auto simp: settle_current_head_def block_current_head_def exact_blocked_current_head_def epoch_i64_def settlement_def
      set_service_head result_simps Let_def split: if_splits)

lemma settle_migration_settles:
  assumes "settle_migration sha p c d i n now s = Ok (out, s')" "pub_base_generation p = None"
    "hr_generation (ps_head s) = None \<longrightarrow> pub_expected_visible_epoch p = hr_epoch (ps_head s)"
  shows "settlement p out now s s'"
  using assms
  by (auto simp: settle_migration_def exact_blocked_current_head_def settle_migration_attempt_def block_migration_head_def
      epoch_i64_def settlement_def unpublished_migration_head_def set_service_head result_simps Let_def split: if_splits)

lemma settle_artifact_settles:
  assumes settle: "settle_artifact p key i n now s = Ok (out, s')"
    and "pub_base_generation p = Some (rk_generation key)" "pub_expected_visible_epoch p = rk_epoch key"
  shows "settlement p out now s s'"
  using settle
proof (cases rule: settle_artifact_cases)
  case 1
  with assms show ?thesis
    by (auto simp: settlement_def settle_artifact_def exact_terminal_artifact_cleanup_authority_def epoch_i64_def
        result_simps split: if_splits retirement_failure_outcome.splits)
next
  case (2 a)
  with assms(2,3) show ?thesis by (simp add: settlement_def artifact_repair_head_def set_service_head)
qed

text \<open>
  C17: A cleanup that fails blocks only the head its publication was made for.  In every reachable
  store the settlement of a failed retirement finds the abandoned publication; the head changes only
  where it still is at the base generation and expected epoch of that publication, it becomes blocked
  with its generation and epoch kept, and the journal, the projection and the retirements stay.  A
  superseding head is left alone.
\<close>

theorem failed_cleanup_blocks_only_its_head:
  assumes run: "reach initial_world (pub_step sha) w"
    and settle: "settle_search_publication_retirement_failure sha g now (w_store w) = Ok (out, s')"
  shows "\<exists>j. journal_row_of (w_store w) g = Some j \<and> pub_state (jr_publication j) = Abandoned \<and>
    settlement (jr_publication j) out now (w_store w) s'"
proof -
  obtain p a where p: "search_publication_in_connection sha (w_store w) g = Ok (Some p)" "pub_state p = Abandoned"
    and a: "read_authority (w_store w) g = Some a"
    and settled: "(case a of CurrentHead \<Rightarrow> settle_current_head p now (w_store w)
      | MigrationRebuildAuthority c d i n \<Rightarrow> settle_migration sha p c d i n now (w_store w)
      | ArtifactRepairAuthority key i n \<Rightarrow> settle_artifact p key i n now (w_store w)) = Ok (out, s')"
    using settle by (rule settle_cases)
  obtain j where j: "journal_row_of (w_store w) g = Some j" "jr_publication j = p"
    using search_publication_in_connection_Ok [OF p(1)] by blast
  have "authority_ok (ps_head (w_store w)) j"
    using authority.reach_inv [OF run] journal_row_of_Some [OF j(1)] by (simp add: authority_inv_def)
  moreover have "jr_authority j = a" using a j(1) by (simp add: read_authority_def)
  ultimately have "settlement p out now (w_store w) s'"
    using settled j(2) settle_current_head_settles settle_migration_settles settle_artifact_settles
    by (cases a) (auto simp: authority_ok_def)
  with j p(2) show ?thesis by blast
qed

theorem failed_cleanup_witness:
  "\<exists>j. journal_row_of (sample_abandoned (\<lambda>_. [])) ''gen-2'' = Some j \<and>
     settlement (jr_publication j) HeadBlocked 8 (sample_abandoned (\<lambda>_. []))
       (set_service ServiceRepairBlocked RuntimeInvariant 8 (sample_abandoned (\<lambda>_. [])))"
  using failed_cleanup_blocks_only_its_head [OF sample_abandoned_run [of "\<lambda>_. []"], of "''gen-2''" 8]
    sample_settle [of "\<lambda>_. []"]
  by auto

section \<open>Pruning\<close>

lemma take_filter_keep: "(\<forall>x \<in> set (take n xs). P x) \<Longrightarrow> take n (filter P xs) = take n xs"
proof (induction xs arbitrary: n)
  case (Cons x xs)
  then show ?case by (cases n) auto
qed simp

lemma newest_ready_delete:
  assumes "\<forall>j \<in> set (newest_ready n s). jr_generation j \<notin> G"
  shows "newest_ready n (delete_publications G s) = newest_ready n s"
proof -
  let ?ready = "\<lambda>j. pub_state (jr_publication j) = Ready" and ?keep = "\<lambda>j. jr_generation j \<notin> G"
  have "rev (sort_key journal_order (filter ?ready (filter ?keep (ps_journal s)))) =
      filter ?keep (rev (sort_key journal_order (filter ?ready (ps_journal s))))"
    by (simp add: filter_sort [symmetric] rev_filter conj_commute)
  moreover have "take n (filter ?keep (rev (sort_key journal_order (filter ?ready (ps_journal s))))) =
      take n (rev (sort_key journal_order (filter ?ready (ps_journal s))))"
    by (rule take_filter_keep) (use assms in \<open>simp add: newest_ready_def\<close>)
  ultimately show ?thesis by (simp add: newest_ready_def delete_publications_def)
qed

lemma newest_ready_journal: "j \<in> set (newest_ready n s) \<Longrightarrow> j \<in> set (ps_journal s) \<and> pub_state (jr_publication j) = Ready"
  by (auto simp: newest_ready_def dest!: in_set_takeD)

text \<open>A victim is no row that is retained: not the head, not open, not one of the newest ready rows.\<close>

lemma victim_not_retained:
  assumes inv: "store_inv sha s" and j: "j \<in> set (ps_journal s)" "jr_generation j \<in> jr_generation ` set (prune_victims policy s)"
  shows "prunable policy s j"
proof -
  from j(2) obtain k where k: "k \<in> set (prune_victims policy s)" "jr_generation k = jr_generation j" by auto
  then have "k \<in> set (ps_journal s)" "prunable policy s k" using prune_victims_prunable by blast+
  moreover have "k = j"
    using inv_journal(1) [OF inv] j(1) k(2) \<open>k \<in> set (ps_journal s)\<close>
    by (auto simp: journal_inv_def distinct_map dest: inj_onD)
  ultimately show ?thesis by simp
qed

lemma retained_not_victim:
  assumes inv: "store_inv sha s" and G: "G = jr_generation ` set (prune_victims policy s)"
  shows "hr_generation (ps_head s) = Some g \<Longrightarrow> g \<notin> G"
    and "j \<in> set (newest_ready (pp_retain_ready policy) s) \<Longrightarrow> jr_generation j \<notin> G"
    and "j \<in> set (ps_journal s) \<Longrightarrow> pub_state (jr_publication j) \<in> {Preparing, Validated} \<Longrightarrow> jr_generation j \<notin> G"
    and "r \<in> set (ps_retirements s) \<Longrightarrow> rt_phase r = RetirementPending \<Longrightarrow> rt_generation r \<notin> G"
proof -
  have row: "prunable policy s j" if "j \<in> set (ps_journal s)" "jr_generation j \<in> G" for j
    using victim_not_retained [OF inv that [unfolded G]] .
  show "hr_generation (ps_head s) = Some g \<Longrightarrow> g \<notin> G"
    and "r \<in> set (ps_retirements s) \<Longrightarrow> rt_phase r = RetirementPending \<Longrightarrow> rt_generation r \<notin> G"
    unfolding G by (auto dest!: prune_victims_prunable simp: prunable_def Let_def list_ex_iff)
  show "j \<in> set (newest_ready (pp_retain_ready policy) s) \<Longrightarrow> jr_generation j \<notin> G"
    using row [of j] newest_ready_journal [of j "pp_retain_ready policy" s] by (auto simp: prunable_def Let_def)
  show "j \<in> set (ps_journal s) \<Longrightarrow> pub_state (jr_publication j) \<in> {Preparing, Validated} \<Longrightarrow> jr_generation j \<notin> G"
    using row [of j] by (auto simp: prunable_def Let_def)
qed

text \<open>
  C19: Pruning the journal never fails for a policy within its limits and deletes at most the given
  number of rows.  Everything that artifact retention names (the head, the open publications and the
  newest ready ones) stays in the journal and retention is the same afterwards; so do the projection,
  the repair context and every retirement that is still pending.
\<close>

theorem pruning_keeps_what_is_retained:
  assumes run: "reach initial_world (pub_step sha) w" and s: "s = w_store w"
    and limits: "limit_ok (pp_retain_ready policy)" "limit_ok (pp_max_delete policy)"
  shows "\<exists>n s' retained. prune_search_publication_history policy s = Ok (n, s') \<and> n \<le> pp_max_delete policy \<and>
    search_artifact_retention_generations (pp_retain_ready policy) s = Ok retained \<and>
    search_artifact_retention_generations (pp_retain_ready policy) s' = Ok retained \<and>
    (\<forall>j \<in> set (ps_journal s). jr_generation j \<in> retained \<longrightarrow> j \<in> set (ps_journal s')) \<and>
    ps_head s' = ps_head s \<and> ps_active s' = ps_active s \<and> ps_context s' = ps_context s \<and>
    filter (\<lambda>r. rt_phase r = RetirementPending) (ps_retirements s') =
      filter (\<lambda>r. rt_phase r = RetirementPending) (ps_retirements s)"
proof -
  define G where "G = jr_generation ` set (prune_victims policy s)"
  let ?open = "\<lambda>j. pub_state (jr_publication j) \<in> {Preparing, Validated}" and ?s' = "delete_publications G s"
  have inv: "store_inv sha s" using publication.reach_inv [OF run] by (simp add: world_inv_def s)
  note kept = retained_not_victim [OF inv G_def]
  have "\<not> (case ps_context s of None \<Rightarrow> False | Some c \<Rightarrow> rk_generation (rc_key c) \<in> G)"
    using inv kept(1) by (auto simp: store_inv_def tables_inv_def repair_inv_def context_ok_def cleanup_due_def split: option.split)
  then have prune: "prune_search_publication_history policy s = Ok (length (prune_victims policy s), ?s')"
    using limits unfolding G_def prune_search_publication_history_def Let_def by (simp only: if_False if_True HOL.simp_thms)
  define R where "R = set_option (hr_generation (ps_head s)) \<union> jr_generation ` set (filter ?open (ps_journal s)) \<union>
    jr_generation ` set (newest_ready (pp_retain_ready policy) s)"
  have "filter ?open (ps_journal ?s') = filter ?open (ps_journal s)"
    using kept(3) by (auto simp: delete_publications_def intro!: filter_cong)
  moreover have "newest_ready (pp_retain_ready policy) ?s' = newest_ready (pp_retain_ready policy) s"
    by (rule newest_ready_delete) (use kept(2) in blast)
  ultimately have retention: "search_artifact_retention_generations (pp_retain_ready policy) s = Ok R"
    "search_artifact_retention_generations (pp_retain_ready policy) ?s' = Ok R"
    using limits by (simp_all add: search_artifact_retention_generations_def delete_publications_def R_def)
  have "R \<inter> G = {}" using kept(1-3) by (auto simp: R_def)
  then have rows: "\<forall>j \<in> set (ps_journal s). jr_generation j \<in> R \<longrightarrow> j \<in> set (ps_journal ?s')"
    by (auto simp: delete_publications_def)
  have "filter (\<lambda>r. rt_phase r = RetirementPending) (ps_retirements ?s') =
      filter (\<lambda>r. rt_phase r = RetirementPending) (ps_retirements s)"
    using kept(4) by (auto simp: delete_publications_def intro!: filter_cong)
  moreover have "length (prune_victims policy s) \<le> pp_max_delete policy" by (simp add: prune_victims_def)
  ultimately show ?thesis using prune retention rows
    by (intro exI [of _ "length (prune_victims policy s)"] exI [of _ ?s'] exI [of _ R]) (simp add: delete_publications_def)
qed

theorem pruning_witness:
  "\<exists>n s'. prune_search_publication_history \<lparr> pp_retain_ready = 1, pp_abandoned_before = 9, pp_max_delete = 8 \<rparr>
      (sample_abandoned (\<lambda>_. [])) = Ok (n, s') \<and> n \<le> 8 \<and>
      filter (\<lambda>r. rt_phase r = RetirementPending) (ps_retirements s') = ps_retirements (sample_abandoned (\<lambda>_. []))"
  using pruning_keeps_what_is_retained [OF sample_abandoned_run [of "\<lambda>_. []"] refl,
      of "\<lparr> pp_retain_ready = 1, pp_abandoned_before = 9, pp_max_delete = 8 \<rparr>"]
  by (auto simp: limit_ok_def sample_abandoned_def new_retirement_def sample_plan_def)

section \<open>The budget of a repair\<close>








text \<open>
  Cancelling an attempt gives it back.  Directly after an attempt was started its cancellation
  succeeds and leaves the store that was there before: no attempt where there was none, and otherwise the
  waiting attempt with its count, times and error, under a fresh id.
\<close>

theorem cancelled_attempt_is_given_back:
  assumes run: "reach initial_world (pub_step sha) w" and s: "s = w_store w"
    and acquire: "acquire_attempt sha entropy active key now s = Ok (Started t, s1)"
  shows "cancel_attempt sha (Some random) t s1 =
    Ok (Restored, s\<lparr>ps_attempt := map_option (\<lambda>a. a\<lparr>aa_id := content_digest sha random\<rparr>) (ps_attempt s)\<rparr>)"
proof -
  have inv: "store_inv sha s" using publication.reach_inv [OF run] by (simp add: world_inv_def s)
  have ctx: "exact_repair_context_matches s key" and epoch: "rk_epoch key \<le> i64_max"
    using acquire by (auto simp: acquire_attempt_def epoch_i64_def rbind_eq_Inr split: if_splits)
  show ?thesis
  proof (cases "ps_attempt s")
    case None
    then have "acquire_fresh sha entropy key None now s = Ok (Started t, s1)"
      using acquire ctx by (auto simp: acquire_attempt_def rbind_eq_Inr)
    with None epoch show ?thesis
      by (auto simp: acquire_fresh_def cancel_attempt_def delete_exact_attempt_def exact_attempt_def epoch_i64_def
          result_simps Let_def split: if_splits)
  next
    case (Some a)
    note ok = inv_attempt_ok [OF inv Some]
    then have key: "aa_key a = key"
      using ctx by (auto simp: exact_repair_context_matches_def context_matches_def split: option.splits)
    then have waiting: "aa_phase a = RetryWait" "acquire_waiting sha entropy key a now s = Ok (Started t, s1)"
      using acquire ctx Some
      by (auto simp: acquire_attempt_def acquire_interrupted_def rbind_eq_Inr Let_def split: attempt_phase.splits if_splits)
    then obtain kind where kind: "aa_error a = Some kind" "aa_next_retry a = Some (retry_at (aa_updated_at a) (aa_count a))"
      using ok by (auto simp: attempt_ok_def)
    have "acquire_fresh sha entropy key (Some \<lparr> pr_count = aa_count a, pr_started_at = aa_started_at a,
        pr_next_retry = retry_at (aa_updated_at a) (aa_count a), pr_error = kind, pr_updated_at = aa_updated_at a \<rparr>) now s
      = Ok (Started t, s1)"
      using waiting(2) kind by (auto simp: acquire_waiting_def result_simps split: if_splits)
    then show ?thesis using Some ok key waiting(1) kind epoch
      by (auto simp: acquire_fresh_def cancel_attempt_def exact_attempt_def epoch_i64_def random_attempt_id_def attempt_ok_def
          MAX_ATTEMPTS_def result_simps Let_def split: if_splits)
  qed
qed

theorem cancelled_attempt_witness:
  "\<exists>s. cancel_attempt (\<lambda>_. []) (Some [3]) (sample_token (\<lambda>_. [])) (sample_attempted (\<lambda>_. [])) = Ok (Restored, s) \<and>
     ps_attempt s = None"
  using cancelled_attempt_is_given_back [OF sample_repair_run [of "\<lambda>_. []"] refl] sample_acquire_repair [of "\<lambda>_. []"]
  by (auto simp: sample_repairing_def sample_states)

section \<open>The journal\<close>

text \<open>
  How a journal row may change: its identity, its authority and its creation stay; it is validated
  once, and afterwards only its state and its time change.
\<close>

definition row_step :: "journal_row \<Rightarrow> journal_row \<Rightarrow> bool" where
  "row_step j j' \<longleftrightarrow> j' = j \<or>
     (let p = jr_publication j; p' = jr_publication j'
      in jr_authority j' = jr_authority j \<and>
         (pub_state p = Preparing \<and>
            p' = p\<lparr>pub_state := Validated, pub_fingerprint := pub_fingerprint p', pub_fulltext := pub_fulltext p',
              pub_vector := pub_vector p', pub_updated_at := pub_updated_at p'\<rparr> \<or>
          pub_state p \<in> {Preparing, Validated} \<and> p' = p\<lparr>pub_state := Abandoned, pub_updated_at := pub_updated_at p'\<rparr> \<or>
          pub_state p = Validated \<and> p' = p\<lparr>pub_state := Ready, pub_updated_at := pub_updated_at p'\<rparr>))"

definition row_kept :: "journal_row \<Rightarrow> pub_store \<Rightarrow> bool" where
  "row_kept j t \<longleftrightarrow> (case journal_row_of t (jr_generation j) of
     None \<Rightarrow> pub_state (jr_publication j) \<in> {Ready, Abandoned} | Some j' \<Rightarrow> row_step j j')"

lemma row_kept_same: "journal_row_of s g = Some j \<Longrightarrow> ps_journal t = ps_journal s \<Longrightarrow> row_kept j t"
  using journal_row_of_Some [of s g j] journal_row_of_cong [of t s] by (simp add: row_kept_def row_step_def)

lemma row_kept_register: "journal_row_of s g = Some j \<Longrightarrow> same_register_tables s t \<Longrightarrow> row_kept j t"
  by (rule row_kept_same) (simp_all add: same_register_tables_def)

lemma row_kept_retire:
  assumes j: "journal_row_of s g = Some j" and retire: "begin_retirement_in_connection sha k now plan s = Ok t"
  shows "row_kept j t"
  using retire
proof (cases rule: begin_retirement_cases)
  case 1
  then show ?thesis using row_kept_same [OF j] by simp
next
  case (2 p s1)
  have gen: "jr_generation j = g" using journal_row_of_Some [OF j] by simp
  obtain r where r: "journal_row_of s k = Some r" "jr_publication r = p"
    using search_publication_in_connection_Ok [OF 2(1)] by blast
  have "journal_row_of t = journal_row_of s1" by (rule journal_row_of_cong) (simp add: 2(5))
  moreover have "pub_state p \<in> {Preparing, Validated}" if "pub_state p \<noteq> Abandoned"
    using that 2(2) by (cases "pub_state p") auto
  ultimately show ?thesis
    using j gen r by (cases "g = k")
      (auto simp: row_kept_def row_step_def 2(4) journal_row_of_on_journal set_publication_state_def Let_def)
qed

lemma journal_row_of_append:
  "journal_row_of (s\<lparr>ps_journal := ps_journal s @ [r]\<rparr>) g =
     (case journal_row_of s g of None \<Rightarrow> if jr_generation r = g then Some r else None | Some j \<Rightarrow> Some j)"
proof -
  have "find P (xs @ [r]) = (case find P xs of None \<Rightarrow> if P r then Some r else None | Some j \<Rightarrow> Some j)" for P xs
    by (induction xs) auto
  then show ?thesis by (simp add: journal_row_of_def)
qed

lemma row_kept_begin:
  assumes j: "journal_row_of s g = Some j" and "begin_search_publication sha active draft s = Ok (out, t)"
  shows "row_kept j t"
  using assms(2)
proof (cases rule: begin_publication_cases)
  case (1 authority s1)
  have s1: "journal_row_of s1 g = Some j" using j by (simp add: 1(1) journal_row_of_append)
  from 1(5) show ?thesis using row_kept_same [OF s1, of t] row_kept_retire [OF s1] by auto
qed

lemma row_kept_commit:
  assumes j: "journal_row_of s g = Some j" and "commit_with_precondition sha commit pre s = Ok (out, t)"
    and "validate_commit_shape commit = Ok ()"
  shows "row_kept j t"
  using assms(2,3)
proof (cases rule: commit_cases)
  case (2 k rows s2)
  have "journal_row_of s2 = journal_row_of s" by (rule journal_row_of_cong) (use 2(5) in \<open>simp add: same_tables_def\<close>)
  then show ?thesis using j 2(2,3) journal_row_of_Some [OF j]
    by (cases "g = cm_generation commit")
      (auto simp: row_kept_def row_step_def 2(6) journal_row_of_committed set_publication_state_def Let_def)
qed (use row_kept_same [OF j] in simp)

text \<open>
  C20: The journal is a history.  In every step of a reachable store a row of the journal keeps its
  identity, its authority and, once validated, its descriptors; its state goes from preparing to
  validated, from either to abandoned or from validated to ready; and only ready or abandoned rows are
  ever removed.
\<close>

theorem journal_is_a_history:
  assumes run: "reach initial_world (pub_step sha) w" and step: "pub_step sha w w'"
    and j: "journal_row_of (w_store w) g = Some j"
  shows "row_kept j (w_store w')"
  using step
proof cases
  case (step_validate v u s)
  from this(2) show ?thesis
    using j journal_row_of_Some [OF j] step_validate(1)
    by (cases rule: validate_publication_cases, cases "g = va_generation v")
      (auto simp: row_kept_def row_step_def journal_row_of_on_journal set_validated_def)
next
  case (step_prune policy n s)
  have inv: "store_inv sha (w_store w)" using publication.reach_inv [OF run] by (simp add: world_inv_def)
  have row: "j \<in> set (ps_journal (w_store w))" "jr_generation j = g" using journal_row_of_Some [OF j] by simp_all
  define G where "G = jr_generation ` set (prune_victims policy (w_store w))"
  have s: "s = delete_publications G (w_store w)" using prune_Ok(1) [OF step_prune(2)] by (simp add: G_def)
  show ?thesis
  proof (cases "g \<in> G")
    case True
    then have "prunable policy (w_store w) j" using victim_not_retained [OF inv row(1)] row(2) by (simp add: G_def)
    moreover have "journal_row_of s g = None" using True by (auto simp: s journal_row_of_def delete_publications_def find_None_iff)
    ultimately show ?thesis using step_prune(1) row(2) by (auto simp: row_kept_def prunable_def Let_def)
  next
    case False
    then show ?thesis using step_prune(1) row(2) j by (simp add: row_kept_def row_step_def s journal_row_of_delete)
  qed
next
  case (step_import s)
  then show ?thesis using row_kept_same [OF j] by (simp add: same_tables_def)
next
  case (step_retire k now plan u s)
  then show ?thesis using row_kept_retire [OF j] by (auto simp: begin_search_publication_retirement_def rbind_eq_Inr)
qed (auto simp: commit_search_publication_Ok
    intro: row_kept_begin [OF j] row_kept_commit [OF j] row_kept_register [OF j] keeps_register)

theorem journal_history_witness:
  "\<exists>j. journal_row_of (sample_next (\<lambda>_. [])) ''gen-1'' = Some j \<and> row_kept j (sample_abandoned (\<lambda>_. []))"
proof -
  have step: "pub_step (\<lambda>_. []) (sample_world (sample_next (\<lambda>_. []))) (sample_world (sample_abandoned (\<lambda>_. [])))"
    using pub_step.step_retire [of "\<lambda>_. []" _ _ _ "sample_world (sample_next (\<lambda>_. []))"] sample_retire_next by force
  have "journal_row_of (sample_next (\<lambda>_. [])) ''gen-1'' =
      Some \<lparr> jr_publication = sample_ready (\<lambda>_. []), jr_authority = sample_authority (\<lambda>_. []) \<rparr>"
    using sample_ready_row(1) [of "\<lambda>_. []"] by (simp add: sample_next_def journal_row_of_append)
  with journal_is_a_history [OF sample_next_run step, of "''gen-1''"] show ?thesis by simp
qed

end
