(* ===== verification/Health.thy ===== *)
theory Health
  imports Prelude
begin

text \<open>
  The health contract that the daemon and its native clients share
  (\<open>crates/daemon-contract/src/health.rs\<close>): core, optional runtimes and writer authority, the
  capability matrix derived from them, the typed core error, and the validation that every
  consumer runs.  Enums of the source share constructor names, so constructors are written
  with their type, as in \<open>core_state.Ready\<close> for \<open>CoreState::Ready\<close>.
\<close>

section \<open>Core\<close>

datatype status_state = Initializing | Migrating | Ok_status | Repairing | Degraded | Blocked

datatype core_state = Initializing | Migrating | Ready | Repairing | Degraded | Blocked

datatype core_reason =
    MetadataInitializing | MetadataMigrating | MigrationRebuild | ArtifactUnavailable
  | SourceUnavailable | RuntimeInvariant | UnsupportedStoreSchema | MetadataUnavailable

fun core_reason_label :: "core_reason \<Rightarrow> string" where
  "core_reason_label core_reason.MetadataInitializing = ''metadata_initializing''"
| "core_reason_label core_reason.MetadataMigrating = ''metadata_migrating''"
| "core_reason_label core_reason.MigrationRebuild = ''migration_rebuild''"
| "core_reason_label core_reason.ArtifactUnavailable = ''artifact_unavailable''"
| "core_reason_label core_reason.SourceUnavailable = ''source_unavailable''"
| "core_reason_label core_reason.RuntimeInvariant = ''runtime_invariant''"
| "core_reason_label core_reason.UnsupportedStoreSchema = ''unsupported_store_schema''"
| "core_reason_label core_reason.MetadataUnavailable = ''metadata_unavailable''"

record core_health =
  ch_state :: core_state
  ch_reason :: "core_reason option"

definition core_initializing :: core_health where
  "core_initializing = \<lparr> ch_state = core_state.Initializing, ch_reason = Some MetadataInitializing \<rparr>"

definition core_ready :: core_health where
  "core_ready = \<lparr> ch_state = core_state.Ready, ch_reason = None \<rparr>"

definition core_migrating :: core_health where
  "core_migrating = \<lparr> ch_state = core_state.Migrating, ch_reason = Some MetadataMigrating \<rparr>"

definition core_blocked :: "core_reason \<Rightarrow> core_health" where
  "core_blocked reason = \<lparr> ch_state = core_state.Blocked, ch_reason = Some reason \<rparr>"

definition core_status :: "core_health \<Rightarrow> status_state" where
  "core_status core =
     (case ch_state core of
        core_state.Initializing \<Rightarrow> status_state.Initializing
      | core_state.Migrating \<Rightarrow> status_state.Migrating
      | core_state.Ready \<Rightarrow> status_state.Ok_status
      | core_state.Repairing \<Rightarrow> status_state.Repairing
      | core_state.Degraded \<Rightarrow> status_state.Degraded
      | core_state.Blocked \<Rightarrow> status_state.Blocked)"

section \<open>Optional runtimes\<close>

datatype optional_runtime_state = Initializing | Available | Unavailable

datatype optional_runtime_reason = Missing | Invalid | StartFailed | NotConfigured

fun optional_runtime_reason_label :: "optional_runtime_reason \<Rightarrow> string" where
  "optional_runtime_reason_label Missing = ''missing''"
| "optional_runtime_reason_label Invalid = ''invalid''"
| "optional_runtime_reason_label optional_runtime_reason.StartFailed = ''start_failed''"
| "optional_runtime_reason_label NotConfigured = ''not_configured''"

record optional_runtime_health =
  or_state :: optional_runtime_state
  or_reason :: "optional_runtime_reason option"

definition runtime_initializing :: optional_runtime_health where
  "runtime_initializing = \<lparr> or_state = optional_runtime_state.Initializing, or_reason = None \<rparr>"

definition runtime_available :: optional_runtime_health where
  "runtime_available = \<lparr> or_state = optional_runtime_state.Available, or_reason = None \<rparr>"

definition runtime_unavailable :: "optional_runtime_reason \<Rightarrow> optional_runtime_health" where
  "runtime_unavailable reason =
     \<lparr> or_state = optional_runtime_state.Unavailable, or_reason = Some reason \<rparr>"

definition runtime_is_available :: "optional_runtime_health \<Rightarrow> bool" where
  "runtime_is_available r \<longleftrightarrow> or_state r = optional_runtime_state.Available"

record optional_runtime_matrix =
  rt_embedding :: optional_runtime_health
  rt_ocr :: optional_runtime_health
  rt_classifier :: optional_runtime_health
  rt_pdfium :: optional_runtime_health

definition runtimes_initializing :: optional_runtime_matrix where
  "runtimes_initializing =
     \<lparr> rt_embedding = runtime_initializing, rt_ocr = runtime_initializing,
       rt_classifier = runtime_initializing, rt_pdfium = runtime_initializing \<rparr>"

section \<open>Writer authority\<close>

datatype writer_state = Ready | Transitioning | Unavailable | Blocked

datatype writer_reason =
    TransitionInProgress | RuntimeUnavailable | UnsupportedTransition | PersistedStateInvalid
  | BlockedByRunningOwner

fun writer_reason_label :: "writer_reason \<Rightarrow> string" where
  "writer_reason_label writer_reason.TransitionInProgress = ''transition_in_progress''"
| "writer_reason_label writer_reason.RuntimeUnavailable = ''runtime_unavailable''"
| "writer_reason_label writer_reason.UnsupportedTransition = ''unsupported_transition''"
| "writer_reason_label writer_reason.PersistedStateInvalid = ''persisted_state_invalid''"
| "writer_reason_label writer_reason.BlockedByRunningOwner = ''blocked_by_running_owner''"

datatype writer_transition_phase =
  Observed | ClaimsFenced | WorkersQuiesced | TargetCommitted | WriterReady

record writer_health =
  wh_state :: writer_state
  wh_reason :: "writer_reason option"
  wh_transition_phase :: "writer_transition_phase option"
  wh_transition_id :: "string option"

definition writer_ready :: writer_health where
  "writer_ready = \<lparr> wh_state = writer_state.Ready, wh_reason = None, wh_transition_phase = None,
     wh_transition_id = None \<rparr>"

definition writer_transitioning :: "writer_transition_phase \<Rightarrow> writer_health" where
  "writer_transitioning phase = \<lparr> wh_state = writer_state.Transitioning,
     wh_reason = Some writer_reason.TransitionInProgress, wh_transition_phase = Some phase,
     wh_transition_id = None \<rparr>"

definition writer_transitioning_with_id :: "writer_transition_phase \<Rightarrow> string \<Rightarrow> writer_health" where
  "writer_transitioning_with_id phase i = \<lparr> wh_state = writer_state.Transitioning,
     wh_reason = Some writer_reason.TransitionInProgress, wh_transition_phase = Some phase,
     wh_transition_id = Some i \<rparr>"

definition writer_unavailable :: "writer_reason \<Rightarrow> writer_health" where
  "writer_unavailable reason = \<lparr> wh_state = writer_state.Unavailable, wh_reason = Some reason,
     wh_transition_phase = None, wh_transition_id = None \<rparr>"

definition writer_blocked :: "writer_reason \<Rightarrow> writer_health" where
  "writer_blocked reason = \<lparr> wh_state = writer_state.Blocked, wh_reason = Some reason,
     wh_transition_phase = None, wh_transition_id = None \<rparr>"

definition admits_public_writers :: "writer_health \<Rightarrow> bool" where
  "admits_public_writers w \<longleftrightarrow> wh_state w = writer_state.Ready"

section \<open>Capabilities\<close>

datatype capability_state = Initializing | Available | Degraded | Unavailable | Blocked

fun capability_state_label :: "capability_state \<Rightarrow> string" where
  "capability_state_label capability_state.Initializing = ''initializing''"
| "capability_state_label capability_state.Available = ''available''"
| "capability_state_label capability_state.Degraded = ''degraded''"
| "capability_state_label capability_state.Unavailable = ''unavailable''"
| "capability_state_label capability_state.Blocked = ''blocked''"

datatype capability_reason =
    CoreInitializing | CoreBlocked | EmbeddingUnavailable | OcrUnavailable
  | ClassifierUnavailable | PdfiumUnavailable | WriterUnavailable | WriterTransitioning

fun capability_reason_label :: "capability_reason \<Rightarrow> string" where
  "capability_reason_label CoreInitializing = ''core_initializing''"
| "capability_reason_label CoreBlocked = ''core_blocked''"
| "capability_reason_label EmbeddingUnavailable = ''embedding_unavailable''"
| "capability_reason_label OcrUnavailable = ''ocr_unavailable''"
| "capability_reason_label ClassifierUnavailable = ''classifier_unavailable''"
| "capability_reason_label PdfiumUnavailable = ''pdfium_unavailable''"
| "capability_reason_label WriterUnavailable = ''writer_unavailable''"
| "capability_reason_label WriterTransitioning = ''writer_transitioning''"

record capability_health =
  cap_state :: capability_state
  cap_reason :: "capability_reason option"

definition cap_available :: capability_health where
  "cap_available = \<lparr> cap_state = capability_state.Available, cap_reason = None \<rparr>"

definition cap_degraded :: "capability_reason \<Rightarrow> capability_health" where
  "cap_degraded reason = \<lparr> cap_state = capability_state.Degraded, cap_reason = Some reason \<rparr>"

definition cap_unavailable :: "capability_reason \<Rightarrow> capability_health" where
  "cap_unavailable reason = \<lparr> cap_state = capability_state.Unavailable, cap_reason = Some reason \<rparr>"

record capability_matrix =
  keyword_search :: capability_health
  detail :: capability_health
  semantic_search :: capability_health
  hybrid_search :: capability_health
  text_import :: capability_health
  pdf_import :: capability_health
  ocr_import :: capability_health
  index_publication :: capability_health

definition uniform :: "capability_state \<Rightarrow> capability_reason \<Rightarrow> capability_matrix" where
  "uniform state reason =
     (let health = \<lparr> cap_state = state, cap_reason = Some reason \<rparr>
      in \<lparr> keyword_search = health, detail = health, semantic_search = health,
           hybrid_search = health, text_import = health, pdf_import = health,
           ocr_import = health, index_publication = health \<rparr>)"

definition writer_gate :: "writer_health \<Rightarrow> capability_reason option" where
  "writer_gate writer =
     (case wh_state writer of
        writer_state.Ready \<Rightarrow> None
      | writer_state.Transitioning \<Rightarrow> Some WriterTransitioning
      | writer_state.Unavailable \<Rightarrow> Some WriterUnavailable
      | writer_state.Blocked \<Rightarrow> Some WriterUnavailable)"

definition gated_import :: "writer_health \<Rightarrow> capability_health \<Rightarrow> capability_health" where
  "gated_import writer available =
     (case writer_gate writer of
        None \<Rightarrow> available
      | Some reason \<Rightarrow> \<lparr> cap_state = capability_state.Blocked, cap_reason = Some reason \<rparr>)"

definition derive :: "core_health \<Rightarrow> optional_runtime_matrix \<Rightarrow> writer_health \<Rightarrow> capability_matrix" where
  "derive core runtimes writer =
     (if ch_state core \<in> {core_state.Initializing, core_state.Migrating, core_state.Repairing}
      then uniform capability_state.Initializing CoreInitializing
      else if ch_state core \<in> {core_state.Degraded, core_state.Blocked}
      then uniform capability_state.Blocked CoreBlocked
      else
        let embedding = runtime_is_available (rt_embedding runtimes);
            classifier = runtime_is_available (rt_classifier runtimes);
            ocr = runtime_is_available (rt_ocr runtimes);
            pdfium = runtime_is_available (rt_pdfium runtimes)
        in \<lparr> keyword_search = cap_available,
             detail = cap_available,
             semantic_search =
               (if embedding then cap_available else cap_unavailable EmbeddingUnavailable),
             hybrid_search =
               (if embedding then cap_available else cap_degraded EmbeddingUnavailable),
             text_import = gated_import writer
               (if \<not> classifier then cap_unavailable ClassifierUnavailable
                else if \<not> embedding then cap_unavailable EmbeddingUnavailable
                else cap_available),
             pdf_import = gated_import writer
               (if \<not> classifier then cap_unavailable ClassifierUnavailable
                else if \<not> embedding then cap_unavailable EmbeddingUnavailable
                else if \<not> pdfium then cap_unavailable PdfiumUnavailable
                else cap_available),
             ocr_import = gated_import writer
               (if \<not> classifier then cap_unavailable ClassifierUnavailable
                else if \<not> embedding then cap_unavailable EmbeddingUnavailable
                else if \<not> pdfium then cap_unavailable PdfiumUnavailable
                else if \<not> ocr then cap_unavailable OcrUnavailable
                else cap_available),
             index_publication = gated_import writer
               (if embedding then cap_available else cap_unavailable EmbeddingUnavailable) \<rparr>)"

section \<open>Errors and validation\<close>

datatype capability_name =
  KeywordSearch | Detail | SemanticSearch | HybridSearch | TextImport | PdfImport | OcrImport
| IndexPublication

datatype core_error_code = ServiceInitializing | ServiceBlocked

datatype core_error_action = WaitForService | Retry | RepairRequired

record core_error =
  ce_code :: core_error_code
  ce_action :: core_error_action
  ce_capability :: "capability_name option"
  ce_reason :: core_reason

definition error_for_core :: "core_health \<Rightarrow> core_error option" where
  "error_for_core core =
     (case ch_reason core of
        None \<Rightarrow> None
      | Some reason \<Rightarrow>
          let err = (\<lambda>code action. Some \<lparr> ce_code = code, ce_action = action,
                        ce_capability = None, ce_reason = reason \<rparr>)
          in case ch_state core of
               core_state.Initializing \<Rightarrow> err ServiceInitializing WaitForService
             | core_state.Migrating \<Rightarrow> err ServiceInitializing WaitForService
             | core_state.Repairing \<Rightarrow> err ServiceInitializing WaitForService
             | core_state.Degraded \<Rightarrow> err ServiceBlocked Retry
             | core_state.Blocked \<Rightarrow> err ServiceBlocked RepairRequired
             | core_state.Ready \<Rightarrow> None)"

datatype contract_violation = ContractViolation

definition valid_core :: "core_health \<Rightarrow> bool" where
  "valid_core core \<longleftrightarrow>
     (ch_state core, ch_reason core) \<in>
       {(core_state.Ready, None),
        (core_state.Initializing, Some core_reason.MetadataInitializing),
        (core_state.Migrating, Some core_reason.MetadataMigrating)} \<or>
     ch_state core = core_state.Repairing \<and>
       ch_reason core \<in> {Some core_reason.MigrationRebuild, Some core_reason.ArtifactUnavailable} \<or>
     ch_state core \<in> {core_state.Degraded, core_state.Blocked} \<and>
       ch_reason core \<in> {Some core_reason.ArtifactUnavailable, Some core_reason.SourceUnavailable,
         Some core_reason.RuntimeInvariant, Some core_reason.UnsupportedStoreSchema,
         Some core_reason.MetadataUnavailable}"

definition valid_runtime :: "optional_runtime_health \<Rightarrow> bool" where
  "valid_runtime r \<longleftrightarrow>
     or_state r \<in> {optional_runtime_state.Initializing, optional_runtime_state.Available} \<and>
       or_reason r = None \<or>
     or_state r = optional_runtime_state.Unavailable \<and> or_reason r \<noteq> None"

definition valid_writer :: "writer_health \<Rightarrow> bool" where
  "valid_writer w \<longleftrightarrow>
     wh_state w = writer_state.Ready \<and> wh_reason w = None \<or>
     wh_state w = writer_state.Transitioning \<and>
       wh_reason w \<in> {Some writer_reason.TransitionInProgress, Some writer_reason.BlockedByRunningOwner} \<or>
     wh_state w \<in> {writer_state.Unavailable, writer_state.Blocked} \<and>
       wh_reason w \<in> {Some writer_reason.RuntimeUnavailable, Some writer_reason.UnsupportedTransition,
         Some writer_reason.PersistedStateInvalid, Some writer_reason.BlockedByRunningOwner,
         Some writer_reason.TransitionInProgress}"

definition validate_health_contract ::
  "status_state \<Rightarrow> core_health \<Rightarrow> optional_runtime_matrix \<Rightarrow> writer_health \<Rightarrow> capability_matrix
   \<Rightarrow> core_error option \<Rightarrow> (contract_violation, unit) result" where
  "validate_health_contract status core runtimes writer capabilities err =
     (if status \<noteq> core_status core \<or> \<not> valid_core core \<or> \<not> valid_writer writer
         \<or> \<not> list_all valid_runtime [rt_embedding runtimes, rt_ocr runtimes, rt_classifier runtimes,
               rt_pdfium runtimes]
         \<or> capabilities \<noteq> derive core runtimes writer
         \<or> err \<noteq> error_for_core core
      then Err ContractViolation else Ok ())"

section \<open>Properties\<close>

lemma derive_core_states:
  obtains "ch_state core \<in> {core_state.Initializing, core_state.Migrating, core_state.Repairing}"
      "\<And>rt w. derive core rt w = uniform capability_state.Initializing CoreInitializing"
  | "ch_state core \<in> {core_state.Degraded, core_state.Blocked}"
      "\<And>rt w. derive core rt w = uniform capability_state.Blocked CoreBlocked"
  | "ch_state core = core_state.Ready"
  by (cases "ch_state core") (auto simp: derive_def)

definition is_available :: "capability_health \<Rightarrow> bool" where
  "is_available c \<longleftrightarrow> cap_state c = capability_state.Available"

definition all_capabilities :: "capability_matrix \<Rightarrow> capability_health list" where
  "all_capabilities m = [keyword_search m, detail m, semantic_search m, hybrid_search m,
     text_import m, pdf_import m, ocr_import m, index_publication m]"

lemma is_available_simps [simp]:
  "is_available cap_available" "\<not> is_available (cap_unavailable r)" "\<not> is_available (cap_degraded r)"
  "is_available (gated_import w c) \<longleftrightarrow> admits_public_writers w \<and> is_available c"
  by (auto simp: is_available_def cap_available_def cap_unavailable_def cap_degraded_def
      gated_import_def writer_gate_def admits_public_writers_def split: writer_state.split)

lemma uniform_simps [simp]:
  "keyword_search (uniform s r) = \<lparr> cap_state = s, cap_reason = Some r \<rparr>"
  "detail (uniform s r) = \<lparr> cap_state = s, cap_reason = Some r \<rparr>"
  "semantic_search (uniform s r) = \<lparr> cap_state = s, cap_reason = Some r \<rparr>"
  "hybrid_search (uniform s r) = \<lparr> cap_state = s, cap_reason = Some r \<rparr>"
  "text_import (uniform s r) = \<lparr> cap_state = s, cap_reason = Some r \<rparr>"
  "pdf_import (uniform s r) = \<lparr> cap_state = s, cap_reason = Some r \<rparr>"
  "ocr_import (uniform s r) = \<lparr> cap_state = s, cap_reason = Some r \<rparr>"
  "index_publication (uniform s r) = \<lparr> cap_state = s, cap_reason = Some r \<rparr>"
  by (simp_all add: uniform_def Let_def)

text \<open>
  What each capability needs: with the derived matrix, keyword search and detail are
  available exactly when the core is ready; semantic and hybrid search also need the
  embedding runtime; every import and index publication needs in addition that the writer
  admits public writers, text import the classifier, PDF import also pdfium, and OCR import
  also the OCR runtime.  Writer health never affects a search capability.
\<close>

theorem capability_requirements:
  "let m = derive core runtimes writer;
       ready = (ch_state core = core_state.Ready);
       embedding = runtime_is_available (rt_embedding runtimes);
       classifier = runtime_is_available (rt_classifier runtimes);
       pdfium = runtime_is_available (rt_pdfium runtimes);
       ocr = runtime_is_available (rt_ocr runtimes);
       admitted = admits_public_writers writer
   in (is_available (keyword_search m) \<longleftrightarrow> ready) \<and>
    (is_available (detail m) \<longleftrightarrow> ready) \<and>
    (is_available (semantic_search m) \<longleftrightarrow> ready \<and> embedding) \<and>
    (is_available (hybrid_search m) \<longleftrightarrow> ready \<and> embedding) \<and>
    (is_available (text_import m) \<longleftrightarrow> ready \<and> admitted \<and> classifier \<and> embedding) \<and>
    (is_available (pdf_import m) \<longleftrightarrow> ready \<and> admitted \<and> classifier \<and> embedding \<and> pdfium) \<and>
    (is_available (ocr_import m) \<longleftrightarrow> ready \<and> admitted \<and> classifier \<and> embedding \<and> pdfium \<and> ocr) \<and>
    (is_available (index_publication m) \<longleftrightarrow> ready \<and> admitted \<and> embedding)"
proof (cases rule: derive_core_states [of core])
  case 3
  then show ?thesis by (simp add: derive_def Let_def)
qed (auto simp: Let_def is_available_def)

text \<open>
  A capability carries a reason exactly when it is not available, so a client never shows
  an unavailable operation without its cause nor a cause for an available one.
\<close>

theorem capability_reason_iff_not_available:
  "list_all (\<lambda>c. cap_reason c = None \<longleftrightarrow> is_available c)
     (all_capabilities (derive core runtimes writer))"
proof (cases rule: derive_core_states [of core])
  case 3
  then show ?thesis
    by (simp add: all_capabilities_def derive_def Let_def is_available_def cap_available_def
        cap_unavailable_def cap_degraded_def gated_import_def split: option.split)
qed (auto simp: all_capabilities_def is_available_def)

lemma validate_health_contract_Ok:
  "validate_health_contract st core rt w caps err = Ok () \<longleftrightarrow>
     st = core_status core \<and> valid_core core \<and> valid_writer w \<and>
     list_all valid_runtime [rt_embedding rt, rt_ocr rt, rt_classifier rt, rt_pdfium rt] \<and>
     caps = derive core rt w \<and> err = error_for_core core"
  by (simp add: validate_health_contract_def)

text \<open>
  A validated health document is coherent: the status is ok exactly when there is no core
  error, exactly when keyword search is available; and the status, the capability matrix and
  the error are determined by core, runtimes and writer, so two validated documents that agree
  on these three are equal.
\<close>

theorem validated_health_is_coherent:
  assumes "validate_health_contract st core rt w caps err = Ok ()"
    and "validate_health_contract st' core rt w caps' err' = Ok ()"
  shows "(st = status_state.Ok_status \<longleftrightarrow> err = None) \<and>
    (err = None \<longleftrightarrow> is_available (keyword_search caps)) \<and>
    st' = st \<and> caps' = caps \<and> err' = err"
proof -
  have eq: "st = core_status core" "valid_core core" "caps = derive core rt w" "err = error_for_core core"
    "st' = st" "caps' = caps" "err' = err"
    using assms by (auto simp: validate_health_contract_Ok)
  have "is_available (keyword_search caps) \<longleftrightarrow> ch_state core = core_state.Ready"
    unfolding eq(3) by (cases rule: derive_core_states [of core])
      (auto simp: derive_def Let_def is_available_def cap_available_def)
  moreover have "err = None \<longleftrightarrow> ch_state core = core_state.Ready"
    using eq(2,4) by (auto simp: valid_core_def error_for_core_def Let_def split: core_state.split)
  moreover have "st = status_state.Ok_status \<longleftrightarrow> ch_state core = core_state.Ready"
    using eq(1) by (simp add: core_status_def split: core_state.split)
  ultimately show ?thesis using eq by simp
qed

theorem validated_health_witness:
  "validate_health_contract status_state.Ok_status core_ready runtimes_initializing writer_ready
     (derive core_ready runtimes_initializing writer_ready) None = Ok () \<and>
   is_available (keyword_search (derive core_ready runtimes_initializing writer_ready))"
proof -
  have "validate_health_contract status_state.Ok_status core_ready runtimes_initializing writer_ready
     (derive core_ready runtimes_initializing writer_ready) None = Ok ()"
    by (simp add: validate_health_contract_Ok core_status_def core_ready_def valid_core_def
        valid_writer_def writer_ready_def runtimes_initializing_def runtime_initializing_def
        valid_runtime_def error_for_core_def)
  with validated_health_is_coherent [OF this this] show ?thesis by simp
qed

end
