(* ===== verification/WriterTransition.thy ===== *)
theory WriterTransition
  imports Health RustText "HOL-Library.List_Lexorder" "HOL-Library.Char_ord"
begin

text \<open>
  The durable writer-contract transition
  (\<open>crates/meta-store/src/writer_transition_store.rs\<close>, \<open>processing_contract_transition.rs\<close>,
  \<open>contract_delta.rs\<close>), its projection into writer health
  (\<open>crates/daemon/src/ipc/writer_health.rs\<close>) and the coordinator of the daemon
  (\<open>crates/daemon/src/upgrade_coordinator.rs\<close>).  The tables that the transaction touches are
  lists of records and a single authority row; one definition per SQL helper.  A statement
  fails only on a primary key; the other constraints of the schema are proved to hold.  A
  transaction that returns an error, or an outcome that the caller does not commit, leaves the
  store as it was.  Content digests and stable task ids are computed by parameters.
\<close>

section \<open>Contracts and their delta\<close>

record processing_contract =
  pc_id :: string
  pc_primary_parse_version :: string
  pc_ocr_parse_version :: string
  pc_derived_schema_version :: string
  pc_classifier_epoch :: string

datatype contract_delta_kind =
  NoneKind | PrimaryParser | OcrParser | DerivedSchema | ClassifierEpoch | Multiple | Unknown

datatype contract_transition_strategy =
    AlreadyActiveStrategy | PdfRootRescan | OcrRequeue | ClassifierReclassify | DerivedRebuild
  | Unsupported

record contract_delta =
  cd_kind :: contract_delta_kind
  cd_strategy :: contract_transition_strategy
  cd_primary_changed :: bool
  cd_ocr_changed :: bool
  cd_derived_changed :: bool
  cd_classifier_changed :: bool

definition delta_between :: "processing_contract option \<Rightarrow> processing_contract \<Rightarrow> contract_delta" where
  "delta_between committed desired =
     (case committed of
        None \<Rightarrow>
          \<lparr> cd_kind = Unknown, cd_strategy = Unsupported, cd_primary_changed = True,
            cd_ocr_changed = True, cd_derived_changed = True, cd_classifier_changed = True \<rparr>
      | Some c \<Rightarrow>
          if pc_id c = pc_id desired then
            \<lparr> cd_kind = NoneKind, cd_strategy = AlreadyActiveStrategy, cd_primary_changed = False,
              cd_ocr_changed = False, cd_derived_changed = False, cd_classifier_changed = False \<rparr>
          else
            let primary = (pc_primary_parse_version c \<noteq> pc_primary_parse_version desired);
                ocr = (pc_ocr_parse_version c \<noteq> pc_ocr_parse_version desired);
                derived = (pc_derived_schema_version c \<noteq> pc_derived_schema_version desired);
                classifier = (pc_classifier_epoch c \<noteq> pc_classifier_epoch desired);
                changed = length (filter id [primary, ocr, derived, classifier]);
                mk = (\<lambda>kind strategy.
                  \<lparr> cd_kind = kind, cd_strategy = strategy, cd_primary_changed = primary,
                    cd_ocr_changed = ocr, cd_derived_changed = derived,
                    cd_classifier_changed = classifier \<rparr>)
            in if changed = 0 then mk Unknown Unsupported
               else if changed > 1 then mk Multiple Unsupported
               else if primary then mk PrimaryParser PdfRootRescan
               else mk (if ocr then OcrParser else if classifier then ClassifierEpoch else DerivedSchema)
                      Unsupported)"

datatype transition_outcome =
    AlreadyActive | TargetCommitted | TransitionRequired | TransitionInProgress
  | BlockedByRunningOwner | PersistedStateInvalid | UnsupportedTransition | RuntimeUnavailable

datatype store_phase = Observed | ClaimsFenced | WorkersQuiesced | TargetCommitted | WriterReady

fun store_phase_as_str :: "store_phase \<Rightarrow> string" where
  "store_phase_as_str store_phase.Observed = ''observed''"
| "store_phase_as_str store_phase.ClaimsFenced = ''claims_fenced''"
| "store_phase_as_str store_phase.WorkersQuiesced = ''workers_quiesced''"
| "store_phase_as_str store_phase.TargetCommitted = ''target_committed''"
| "store_phase_as_str store_phase.WriterReady = ''writer_ready''"

definition store_phase_parse :: "string \<Rightarrow> store_phase option" where
  "store_phase_parse v =
     (if v = ''observed'' then Some store_phase.Observed
      else if v = ''claims_fenced'' then Some store_phase.ClaimsFenced
      else if v = ''workers_quiesced'' then Some store_phase.WorkersQuiesced
      else if v = ''target_committed'' then Some store_phase.TargetCommitted
      else if v = ''writer_ready'' then Some store_phase.WriterReady
      else None)"

datatype authority_health = Ready | Transitioning | Unavailable | Blocked

fun authority_health_as_str :: "authority_health \<Rightarrow> string" where
  "authority_health_as_str authority_health.Ready = ''ready''"
| "authority_health_as_str authority_health.Transitioning = ''transitioning''"
| "authority_health_as_str authority_health.Unavailable = ''unavailable''"
| "authority_health_as_str authority_health.Blocked = ''blocked''"

definition authority_health_parse :: "string \<Rightarrow> authority_health option" where
  "authority_health_parse v =
     (if v = ''ready'' then Some authority_health.Ready
      else if v = ''transitioning'' then Some authority_health.Transitioning
      else if v = ''unavailable'' then Some authority_health.Unavailable
      else if v = ''blocked'' then Some authority_health.Blocked
      else None)"

definition observe_writer_contract_transition ::
  "processing_contract option \<Rightarrow> processing_contract \<Rightarrow> nat \<Rightarrow> contract_delta \<times> transition_outcome" where
  "observe_writer_contract_transition committed desired running =
     (let delta = delta_between committed desired
      in if cd_strategy delta = AlreadyActiveStrategy then (delta, transition_outcome.AlreadyActive)
         else if cd_strategy delta = Unsupported then (delta, transition_outcome.UnsupportedTransition)
         else if running > 0 then (delta, transition_outcome.BlockedByRunningOwner)
         else (delta, transition_outcome.TransitionRequired))"

fun campaign_domain_for :: "contract_transition_strategy \<Rightarrow> string option" where
  "campaign_domain_for AlreadyActiveStrategy = None"
| "campaign_domain_for PdfRootRescan = Some ''pdf_root_rescan''"
| "campaign_domain_for OcrRequeue = Some ''ocr_requeue''"
| "campaign_domain_for ClassifierReclassify = Some ''classifier_reclassify''"
| "campaign_domain_for DerivedRebuild = Some ''derived_rebuild''"
| "campaign_domain_for Unsupported = Some ''unsupported''"

section \<open>Tables\<close>

record authority_row =
  au_health_state :: authority_health
  au_health_reason :: "string option"
  au_transition_phase :: "store_phase option"
  au_active_transition_id :: "string option"
  au_last_completed_transition_id :: "string option"
  au_claim_fence_epoch :: nat
  au_committed_contract_id :: "string option"
  au_desired_contract_id :: "string option"
  au_updated_at :: int

record transition_row =
  tr_id :: string
  tr_source_contract_id :: "string option"
  tr_target_contract_id :: string
  tr_product_version :: string
  tr_schema_version :: nat
  tr_source_generation :: "string option"
  tr_source_visible_epoch :: int
  tr_phase :: store_phase
  tr_attempt :: nat
  tr_claim_fence_epoch :: nat
  tr_running_task_count :: nat
  tr_queued_task_count :: nat
  tr_failure_class :: "string option"
  tr_retryable :: bool
  tr_campaign_id :: "string option"
  tr_created_at :: int
  tr_updated_at :: int
  tr_completed_at :: "int option"

datatype import_task_status = Queued | Running | Completed | FailedRetryable | FailedPermanent

record task_row =
  tk_id :: string
  tk_root_path :: string
  tk_status :: import_task_status
  tk_queued_at :: int
  tk_updated_at :: int
  tk_contract_id :: string \<comment> \<open>\<open>import_task_contract_binding\<close>\<close>
  tk_cancelled_at :: "int option" \<comment> \<open>\<open>import_task_cancellation\<close>\<close>

record campaign_row =
  cm_id :: string
  cm_transition_id :: string
  cm_target_contract_id :: string
  cm_affected_domain :: string
  cm_state :: string
  cm_created_at :: int

datatype pdf_job_state = PdfQueued | PdfScheduled | PdfComplete | PdfCancelled

record pdf_job_row =
  pj_source_revision_id :: string
  pj_state :: pdf_job_state
  pj_scheduled_task_id :: "string option"
  pj_contract_id :: "string option"
  pj_campaign_id :: "string option"
  pj_updated_at :: int

record writer_store =
  st_authority :: authority_row
  st_transitions :: "transition_row list"
  st_contracts :: "processing_contract list"
  st_legacy_active :: "string option" \<comment> \<open>\<open>migration_rebuild_contract_state\<close>\<close>
  st_service_state :: string
  st_generation :: "string option"
  st_visible_epoch :: int
  st_authorized_roots :: "string list"
  st_tasks :: "task_row list"
  st_campaigns :: "campaign_row list"
  st_pdf_jobs :: "pdf_job_row list"

text \<open>What the code calls for identities: the content digest of bytes, and a stable task id.\<close>

record id_functions =
  digest_of :: "nat list \<Rightarrow> string"
  task_id_of :: "string list \<Rightarrow> string"

datatype store_error = ImmutableIdentityConflict | InvalidTransition | StorageError

definition new_digest_id :: "id_functions \<Rightarrow> nat list list \<Rightarrow> string" where
  "new_digest_id ids parts = digest_of ids (concat (map (\<lambda>part. part @ [0]) parts))"

section \<open>Single statements\<close>

definition on_authority :: "(authority_row \<Rightarrow> authority_row) \<Rightarrow> writer_store \<Rightarrow> writer_store" where
  "on_authority f st = st\<lparr> st_authority := f (st_authority st) \<rparr>"

definition on_transition :: "string \<Rightarrow> (transition_row \<Rightarrow> transition_row) \<Rightarrow> writer_store \<Rightarrow> writer_store" where
  "on_transition i f st =
     st\<lparr> st_transitions := map (\<lambda>r. if tr_id r = i then f r else r) (st_transitions st) \<rparr>"

definition mark_writer_runtime_unavailable :: "int \<Rightarrow> writer_store \<Rightarrow> writer_store" where
  "mark_writer_runtime_unavailable now = on_authority (\<lambda>a. a\<lparr>
     au_health_state := authority_health.Unavailable, au_health_reason := Some ''runtime_unavailable'',
     au_updated_at := max (au_updated_at a) now \<rparr>)"

definition resumed_health :: "authority_row \<Rightarrow> int \<Rightarrow> authority_row" where
  "resumed_health a now = a\<lparr>
     au_health_state := (if au_active_transition_id a \<noteq> None then authority_health.Transitioning
                         else authority_health.Ready),
     au_health_reason := (if au_active_transition_id a \<noteq> None then Some ''transition_in_progress'' else None),
     au_updated_at := max (au_updated_at a) now \<rparr>"

definition reconcile_writer_runtime_availability :: "bool \<Rightarrow> int \<Rightarrow> writer_store \<Rightarrow> writer_store \<times> bool" where
  "reconcile_writer_runtime_availability healthy now st =
     (let a = st_authority st
      in if healthy \<and> au_health_state a = authority_health.Unavailable \<and>
            au_health_reason a = Some ''runtime_unavailable''
         then (on_authority (\<lambda>a. resumed_health a now) st, True)
         else (st, False))"

definition mark_writer_unsupported_transition :: "int \<Rightarrow> writer_store \<Rightarrow> writer_store \<times> bool" where
  "mark_writer_unsupported_transition now st =
     (let a = st_authority st
      in if au_health_state a = authority_health.Ready \<and> au_health_reason a = None \<and>
            au_active_transition_id a = None
         then (on_authority (\<lambda>a. a\<lparr> au_health_state := authority_health.Unavailable,
                 au_health_reason := Some ''unsupported_transition'',
                 au_updated_at := max (au_updated_at a) now \<rparr>) st, True)
         else (st, False))"

definition clear_writer_unsupported_transition :: "int \<Rightarrow> writer_store \<Rightarrow> writer_store \<times> bool" where
  "clear_writer_unsupported_transition now st =
     (let a = st_authority st
      in if au_health_state a = authority_health.Unavailable \<and>
            au_health_reason a = Some ''unsupported_transition'' \<and> au_active_transition_id a = None
         then (on_authority (\<lambda>a. a\<lparr> au_health_state := authority_health.Ready,
                 au_health_reason := None, au_updated_at := max (au_updated_at a) now \<rparr>) st, True)
         else (st, False))"

definition mark_writer_blocked_by_running_owner :: "int \<Rightarrow> writer_store \<Rightarrow> writer_store" where
  "mark_writer_blocked_by_running_owner now = on_authority (\<lambda>a. a\<lparr>
     au_health_state := authority_health.Blocked, au_health_reason := Some ''blocked_by_running_owner'',
     au_updated_at := max (au_updated_at a) now \<rparr>)"

definition clear_writer_blocked_by_running_owner :: "int \<Rightarrow> writer_store \<Rightarrow> writer_store \<times> bool" where
  "clear_writer_blocked_by_running_owner now st =
     (let a = st_authority st
      in if au_health_state a = authority_health.Blocked \<and>
            au_health_reason a = Some ''blocked_by_running_owner''
         then (on_authority (\<lambda>a. resumed_health a now) st, True)
         else (st, False))"

definition public_writer_claims_admitted :: "writer_store \<Rightarrow> bool" where
  "public_writer_claims_admitted st \<longleftrightarrow> au_health_state (st_authority st) = authority_health.Ready"

definition set_phase :: "string \<Rightarrow> store_phase \<Rightarrow> int \<Rightarrow> writer_store \<Rightarrow> writer_store" where
  "set_phase i phase now = on_transition i (\<lambda>r. r\<lparr> tr_phase := phase, tr_updated_at := now \<rparr>)"

definition set_authority_phase :: "store_phase \<Rightarrow> int \<Rightarrow> writer_store \<Rightarrow> writer_store" where
  "set_authority_phase phase now =
     on_authority (\<lambda>a. a\<lparr> au_transition_phase := Some phase, au_updated_at := now \<rparr>)"

definition set_authority_transitioning ::
  "string \<Rightarrow> store_phase \<Rightarrow> nat \<Rightarrow> string option \<Rightarrow> string \<Rightarrow> int \<Rightarrow> writer_store \<Rightarrow> writer_store" where
  "set_authority_transitioning i phase epoch committed desired now = on_authority (\<lambda>a. a\<lparr>
     au_health_state := authority_health.Transitioning, au_health_reason := Some ''transition_in_progress'',
     au_transition_phase := Some phase, au_active_transition_id := Some i,
     au_claim_fence_epoch := epoch,
     au_committed_contract_id := (case committed of None \<Rightarrow> au_committed_contract_id a | Some c \<Rightarrow> Some c),
     au_desired_contract_id := Some desired, au_updated_at := now \<rparr>)"

definition set_authority_ready_after_transition :: "string \<Rightarrow> string \<Rightarrow> int \<Rightarrow> writer_store \<Rightarrow> writer_store" where
  "set_authority_ready_after_transition contract completed now = on_authority (\<lambda>a. a\<lparr>
     au_health_state := authority_health.Ready, au_health_reason := None,
     au_transition_phase := Some store_phase.WriterReady, au_active_transition_id := None,
     au_last_completed_transition_id := Some completed, au_committed_contract_id := Some contract,
     au_desired_contract_id := Some contract, au_updated_at := now \<rparr>)"

definition sync_authority_ready :: "string \<Rightarrow> int \<Rightarrow> writer_store \<Rightarrow> writer_store" where
  "sync_authority_ready contract now = on_authority (\<lambda>a. a\<lparr>
     au_health_state := authority_health.Ready, au_health_reason := None,
     au_transition_phase := (case au_transition_phase a of None \<Rightarrow> Some store_phase.WriterReady | p \<Rightarrow> p),
     au_active_transition_id := None, au_committed_contract_id := Some contract,
     au_desired_contract_id := Some contract, au_updated_at := max (au_updated_at a) now \<rparr>)"

definition mark_transition_failure :: "string \<Rightarrow> string \<Rightarrow> bool \<Rightarrow> int \<Rightarrow> writer_store \<Rightarrow> writer_store" where
  "mark_transition_failure i failure retryable now =
     on_transition i (\<lambda>r. r\<lparr> tr_failure_class := Some failure, tr_retryable := retryable,
       tr_updated_at := now \<rparr>)"

definition running_count :: "writer_store \<Rightarrow> nat" where
  "running_count st = length (filter (\<lambda>t. tk_status t = import_task_status.Running) (st_tasks st))"

definition is_pending :: "task_row \<Rightarrow> bool" where
  "is_pending t \<longleftrightarrow> tk_status t \<in> {import_task_status.Queued, import_task_status.FailedRetryable}"

definition queued_count :: "writer_store \<Rightarrow> nat" where
  "queued_count st = length (filter is_pending (st_tasks st))"

definition next_claim_fence_epoch :: "writer_store \<Rightarrow> nat" where
  "next_claim_fence_epoch st = sat_add64 (au_claim_fence_epoch (st_authority st)) 1"

definition contract_in_store :: "writer_store \<Rightarrow> string \<Rightarrow> processing_contract option" where
  "contract_in_store st i = find (\<lambda>c. pc_id c = i) (st_contracts st)"

definition insert_import_processing_contract ::
  "processing_contract \<Rightarrow> writer_store \<Rightarrow> (store_error, writer_store) result" where
  "insert_import_processing_contract c st =
     (case contract_in_store st (pc_id c) of
        None \<Rightarrow> Ok (st\<lparr> st_contracts := st_contracts st @ [c] \<rparr>)
      | Some stored \<Rightarrow> if stored = c then Ok st else Err ImmutableIdentityConflict)"

definition active_contract :: "writer_store \<Rightarrow> processing_contract option" where
  "active_contract st =
     (case (case au_committed_contract_id (st_authority st) of
              None \<Rightarrow> st_legacy_active st | Some c \<Rightarrow> Some c) of
        None \<Rightarrow> None
      | Some i \<Rightarrow> contract_in_store st i)"

definition projection_is_ready_with_generation :: "writer_store \<Rightarrow> bool" where
  "projection_is_ready_with_generation st \<longleftrightarrow> st_service_state st = ''ready'' \<and> st_generation st \<noteq> None"

definition active_transition_row :: "writer_store \<Rightarrow> transition_row option" where
  "active_transition_row st =
     (case au_active_transition_id (st_authority st) of
        None \<Rightarrow> None
      | Some i \<Rightarrow> find (\<lambda>r. tr_id r = i) (st_transitions st))"

definition insert_transition :: "transition_row \<Rightarrow> writer_store \<Rightarrow> (store_error, writer_store) result" where
  "insert_transition r st =
     (if find (\<lambda>x. tr_id x = tr_id r) (st_transitions st) = None
      then Ok (st\<lparr> st_transitions := st_transitions st @ [r] \<rparr>) else Err StorageError)"

definition insert_task :: "task_row \<Rightarrow> writer_store \<Rightarrow> (store_error, writer_store) result" where
  "insert_task t st =
     (if find (\<lambda>x. tk_id x = tk_id t) (st_tasks st) = None
      then Ok (st\<lparr> st_tasks := st_tasks st @ [t] \<rparr>) else Err StorageError)"

section \<open>Retiring and rebuilding queued work\<close>

definition stale_intent :: "string \<Rightarrow> task_row \<Rightarrow> bool" where
  "stale_intent contract t \<longleftrightarrow> is_pending t \<and> tk_contract_id t \<noteq> contract \<and> tk_cancelled_at t = None"

text \<open>The replacements are kept in a \<open>BTreeMap\<close>: one per root, in the order of the paths.\<close>

definition replacement_roots :: "string \<Rightarrow> writer_store \<Rightarrow> string list" where
  "replacement_roots contract st =
     remdups (sort (map tk_root_path (filter (stale_intent contract) (st_tasks st))))"

definition replacement_task :: "id_functions \<Rightarrow> processing_contract \<Rightarrow> int \<Rightarrow> string \<Rightarrow> task_row" where
  "replacement_task ids desired now root =
     \<lparr> tk_id = task_id_of ids [''writer-contract-rebuild'', root, pc_id desired, decimal now],
       tk_root_path = root, tk_status = import_task_status.Queued, tk_queued_at = now,
       tk_updated_at = now, tk_contract_id = pc_id desired, tk_cancelled_at = None \<rparr>"

definition retire_task :: "string \<Rightarrow> int \<Rightarrow> task_row \<Rightarrow> task_row" where
  "retire_task contract now t =
     (if stale_intent contract t
      then t\<lparr> tk_cancelled_at := Some (max now (tk_updated_at t)),
              tk_updated_at := max (tk_updated_at t) (max now (tk_updated_at t)) \<rparr>
      else t)"

definition requeue_pdf_job :: "string list \<Rightarrow> string \<Rightarrow> int \<Rightarrow> pdf_job_row \<Rightarrow> pdf_job_row" where
  "requeue_pdf_job retired contract now j =
     (case pj_scheduled_task_id j of
        None \<Rightarrow> j
      | Some t \<Rightarrow>
          if pj_state j = PdfScheduled \<and> t \<in> set retired
          then j\<lparr> pj_state := PdfQueued, pj_scheduled_task_id := None, pj_contract_id := Some contract,
                  pj_updated_at := max (pj_updated_at j) now \<rparr>
          else j)"

fun insert_tasks :: "task_row list \<Rightarrow> writer_store \<Rightarrow> (store_error, writer_store) result" where
  "insert_tasks [] st = Ok st"
| "insert_tasks (t # ts) st = rbind (insert_task t st) (insert_tasks ts)"

definition retire_and_rebuild_queued_intents ::
  "id_functions \<Rightarrow> processing_contract \<Rightarrow> int \<Rightarrow> writer_store \<Rightarrow> (store_error, writer_store) result" where
  "retire_and_rebuild_queued_intents ids desired now st =
     (let roots = replacement_roots (pc_id desired) st;
          retired = map tk_id (filter (stale_intent (pc_id desired)) (st_tasks st))
      in if list_all (\<lambda>r. r \<in> set (st_authorized_roots st)) roots
         then insert_tasks (map (replacement_task ids desired now) roots)
                (st\<lparr> st_tasks := map (retire_task (pc_id desired) now) (st_tasks st),
                     st_pdf_jobs := map (requeue_pdf_job retired (pc_id desired) now) (st_pdf_jobs st) \<rparr>)
         else Err InvalidTransition)"

section \<open>The transaction\<close>

definition fence_claims :: "transition_row \<Rightarrow> int \<Rightarrow> writer_store \<Rightarrow> writer_store" where
  "fence_claims row now st =
     on_authority (\<lambda>a. a\<lparr> au_health_state := authority_health.Transitioning,
        au_health_reason := Some ''transition_in_progress'',
        au_transition_phase := Some store_phase.ClaimsFenced,
        au_active_transition_id := Some (tr_id row), au_claim_fence_epoch := tr_claim_fence_epoch row,
        au_updated_at := now \<rparr>)
      (set_phase (tr_id row) store_phase.ClaimsFenced now st)"

definition commit_target_contract ::
  "id_functions \<Rightarrow> transition_row \<Rightarrow> processing_contract \<Rightarrow> int \<Rightarrow> writer_store
   \<Rightarrow> (store_error, writer_store) result" where
  "commit_target_contract ids row desired now st =
     (if running_count st > 0 then Err InvalidTransition
      else rbind (retire_and_rebuild_queued_intents ids desired now st) (\<lambda>st.
        Ok (on_authority (\<lambda>a. a\<lparr> au_health_state := authority_health.Transitioning,
              au_health_reason := Some ''transition_in_progress'',
              au_transition_phase := Some store_phase.TargetCommitted,
              au_committed_contract_id := Some (pc_id desired),
              au_desired_contract_id := Some (pc_id desired), au_updated_at := now \<rparr>)
            (set_phase (tr_id row) store_phase.TargetCommitted now
              (st\<lparr> st_legacy_active := Some (pc_id desired) \<rparr>)))))"

definition materialize_campaign ::
  "id_functions \<Rightarrow> transition_row \<Rightarrow> contract_transition_strategy \<Rightarrow> processing_contract \<Rightarrow> int
   \<Rightarrow> writer_store \<Rightarrow> writer_store" where
  "materialize_campaign ids row strategy desired now st =
     (case campaign_domain_for strategy of
        None \<Rightarrow> st
      | Some domain \<Rightarrow>
          if domain = ''unsupported'' then st
          else
            let campaign_id = new_digest_id ids
                  [lit ''reprocessing-campaign'', lit (tr_id row), lit domain];
                st = (if find (\<lambda>c. cm_id c = campaign_id) (st_campaigns st) = None
                      then st\<lparr> st_campaigns := st_campaigns st @
                             [\<lparr> cm_id = campaign_id, cm_transition_id = tr_id row,
                                cm_target_contract_id = pc_id desired, cm_affected_domain = domain,
                                cm_state = ''queued'', cm_created_at = now \<rparr>] \<rparr>
                      else st);
                st = on_transition (tr_id row)
                       (\<lambda>r. r\<lparr> tr_campaign_id := Some campaign_id, tr_updated_at := now \<rparr>) st
            in if strategy \<in> {PdfRootRescan, DerivedRebuild}
               then st\<lparr> st_pdf_jobs := map (\<lambda>j.
                        if pj_state j \<in> {PdfQueued, PdfScheduled}
                        then j\<lparr> pj_contract_id := Some (pc_id desired), pj_campaign_id := Some campaign_id,
                                pj_updated_at := max (pj_updated_at j) now \<rparr>
                        else j) (st_pdf_jobs st) \<rparr>
               else st)"

text \<open>\<open>advance_existing_transition\<close>, one step per phase; each step falls into the next.\<close>

definition advance_target_committed ::
  "id_functions \<Rightarrow> transition_row \<Rightarrow> contract_delta \<Rightarrow> processing_contract \<Rightarrow> int \<Rightarrow> writer_store
   \<Rightarrow> writer_store \<times> transition_outcome" where
  "advance_target_committed ids row delta desired now st =
     (let st = materialize_campaign ids row (cd_strategy delta) desired now st;
          st = set_phase (tr_id row) store_phase.WriterReady now st;
          st = on_transition (tr_id row)
                 (\<lambda>r. r\<lparr> tr_completed_at := Some now, tr_updated_at := now \<rparr>) st
      in (set_authority_ready_after_transition (pc_id desired) (tr_id row) now st,
          transition_outcome.TargetCommitted))"

definition advance_workers_quiesced ::
  "id_functions \<Rightarrow> transition_row \<Rightarrow> contract_delta \<Rightarrow> processing_contract \<Rightarrow> int \<Rightarrow> writer_store
   \<Rightarrow> (store_error, writer_store \<times> transition_outcome) result" where
  "advance_workers_quiesced ids row delta desired now st =
     rbind (commit_target_contract ids row desired now st) (\<lambda>st.
       Ok (advance_target_committed ids row delta desired now st))"

definition advance_claims_fenced ::
  "id_functions \<Rightarrow> transition_row \<Rightarrow> contract_delta \<Rightarrow> processing_contract \<Rightarrow> int \<Rightarrow> writer_store
   \<Rightarrow> (store_error, writer_store \<times> transition_outcome) result" where
  "advance_claims_fenced ids row delta desired now st =
     (if running_count st > 0
      then Ok (on_authority (\<lambda>a. a\<lparr> au_health_reason := Some ''blocked_by_running_owner'',
                  au_updated_at := max (au_updated_at a) now \<rparr>)
                (mark_transition_failure (tr_id row) ''blocked_by_running_owner'' True now st),
               transition_outcome.BlockedByRunningOwner)
      else advance_workers_quiesced ids row delta desired now
             (set_authority_phase store_phase.WorkersQuiesced now
               (set_phase (tr_id row) store_phase.WorkersQuiesced now st)))"

definition advance_existing_transition ::
  "id_functions \<Rightarrow> transition_row \<Rightarrow> contract_delta \<Rightarrow> processing_contract \<Rightarrow> int \<Rightarrow> writer_store
   \<Rightarrow> (store_error, writer_store \<times> transition_outcome) result" where
  "advance_existing_transition ids row delta desired now st =
     (case tr_phase row of
        store_phase.Observed \<Rightarrow> advance_claims_fenced ids row delta desired now (fence_claims row now st)
      | store_phase.ClaimsFenced \<Rightarrow> advance_claims_fenced ids row delta desired now st
      | store_phase.WorkersQuiesced \<Rightarrow> advance_workers_quiesced ids row delta desired now st
      | store_phase.TargetCommitted \<Rightarrow> Ok (advance_target_committed ids row delta desired now st)
      | store_phase.WriterReady \<Rightarrow>
          Ok (sync_authority_ready (pc_id desired) now st, transition_outcome.AlreadyActive))"

definition observed_row ::
  "string \<Rightarrow> processing_contract \<Rightarrow> string \<Rightarrow> nat \<Rightarrow> nat \<Rightarrow> int \<Rightarrow> writer_store \<Rightarrow> transition_row" where
  "observed_row i desired product schema queued now st =
     \<lparr> tr_id = i, tr_source_contract_id = map_option pc_id (active_contract st),
       tr_target_contract_id = pc_id desired, tr_product_version = product, tr_schema_version = schema,
       tr_source_generation = st_generation st, tr_source_visible_epoch = st_visible_epoch st,
       tr_phase = store_phase.Observed, tr_attempt = 1,
       tr_claim_fence_epoch = next_claim_fence_epoch st, tr_running_task_count = running_count st,
       tr_queued_task_count = queued, tr_failure_class = None, tr_retryable = False,
       tr_campaign_id = None, tr_created_at = now, tr_updated_at = now, tr_completed_at = None \<rparr>"

definition begin_transition ::
  "transition_row \<Rightarrow> processing_contract \<Rightarrow> int \<Rightarrow> writer_store \<Rightarrow> (store_error, writer_store) result" where
  "begin_transition row desired now st =
     rbind (insert_transition row st) (\<lambda>st'.
       Ok (set_authority_transitioning (tr_id row) store_phase.Observed (tr_claim_fence_epoch row)
             (tr_source_contract_id row) (pc_id desired) now st'))"

definition record_blocked_attempt ::
  "id_functions \<Rightarrow> processing_contract \<Rightarrow> string \<Rightarrow> nat \<Rightarrow> int \<Rightarrow> writer_store
   \<Rightarrow> (store_error, writer_store) result" where
  "record_blocked_attempt ids desired product schema now st =
     (let i = new_digest_id ids
            [lit ''writer-contract-transition-blocked'', lit (pc_id desired), le_bytes64 now]
      in begin_transition ((observed_row i desired product schema 0 now st)\<lparr>
           tr_failure_class := Some ''blocked_by_running_owner'', tr_retryable := True \<rparr>) desired now st)"

definition complete_in_transaction ::
  "id_functions \<Rightarrow> processing_contract \<Rightarrow> string \<Rightarrow> nat \<Rightarrow> int \<Rightarrow> writer_store
   \<Rightarrow> (store_error, writer_store \<times> transition_outcome) result" where
  "complete_in_transaction ids desired product schema now st0 =
     rbind (insert_import_processing_contract desired st0) (\<lambda>st.
     if \<not> projection_is_ready_with_generation st then Ok (st, transition_outcome.PersistedStateInvalid)
     else case active_transition_row st of
       Some existing \<Rightarrow>
         if tr_target_contract_id existing \<noteq> pc_id desired
         then Ok (st, transition_outcome.TransitionInProgress)
         else
           let source = Option.bind (tr_source_contract_id existing) (contract_in_store st);
               (delta, _) = observe_writer_contract_transition source desired (running_count st)
           in if cd_strategy delta = Unsupported \<and> tr_phase existing \<noteq> store_phase.TargetCommitted \<and>
                 tr_phase existing \<noteq> store_phase.WriterReady
              then Ok (st, transition_outcome.UnsupportedTransition)
              else advance_existing_transition ids existing delta desired now st
     | None \<Rightarrow>
         let running = running_count st;
             (delta, observed) = observe_writer_contract_transition (active_contract st) desired running
         in if observed = transition_outcome.AlreadyActive
            then Ok (sync_authority_ready (pc_id desired) now st, transition_outcome.AlreadyActive)
            else if observed = transition_outcome.UnsupportedTransition \<or> cd_strategy delta = Unsupported
            then Ok (st, transition_outcome.UnsupportedTransition)
            else if running > 0
            then rbind (record_blocked_attempt ids desired product schema now st) (\<lambda>st.
                   Ok (st, transition_outcome.BlockedByRunningOwner))
            else
              let i = new_digest_id ids
                    [lit ''writer-contract-transition'', lit (pc_id desired), le_bytes64 now];
                  row = observed_row i desired product schema (queued_count st) now st
              in rbind (begin_transition row desired now st)
                   (advance_existing_transition ids row delta desired now))"

text \<open>The transaction is committed for four of the outcomes and dropped for the others.\<close>

definition complete_online_writer_transition_with_product ::
  "id_functions \<Rightarrow> processing_contract \<Rightarrow> string \<Rightarrow> nat \<Rightarrow> int \<Rightarrow> writer_store
   \<Rightarrow> writer_store \<times> (store_error, transition_outcome) result" where
  "complete_online_writer_transition_with_product ids desired product schema now st =
     (case complete_in_transaction ids desired product schema now st of
        Inl e \<Rightarrow> (st, Err e)
      | Inr (st', outcome) \<Rightarrow>
          if outcome \<in> {transition_outcome.AlreadyActive, transition_outcome.TargetCommitted,
               transition_outcome.BlockedByRunningOwner, transition_outcome.TransitionInProgress}
          then (st', Ok outcome) else (st, Ok outcome))"

definition complete_online_writer_transition ::
  "id_functions \<Rightarrow> processing_contract \<Rightarrow> int \<Rightarrow> writer_store
   \<Rightarrow> writer_store \<times> (store_error, transition_outcome) result" where
  "complete_online_writer_transition ids desired now =
     complete_online_writer_transition_with_product ids desired ''0.1.9'' 34 now"

section \<open>Public writer health\<close>

fun map_phase :: "store_phase \<Rightarrow> writer_transition_phase" where
  "map_phase store_phase.Observed = writer_transition_phase.Observed"
| "map_phase store_phase.ClaimsFenced = writer_transition_phase.ClaimsFenced"
| "map_phase store_phase.WorkersQuiesced = writer_transition_phase.WorkersQuiesced"
| "map_phase store_phase.TargetCommitted = writer_transition_phase.TargetCommitted"
| "map_phase store_phase.WriterReady = writer_transition_phase.WriterReady"

definition map_reason :: "string option \<Rightarrow> writer_reason" where
  "map_reason r =
     (if r = Some ''transition_in_progress'' then writer_reason.TransitionInProgress
      else if r = Some ''runtime_unavailable'' then writer_reason.RuntimeUnavailable
      else if r = Some ''unsupported_transition'' then writer_reason.UnsupportedTransition
      else if r = Some ''persisted_state_invalid'' then writer_reason.PersistedStateInvalid
      else if r = Some ''blocked_by_running_owner'' then writer_reason.BlockedByRunningOwner
      else writer_reason.RuntimeUnavailable)"

definition non_empty :: "string option \<Rightarrow> string option" where
  "non_empty i = (case i of None \<Rightarrow> None | Some s \<Rightarrow> if s = [] then None else Some s)"

definition writer_health_from_snapshot :: "authority_row \<Rightarrow> writer_health" where
  "writer_health_from_snapshot a =
     (case au_health_state a of
        authority_health.Ready \<Rightarrow>
          \<lparr> wh_state = writer_state.Ready, wh_reason = None,
            wh_transition_phase = map_option (\<lambda>_. writer_transition_phase.WriterReady)
              (non_empty (au_last_completed_transition_id a)),
            wh_transition_id = non_empty (au_last_completed_transition_id a) \<rparr>
      | authority_health.Transitioning \<Rightarrow>
          \<lparr> wh_state = writer_state.Transitioning, wh_reason = Some (map_reason (au_health_reason a)),
            wh_transition_phase =
              (case au_transition_phase a of
                 None \<Rightarrow> Some writer_transition_phase.Observed | Some p \<Rightarrow> Some (map_phase p)),
            wh_transition_id = non_empty (au_active_transition_id a) \<rparr>
      | authority_health.Unavailable \<Rightarrow>
          \<lparr> wh_state = writer_state.Unavailable, wh_reason = Some (map_reason (au_health_reason a)),
            wh_transition_phase = None, wh_transition_id = None \<rparr>
      | authority_health.Blocked \<Rightarrow>
          \<lparr> wh_state = writer_state.Blocked, wh_reason = Some (map_reason (au_health_reason a)),
            wh_transition_phase = None, wh_transition_id = None \<rparr>)"

text \<open>\<open>writer_health_from_store\<close>, on what reading the authority row answered.\<close>

definition writer_health_from_store :: "(store_error, authority_row) result \<Rightarrow> writer_health" where
  "writer_health_from_store r =
     (case r of
        Inr a \<Rightarrow> writer_health_from_snapshot a
      | Inl _ \<Rightarrow> writer_unavailable writer_reason.PersistedStateInvalid)"

section \<open>The coordinator\<close>

datatype coordinator_outcome =
    AlreadyActive | TargetCommitted | TransitionRequired | TransitionInProgress
  | UnsupportedTransition | WriterUnavailable | HardCutActivated

type_synonym authority_token = nat \<comment> \<open>the claim fence epoch\<close>

fun coordinator_of_observation ::
  "transition_outcome \<Rightarrow> authority_token \<Rightarrow> coordinator_outcome \<times> authority_token option" where
  "coordinator_of_observation transition_outcome.AlreadyActive k = (coordinator_outcome.AlreadyActive, Some k)"
| "coordinator_of_observation transition_outcome.TargetCommitted k = (coordinator_outcome.TargetCommitted, Some k)"
| "coordinator_of_observation transition_outcome.TransitionRequired k = (coordinator_outcome.TransitionRequired, None)"
| "coordinator_of_observation transition_outcome.TransitionInProgress k = (coordinator_outcome.TransitionInProgress, None)"
| "coordinator_of_observation transition_outcome.BlockedByRunningOwner k = (coordinator_outcome.TransitionInProgress, None)"
| "coordinator_of_observation transition_outcome.UnsupportedTransition k = (coordinator_outcome.UnsupportedTransition, None)"
| "coordinator_of_observation transition_outcome.RuntimeUnavailable k = (coordinator_outcome.WriterUnavailable, None)"
| "coordinator_of_observation transition_outcome.PersistedStateInvalid k = (coordinator_outcome.WriterUnavailable, None)"

definition observe_desired_contract ::
  "processing_contract \<Rightarrow> writer_store \<Rightarrow> coordinator_outcome \<times> authority_token option" where
  "observe_desired_contract desired st =
     (let a = st_authority st
      in if au_health_state a \<in> {authority_health.Unavailable, authority_health.Blocked}
         then (coordinator_outcome.WriterUnavailable, None)
         else if active_contract st = None then (coordinator_outcome.TransitionRequired, None)
         else coordinator_of_observation
                (snd (observe_writer_contract_transition (active_contract st) desired (running_count st)))
                (au_claim_fence_epoch a))"

datatype rebuild_activation = Activated | AlreadyActiveRebuild | Superseded | RunningTaskConflict

text \<open>
  \<open>bootstrap_writer_barrier\<close>; the hard-cut activation of an unpublished store
  (\<open>activate_migration_rebuild_contract\<close>) is the parameter \<open>activate\<close>.
\<close>

definition bootstrap_writer_barrier ::
  "id_functions \<Rightarrow> (processing_contract \<Rightarrow> int \<Rightarrow> writer_store \<Rightarrow>
      writer_store \<times> (store_error, rebuild_activation) result)
   \<Rightarrow> processing_contract \<Rightarrow> int \<Rightarrow> writer_store
   \<Rightarrow> writer_store \<times> (store_error, coordinator_outcome \<times> authority_token option) result" where
  "bootstrap_writer_barrier ids activate desired now st0 =
     (let st1 = fst (reconcile_writer_runtime_availability True now st0);
          st = fst (clear_writer_unsupported_transition now st1);
          (outcome, token) = observe_desired_contract desired st;
          token_of = (\<lambda>st. Some (au_claim_fence_epoch (st_authority st)));
          unsupported = (\<lambda>st. (fst (mark_writer_unsupported_transition now st),
                               Ok (coordinator_outcome.WriterUnavailable, None)))
      in if outcome \<in> {coordinator_outcome.AlreadyActive, coordinator_outcome.TargetCommitted}
         then (st, Ok (outcome, token))
         else if outcome = coordinator_outcome.UnsupportedTransition then unsupported st
         else if outcome \<noteq> coordinator_outcome.TransitionRequired then (st, Ok (outcome, None))
         else
           case complete_online_writer_transition ids desired now st of
             (st, Inl e) \<Rightarrow> (st, Err e)
           | (st, Inr transition_outcome.AlreadyActive) \<Rightarrow>
               (st, Ok (coordinator_outcome.AlreadyActive, token_of st))
           | (st, Inr transition_outcome.TargetCommitted) \<Rightarrow>
               (st, Ok (coordinator_outcome.TargetCommitted, token_of st))
           | (st, Inr transition_outcome.BlockedByRunningOwner) \<Rightarrow>
               (st, Ok (coordinator_outcome.TransitionInProgress, None))
           | (st, Inr transition_outcome.TransitionInProgress) \<Rightarrow>
               (st, Ok (coordinator_outcome.TransitionInProgress, None))
           | (st, Inr transition_outcome.UnsupportedTransition) \<Rightarrow> unsupported st
           | (st, Inr transition_outcome.TransitionRequired) \<Rightarrow>
               (st, Ok (coordinator_outcome.WriterUnavailable, None))
           | (st, Inr transition_outcome.RuntimeUnavailable) \<Rightarrow>
               (st, Ok (coordinator_outcome.WriterUnavailable, None))
           | (st, Inr transition_outcome.PersistedStateInvalid) \<Rightarrow>
               (case activate desired now st of
                  (st, Inl e) \<Rightarrow> (st, Err e)
                | (st, Inr Activated) \<Rightarrow> (st, Ok (HardCutActivated, token_of st))
                | (st, Inr AlreadyActiveRebuild) \<Rightarrow> (st, Ok (HardCutActivated, token_of st))
                | (st, Inr Superseded) \<Rightarrow>
                    if map_option pc_id (active_contract st) = Some (pc_id desired)
                    then (st, Ok (coordinator_outcome.AlreadyActive, token_of st))
                    else (st, Ok (coordinator_outcome.TransitionRequired, None))
                | (st, Inr RunningTaskConflict) \<Rightarrow>
                    (st, Ok (coordinator_outcome.TransitionInProgress, None))))"

definition public_writer_admitted :: "coordinator_outcome \<Rightarrow> bool" where
  "public_writer_admitted c \<longleftrightarrow> c \<in> {coordinator_outcome.AlreadyActive,
     coordinator_outcome.TargetCommitted, coordinator_outcome.HardCutActivated}"

datatype writer_priority =
  MetadataRecovery | SearchArtifactRepair | PrivacyDeletion | WriterContractTransition | OrdinaryImport

fun admits_priority :: "coordinator_outcome \<Rightarrow> writer_priority \<Rightarrow> bool" where
  "admits_priority c MetadataRecovery = True"
| "admits_priority c SearchArtifactRepair = True"
| "admits_priority c PrivacyDeletion = True"
| "admits_priority c WriterContractTransition =
     (c \<notin> {coordinator_outcome.UnsupportedTransition, coordinator_outcome.WriterUnavailable})"
| "admits_priority c OrdinaryImport = public_writer_admitted c"

section \<open>Invariant\<close>

text \<open>The \<open>CHECK\<close> of \<open>writer_authority_state\<close> (\<open>crates/meta-store/src/schema_v34.rs\<close>).\<close>

definition authority_check :: "authority_row \<Rightarrow> bool" where
  "authority_check a \<longleftrightarrow>
     au_health_state a = authority_health.Ready \<and> au_health_reason a = None \<and>
       au_active_transition_id a = None \<or>
     au_health_state a = authority_health.Transitioning \<and> au_active_transition_id a \<noteq> None \<and>
       au_transition_phase a \<noteq> None \<and> au_transition_phase a \<noteq> Some store_phase.WriterReady \<or>
     au_health_state a \<in> {authority_health.Unavailable, authority_health.Blocked} \<and>
       au_health_reason a \<noteq> None"

text \<open>
  The active transition exists, has not passed the fence, and the authority row agrees with it;
  a transitioning row has one of the two reasons that the public contract allows.
\<close>

definition active_agrees :: "writer_store \<Rightarrow> bool" where
  "active_agrees st \<longleftrightarrow>
     (\<forall>i. au_active_transition_id (st_authority st) = Some i \<longrightarrow>
        (\<exists>r. find (\<lambda>r. tr_id r = i) (st_transitions st) = Some r \<and>
             au_transition_phase (st_authority st) = Some (tr_phase r) \<and>
             tr_phase r \<in> {store_phase.Observed, store_phase.ClaimsFenced} \<and>
             au_desired_contract_id (st_authority st) = Some (tr_target_contract_id r)))"

definition winv :: "writer_store \<Rightarrow> bool" where
  "winv st \<longleftrightarrow> authority_check (st_authority st) \<and> active_agrees st \<and>
     (au_health_state (st_authority st) = authority_health.Transitioning \<longrightarrow>
        au_health_reason (st_authority st) \<in>
          {Some ''transition_in_progress'', Some ''blocked_by_running_owner''})"

inductive writer_step :: "id_functions \<Rightarrow> writer_store \<Rightarrow> writer_store \<Rightarrow> bool" for ids where
  ws_runtime_down: "writer_step ids st (mark_writer_runtime_unavailable now st)"
| ws_runtime_up: "writer_step ids st (fst (reconcile_writer_runtime_availability healthy now st))"
| ws_unsupported: "writer_step ids st (fst (mark_writer_unsupported_transition now st))"
| ws_clear_unsupported: "writer_step ids st (fst (clear_writer_unsupported_transition now st))"
| ws_owner: "writer_step ids st (mark_writer_blocked_by_running_owner now st)"
| ws_clear_owner: "writer_step ids st (fst (clear_writer_blocked_by_running_owner now st))"
| ws_complete: "writer_step ids st (fst (complete_online_writer_transition_with_product ids desired product schema now st))"
| ws_other: "writer_step ids st
    (st\<lparr> st_service_state := sv, st_generation := g, st_visible_epoch := e, st_authorized_roots := rs,
         st_tasks := ts, st_pdf_jobs := js \<rparr>)"

definition fresh_authority :: authority_row where
  "fresh_authority = \<lparr> au_health_state = authority_health.Ready, au_health_reason = None,
     au_transition_phase = None, au_active_transition_id = None,
     au_last_completed_transition_id = None, au_claim_fence_epoch = 0,
     au_committed_contract_id = None, au_desired_contract_id = None, au_updated_at = 0 \<rparr>"

definition writer_init :: "writer_store \<Rightarrow> bool" where
  "writer_init st \<longleftrightarrow> st_authority st = fresh_authority"

lemma winv_ready:
  "au_health_state (st_authority st) = authority_health.Ready \<Longrightarrow>
   au_health_reason (st_authority st) = None \<Longrightarrow> au_active_transition_id (st_authority st) = None \<Longrightarrow>
   winv st"
  by (simp add: winv_def authority_check_def active_agrees_def)

lemma winv_cong:
  "st_authority st' = st_authority st \<Longrightarrow> st_transitions st' = st_transitions st \<Longrightarrow> winv st \<Longrightarrow> winv st'"
  by (simp add: winv_def active_agrees_def)

lemma on_authority_simps [simp]:
  "st_authority (on_authority f st) = f (st_authority st)"
  "st_transitions (on_authority f st) = st_transitions st"
  "st_tasks (on_authority f st) = st_tasks st"
  "st_legacy_active (on_authority f st) = st_legacy_active st"
  "st_authorized_roots (on_authority f st) = st_authorized_roots st"
  by (simp_all add: on_authority_def)

lemma on_transition_simps [simp]:
  "st_authority (on_transition i f st) = st_authority st"
  "st_tasks (on_transition i f st) = st_tasks st"
  "st_legacy_active (on_transition i f st) = st_legacy_active st"
  "st_authorized_roots (on_transition i f st) = st_authorized_roots st"
  "st_transitions (on_transition i f st) =
     map (\<lambda>r. if tr_id r = i then f r else r) (st_transitions st)"
  by (simp_all add: on_transition_def)

lemma find_on_transition:
  assumes "\<And>r. tr_id (f r) = tr_id r"
  shows "find (\<lambda>r. tr_id r = j) (map (\<lambda>r. if tr_id r = i then f r else r) rs) =
    map_option (\<lambda>r. if tr_id r = i then f r else r) (find (\<lambda>r. tr_id r = j) rs)"
  using assms by (induction rs) auto

lemma find_append_None: "find P xs = None \<Longrightarrow> find P (xs @ ys) = find P ys"
  by (induction xs) (auto split: if_splits)

lemma winv_activeE:
  assumes "winv st" and "au_active_transition_id (st_authority st) = Some i"
  obtains r where "find (\<lambda>r. tr_id r = i) (st_transitions st) = Some r"
    "au_transition_phase (st_authority st) = Some (tr_phase r)"
    "tr_phase r = store_phase.Observed \<or> tr_phase r = store_phase.ClaimsFenced"
    "au_desired_contract_id (st_authority st) = Some (tr_target_contract_id r)"
    "au_health_state (st_authority st) \<noteq> authority_health.Ready"
proof -
  have "au_health_state (st_authority st) \<noteq> authority_health.Ready"
    using assms by (auto simp: winv_def authority_check_def)
  then show thesis
    using assms that unfolding winv_def active_agrees_def by blast
qed

lemma winv_activeI:
  assumes "au_active_transition_id (st_authority st) = Some i"
    and "find (\<lambda>r. tr_id r = i) (st_transitions st) = Some r"
    and "au_transition_phase (st_authority st) = Some (tr_phase r)"
    and "tr_phase r = store_phase.Observed \<or> tr_phase r = store_phase.ClaimsFenced"
    and "au_desired_contract_id (st_authority st) = Some (tr_target_contract_id r)"
    and "au_health_state (st_authority st) = authority_health.Transitioning \<and>
           au_health_reason (st_authority st) \<in> {Some ''transition_in_progress'', Some ''blocked_by_running_owner''} \<or>
         au_health_state (st_authority st) \<in> {authority_health.Unavailable, authority_health.Blocked} \<and>
           au_health_reason (st_authority st) \<noteq> None"
  shows "winv st"
  using assms unfolding winv_def authority_check_def active_agrees_def by fastforce

lemma find_append_Some: "find P xs = Some x \<Longrightarrow> find P (xs @ ys) = Some x"
  by (induction xs) (auto split: if_splits)

lemma winv_resumed:
  assumes "winv st"
  shows "winv (on_authority (\<lambda>a. resumed_health a now) st)"
proof (cases "au_active_transition_id (st_authority st)")
  case (Some i)
  obtain r where r: "find (\<lambda>r. tr_id r = i) (st_transitions st) = Some r"
    "au_transition_phase (st_authority st) = Some (tr_phase r)"
    "tr_phase r = store_phase.Observed \<or> tr_phase r = store_phase.ClaimsFenced"
    "au_desired_contract_id (st_authority st) = Some (tr_target_contract_id r)"
    using winv_activeE [OF assms Some] .
  show ?thesis
    by (rule winv_activeI [of _ i r]) (use r Some in \<open>simp_all add: resumed_health_def\<close>)
qed (simp add: winv_ready resumed_health_def)

lemma winv_down:
  assumes "winv st" and "h \<in> {authority_health.Unavailable, authority_health.Blocked}"
  shows "winv (on_authority (\<lambda>a. a\<lparr> au_health_state := h, au_health_reason := Some x,
     au_updated_at := u a \<rparr>) st)"
  using assms by (auto simp: winv_def authority_check_def active_agrees_def)

subsection \<open>The transaction step by step\<close>

lemma advance_claims_fenced_cases:
  assumes "advance_claims_fenced ids row delta desired now st = Ok (st', outcome)"
  obtains (blocked) "running_count st > 0" "outcome = transition_outcome.BlockedByRunningOwner"
      "st' = on_authority (\<lambda>a. a\<lparr> au_health_reason := Some ''blocked_by_running_owner'',
                  au_updated_at := max (au_updated_at a) now \<rparr>)
                (mark_transition_failure (tr_id row) ''blocked_by_running_owner'' True now st)"
  | (finished) st2 where "running_count st = 0" "outcome = transition_outcome.TargetCommitted"
      "commit_target_contract ids row desired now
         (set_authority_phase store_phase.WorkersQuiesced now
           (set_phase (tr_id row) store_phase.WorkersQuiesced now st)) = Ok st2"
      "st' = fst (advance_target_committed ids row delta desired now st2)"
  using assms
  by (auto simp: advance_claims_fenced_def advance_workers_quiesced_def result_simps
      advance_target_committed_def Let_def split: if_splits)

lemma materialize_keeps [simp]:
  "st_authority (materialize_campaign ids row s d now st) = st_authority st"
  "st_tasks (materialize_campaign ids row s d now st) = st_tasks st"
  "st_legacy_active (materialize_campaign ids row s d now st) = st_legacy_active st"
  by (simp_all add: materialize_campaign_def Let_def split: option.split)

lemma advance_target_committed_authority:
  "st_authority (fst (advance_target_committed ids row delta desired now st)) =
     (st_authority st)\<lparr> au_health_state := authority_health.Ready, au_health_reason := None,
       au_transition_phase := Some store_phase.WriterReady, au_active_transition_id := None,
       au_last_completed_transition_id := Some (tr_id row),
       au_committed_contract_id := Some (pc_id desired),
       au_desired_contract_id := Some (pc_id desired), au_updated_at := now \<rparr>"
  "st_tasks (fst (advance_target_committed ids row delta desired now st)) = st_tasks st"
  "st_legacy_active (fst (advance_target_committed ids row delta desired now st)) = st_legacy_active st"
  by (simp_all add: advance_target_committed_def set_authority_ready_after_transition_def
      set_phase_def Let_def)

lemma winv_advance_target_committed: "winv (fst (advance_target_committed ids row delta desired now st))"
  by (rule winv_ready) (simp_all add: advance_target_committed_authority)

lemma winv_sync_ready: "winv (sync_authority_ready c now st)"
  by (rule winv_ready) (simp_all add: sync_authority_ready_def)

lemma winv_advance_fenced:
  assumes "winv st" and "advance_claims_fenced ids row delta desired now st = Ok (st', outcome)"
    and "au_active_transition_id (st_authority st) = Some i"
  shows "winv st'"
  using assms(2)
proof (cases rule: advance_claims_fenced_cases)
  case blocked
  obtain r where r: "find (\<lambda>r. tr_id r = i) (st_transitions st) = Some r"
    "au_transition_phase (st_authority st) = Some (tr_phase r)"
    "tr_phase r = store_phase.Observed \<or> tr_phase r = store_phase.ClaimsFenced"
    "au_desired_contract_id (st_authority st) = Some (tr_target_contract_id r)"
    "au_health_state (st_authority st) \<noteq> authority_health.Ready"
    using winv_activeE [OF assms(1,3)] .
  let ?r = "if tr_id r = tr_id row then r\<lparr> tr_failure_class := Some ''blocked_by_running_owner'',
      tr_retryable := True, tr_updated_at := now \<rparr> else r"
  have "au_health_state (st_authority st) \<in>
      {authority_health.Transitioning, authority_health.Unavailable, authority_health.Blocked}"
    using r(5) by (cases "au_health_state (st_authority st)") auto
  then show ?thesis
    unfolding blocked(3)
    by (intro winv_activeI [of _ i ?r])
      (use r assms(3) in \<open>auto simp: find_on_transition mark_transition_failure_def\<close>)
next
  case (finished st2)
  then show ?thesis by (simp add: winv_advance_target_committed)
qed

lemma winv_fence_claims:
  assumes "winv st" and "au_active_transition_id (st_authority st) = Some (tr_id row)"
    and "find (\<lambda>r. tr_id r = tr_id row) (st_transitions st) = Some row"
  shows "winv (fence_claims row now st)"
proof -
  have "au_desired_contract_id (st_authority st) = Some (tr_target_contract_id row)"
    using winv_activeE [OF assms(1,2)] assms(3) by auto
  then show ?thesis
    by (intro winv_activeI [of _ "tr_id row" "row\<lparr> tr_phase := store_phase.ClaimsFenced, tr_updated_at := now \<rparr>"])
      (use assms in \<open>simp_all add: fence_claims_def set_phase_def find_on_transition\<close>)
qed

lemma fence_claims_active [simp]:
  "au_active_transition_id (st_authority (fence_claims row now st)) = Some (tr_id row)"
  by (simp add: fence_claims_def)

lemma winv_advance:
  assumes "winv st" and "au_active_transition_id (st_authority st) = Some (tr_id row)"
    and "find (\<lambda>r. tr_id r = tr_id row) (st_transitions st) = Some row"
    and "advance_existing_transition ids row delta desired now st = Ok (st', outcome)"
  shows "winv st'"
proof (cases "tr_phase row")
  case Observed
  then show ?thesis
    using assms(4) winv_advance_fenced [OF winv_fence_claims [OF assms(1-3)] _ fence_claims_active]
    by (simp add: advance_existing_transition_def)
next
  case ClaimsFenced
  then show ?thesis
    using assms(4) winv_advance_fenced [OF assms(1) _ assms(2)]
    by (simp add: advance_existing_transition_def)
qed (use winv_activeE [OF assms(1,2)] assms(3) in auto)

lemma winv_begin:
  assumes "begin_transition row desired now st = Ok st'" and "tr_phase row = store_phase.Observed"
    and "tr_target_contract_id row = pc_id desired"
  shows "winv st' \<and> au_active_transition_id (st_authority st') = Some (tr_id row) \<and>
    find (\<lambda>r. tr_id r = tr_id row) (st_transitions st') = Some row"
proof -
  have st': "st' = set_authority_transitioning (tr_id row) store_phase.Observed (tr_claim_fence_epoch row)
      (tr_source_contract_id row) (pc_id desired) now (st\<lparr> st_transitions := st_transitions st @ [row] \<rparr>)"
    and new: "find (\<lambda>r. tr_id r = tr_id row) (st_transitions st) = None"
    using assms(1) by (auto simp: begin_transition_def insert_transition_def result_simps split: if_splits)
  have found: "find (\<lambda>r. tr_id r = tr_id row) (st_transitions st') = Some row"
    using find_append_None [OF new] by (simp add: st' set_authority_transitioning_def)
  moreover have "winv st'"
    by (rule winv_activeI [OF _ found])
      (use assms in \<open>simp_all add: st' set_authority_transitioning_def\<close>)
  ultimately show ?thesis by (simp add: st' set_authority_transitioning_def)
qed

lemma observed_row_simps [simp]:
  "tr_phase (observed_row i desired p sc q now st) = store_phase.Observed"
  "tr_target_contract_id (observed_row i desired p sc q now st) = pc_id desired"
  "tr_id (observed_row i desired p sc q now st) = i"
  "tr_claim_fence_epoch (observed_row i desired p sc q now st) = next_claim_fence_epoch st"
  by (simp_all add: observed_row_def)

lemma insert_contract_keeps:
  assumes "insert_import_processing_contract c st = Ok st'"
  shows "st_authority st' = st_authority st" "st_transitions st' = st_transitions st"
    "st_tasks st' = st_tasks st" "st_legacy_active st' = st_legacy_active st"
    "st_authorized_roots st' = st_authorized_roots st" "contract_in_store st' (pc_id c) = Some c"
    "\<And>i x. contract_in_store st i = Some x \<Longrightarrow> contract_in_store st' i = Some x"
    "st_service_state st' = st_service_state st" "st_generation st' = st_generation st"
  using assms
  by (auto simp: insert_import_processing_contract_def contract_in_store_def find_append_None
      split: option.splits if_splits) (metis find_append_Some)+

text \<open>
  The four ways in which a transaction that will be committed ends: the authority row is in
  sync, a transition was advanced, one was begun (and advanced, or recorded as blocked), or the
  active transition has another target.
\<close>

lemma complete_cases:
  assumes "complete_in_transaction ids desired product schema now st0 = Ok (st', outcome)"
    and "outcome \<in> {transition_outcome.AlreadyActive, transition_outcome.TargetCommitted,
           transition_outcome.BlockedByRunningOwner, transition_outcome.TransitionInProgress}"
  obtains (synced) st where "insert_import_processing_contract desired st0 = Ok st"
      "projection_is_ready_with_generation st"
      "active_transition_row st = None" "map_option pc_id (active_contract st) = Some (pc_id desired)"
      "st' = sync_authority_ready (pc_id desired) now st" "outcome = transition_outcome.AlreadyActive"
  | (resume) st row delta where "insert_import_processing_contract desired st0 = Ok st"
      "active_transition_row st = Some row" "tr_target_contract_id row = pc_id desired"
      "advance_existing_transition ids row delta desired now st = Ok (st', outcome)"
  | (begun) st row delta st1 where "insert_import_processing_contract desired st0 = Ok st"
      "active_transition_row st = None" "running_count st = 0"
      "row = observed_row (tr_id row) desired product schema (queued_count st) now st"
      "begin_transition row desired now st = Ok st1"
      "advance_existing_transition ids row delta desired now st1 = Ok (st', outcome)"
  | (blocked) st row where "insert_import_processing_contract desired st0 = Ok st"
      "active_transition_row st = None"
      "running_count st > 0" "tr_phase row = store_phase.Observed"
      "tr_target_contract_id row = pc_id desired" "tr_claim_fence_epoch row = next_claim_fence_epoch st"
      "begin_transition row desired now st = Ok st'"
      "outcome = transition_outcome.BlockedByRunningOwner"
  | (other) st row where "insert_import_processing_contract desired st0 = Ok st"
      "active_transition_row st = Some row" "tr_target_contract_id row \<noteq> pc_id desired"
      "st' = st" "outcome = transition_outcome.TransitionInProgress"
proof -
  obtain st where st: "insert_import_processing_contract desired st0 = Ok st"
    using assms(1) by (auto simp: complete_in_transaction_def result_simps)
  note run = assms(1) [unfolded complete_in_transaction_def st rbind.simps]
  have ready: "projection_is_ready_with_generation st"
    using run assms(2) by (auto split: if_splits)
  show thesis
  proof (cases "active_transition_row st")
    case (Some row)
    show thesis
    proof (cases "tr_target_contract_id row = pc_id desired")
      case True
      then show thesis
        using run assms(2) ready Some resume [OF st Some True]
        by (auto simp: Let_def split_beta split: if_splits)
    next
      case False
      then show thesis using run ready Some other [OF st Some False] by auto
    qed
  next
    case None
    obtain delta observed where obs:
      "observe_writer_contract_transition (active_contract st) desired (running_count st) = (delta, observed)"
      by (cases "observe_writer_contract_transition (active_contract st) desired (running_count st)")
    show thesis
    proof (cases "observed = transition_outcome.AlreadyActive")
      case True
      then have "map_option pc_id (active_contract st) = Some (pc_id desired)"
        using obs by (auto simp: observe_writer_contract_transition_def delta_between_def Let_def
            split: option.splits if_splits)
      then show thesis using run ready None obs True synced [OF st ready None] by auto
    next
      case active: False
      show thesis
      proof (cases "running_count st > 0")
        case True
        then have "record_blocked_attempt ids desired product schema now st = Ok st'"
          and out: "outcome = transition_outcome.BlockedByRunningOwner"
          using run ready None obs active assms(2) by (auto simp: result_simps split: if_splits)
        then obtain i where "begin_transition ((observed_row i desired product schema 0 now st)\<lparr>
            tr_failure_class := Some ''blocked_by_running_owner'', tr_retryable := True \<rparr>) desired now st = Ok st'"
          unfolding record_blocked_attempt_def Let_def by blast
        from blocked [OF st None True _ _ _ this out] show thesis by simp
      next
        case False
        then obtain i st1 where started:
          "begin_transition (observed_row i desired product schema (queued_count st) now st) desired now st = Ok st1"
          "advance_existing_transition ids (observed_row i desired product schema (queued_count st) now st)
             delta desired now st1 = Ok (st', outcome)"
          using run ready None obs active assms(2)
          by (auto simp only: Let_def result_simps option.case split: if_splits prod.splits)
        from False show thesis by (intro begun [OF st None _ _ started]) simp_all
      qed
    qed
  qed
qed

lemma winv_complete:
  assumes "winv st0" and "complete_in_transaction ids desired product schema now st0 = Ok (st', outcome)"
    and "outcome \<in> {transition_outcome.AlreadyActive, transition_outcome.TargetCommitted,
           transition_outcome.BlockedByRunningOwner, transition_outcome.TransitionInProgress}"
  shows "winv st'"
  using assms(2,3)
proof (cases rule: complete_cases)
  case (synced st)
  then show ?thesis by (simp add: winv_sync_ready)
next
  case (resume st row delta)
  have "winv st" using winv_cong [OF insert_contract_keeps(1,2) assms(1)] resume(1) by blast
  moreover have "au_active_transition_id (st_authority st) = Some (tr_id row)"
    "find (\<lambda>r. tr_id r = tr_id row) (st_transitions st) = Some row"
    using resume(2) by (auto simp: active_transition_row_def find_Some_iff split: option.splits)
  ultimately show ?thesis using winv_advance [OF _ _ _ resume(4)] by blast
next
  case (begun st row delta st1)
  then show ?thesis
    using winv_begin [OF begun(5)] winv_advance [OF _ _ _ begun(6)]
    by (metis observed_row_simps(1,2))
next
  case (blocked st row)
  then show ?thesis using winv_begin [OF blocked(7)] by blast
next
  case (other st row)
  then show ?thesis using winv_cong [OF insert_contract_keeps(1,2) assms(1)] by blast
qed

interpretation writer: safety writer_init "writer_step ids" winv
proof unfold_locales
  fix st assume "writer_init st"
  then show "winv st" by (intro winv_ready) (simp_all add: writer_init_def fresh_authority_def)
next
  fix st st' assume inv: "winv st" and step: "writer_step ids st st'"
  from step show "winv st'"
  proof cases
    case (ws_complete desired product schema now)
    then show ?thesis
      using inv winv_complete [OF inv]
      by (auto simp: complete_online_writer_transition_with_product_def split: sum.split)
  next
    case (ws_unsupported now)
    then show ?thesis
      using inv winv_down [OF inv] by (auto simp: mark_writer_unsupported_transition_def Let_def)
  next
    case (ws_clear_unsupported now)
    then show ?thesis
      using inv by (auto simp: clear_writer_unsupported_transition_def Let_def intro!: winv_ready)
  qed (use inv winv_resumed [OF inv] winv_down [OF inv] winv_cong [OF _ _ inv] in
      \<open>auto simp: mark_writer_runtime_unavailable_def reconcile_writer_runtime_availability_def
        mark_writer_blocked_by_running_owner_def clear_writer_blocked_by_running_owner_def Let_def\<close>)
qed

section \<open>Properties\<close>

lemma winv_health_valid: "winv st \<Longrightarrow> valid_writer (writer_health_from_store (Ok (st_authority st)))"
  by (cases "au_health_state (st_authority st)")
    (auto simp: winv_def writer_health_from_store_def writer_health_from_snapshot_def
      valid_writer_def map_reason_def)

text \<open>
  Whatever sequence of store operations and of other writers' changes happened, the authority
  row satisfies the table's constraint, and the writer health that the daemon publishes from it
  is valid in the public health contract.
\<close>

theorem published_writer_health_is_valid:
  assumes "reach writer_init (writer_step ids) st"
  shows "authority_check (st_authority st) \<and>
    valid_writer (writer_health_from_store (Ok (st_authority st)))"
  using writer.reach_inv [OF assms] winv_health_valid by (simp add: winv_def)

subsection \<open>A committed target\<close>

lemma insert_tasks_Ok:
  assumes "insert_tasks ts st = Ok st'"
  shows "st_tasks st' = st_tasks st @ ts \<and> st_authority st' = st_authority st \<and>
    st_transitions st' = st_transitions st"
  using assms
  by (induction ts arbitrary: st) (auto simp: result_simps insert_task_def split: if_splits)

lemma retire_and_rebuild_Ok:
  assumes "retire_and_rebuild_queued_intents ids desired now st = Ok st'"
  shows "st_tasks st' = map (retire_task (pc_id desired) now) (st_tasks st) @
      map (replacement_task ids desired now) (replacement_roots (pc_id desired) st)"
  using assms insert_tasks_Ok
  by (fastforce simp: retire_and_rebuild_queued_intents_def Let_def split: if_splits)

lemma retired_no_stale:
  assumes "retire_and_rebuild_queued_intents ids desired now st = Ok st'" and "t \<in> set (st_tasks st')"
  shows "\<not> stale_intent (pc_id desired) t"
  using assms(2) unfolding retire_and_rebuild_Ok [OF assms(1)]
  by (auto simp: retire_task_def stale_intent_def replacement_task_def)

lemma retired_replaced:
  assumes "retire_and_rebuild_queued_intents ids desired now st = Ok st'"
    and "t \<in> set (st_tasks st)" and "stale_intent (pc_id desired) t"
  shows "replacement_task ids desired now (tk_root_path t) \<in> set (st_tasks st')"
  using assms(2,3) unfolding retire_and_rebuild_Ok [OF assms(1)]
  by (auto simp: replacement_roots_def)

lemma running_count_cong [simp]:
  "running_count (on_authority f st) = running_count st"
  "running_count (on_transition i g st) = running_count st"
  by (simp_all add: running_count_def)

lemma fenced_committed:
  assumes "advance_claims_fenced ids row delta desired now st = Ok (st', transition_outcome.TargetCommitted)"
  obtains st1 st2 where "running_count st = 0" "st_tasks st1 = st_tasks st"
    "retire_and_rebuild_queued_intents ids desired now st1 = Ok st2" "st_tasks st' = st_tasks st2"
    "st_legacy_active st' = Some (pc_id desired)"
    "au_health_state (st_authority st') = authority_health.Ready"
    "au_committed_contract_id (st_authority st') = Some (pc_id desired)"
    "au_desired_contract_id (st_authority st') = Some (pc_id desired)"
    "au_active_transition_id (st_authority st') = None"
    "au_last_completed_transition_id (st_authority st') = Some (tr_id row)"
  using assms
proof (cases rule: advance_claims_fenced_cases)
  case (finished st2)
  let ?st1 = "set_authority_phase store_phase.WorkersQuiesced now
           (set_phase (tr_id row) store_phase.WorkersQuiesced now st)"
  obtain st3 where st3: "retire_and_rebuild_queued_intents ids desired now ?st1 = Ok st3"
    and st2: "st_tasks st2 = st_tasks st3" "st_legacy_active st2 = Some (pc_id desired)"
    using finished(3)
    by (auto simp: commit_target_contract_def result_simps set_phase_def split: if_splits)
  show thesis
    by (rule that [OF finished(1) _ st3])
      (use st2 in \<open>simp_all add: finished(4) advance_target_committed_authority
        set_authority_phase_def set_phase_def\<close>)
qed simp

lemma fence_claims_tasks [simp]: "st_tasks (fence_claims row now st) = st_tasks st"
  "running_count (fence_claims row now st) = running_count st"
  by (simp_all add: fence_claims_def set_phase_def)

lemma advance_committed:
  assumes "advance_existing_transition ids row delta desired now st = Ok (st', transition_outcome.TargetCommitted)"
    and "tr_phase row = store_phase.Observed \<or> tr_phase row = store_phase.ClaimsFenced"
  obtains st0 where "st_tasks st0 = st_tasks st" "running_count st0 = running_count st"
    "advance_claims_fenced ids row delta desired now st0 = Ok (st', transition_outcome.TargetCommitted)"
    "st0 = st \<or> st0 = fence_claims row now st"
  using assms that [of st] that [of "fence_claims row now st"]
  by (auto simp: advance_existing_transition_def)

lemma begin_tasks: "begin_transition row desired now st = Ok st' \<Longrightarrow> st_tasks st' = st_tasks st"
  by (auto simp: begin_transition_def insert_transition_def set_authority_transitioning_def
      result_simps split: if_splits)

text \<open>
  C9. When the online transition reports that its target is committed, the cut is complete: no
  import was running, public writers are admitted again, both contract columns and the legacy
  column name the new contract and no transition is active; every pending import that is not
  cancelled is bound to the new contract; and for every pending import of an older contract there
  is a queued import of the same root bound to the new one, so no root loses its work.
\<close>

theorem committed_transition_is_a_complete_cut:
  assumes "reach writer_init (writer_step ids) st"
    and "complete_online_writer_transition ids desired now st = (st', Ok transition_outcome.TargetCommitted)"
  shows "running_count st = 0 \<and> public_writer_claims_admitted st' \<and>
    au_committed_contract_id (st_authority st') = Some (pc_id desired) \<and>
    au_desired_contract_id (st_authority st') = Some (pc_id desired) \<and>
    st_legacy_active st' = Some (pc_id desired) \<and>
    au_active_transition_id (st_authority st') = None \<and>
    (\<forall>t \<in> set (st_tasks st'). is_pending t \<and> tk_cancelled_at t = None \<longrightarrow> tk_contract_id t = pc_id desired) \<and>
    (\<forall>t \<in> set (st_tasks st). stale_intent (pc_id desired) t \<longrightarrow>
       (\<exists>t' \<in> set (st_tasks st'). tk_root_path t' = tk_root_path t \<and> is_pending t' \<and>
          tk_cancelled_at t' = None \<and> tk_contract_id t' = pc_id desired))"
proof -
  have inv: "winv st" using writer.reach_inv [OF assms(1)] .
  have run: "complete_in_transaction ids desired ''0.1.9'' 34 now st = Ok (st', transition_outcome.TargetCommitted)"
    using assms(2)
    by (auto simp: complete_online_writer_transition_def complete_online_writer_transition_with_product_def
        split: sum.splits if_splits)
  obtain s row delta where s: "st_tasks s = st_tasks st"
    and adv: "advance_existing_transition ids row delta desired now s = Ok (st', transition_outcome.TargetCommitted)"
    and ph: "tr_phase row = store_phase.Observed \<or> tr_phase row = store_phase.ClaimsFenced"
  proof (rule complete_cases [OF run])
    fix s row delta
    assume resume: "insert_import_processing_contract desired st = Ok s"
      "active_transition_row s = Some row"
      "advance_existing_transition ids row delta desired now s = Ok (st', transition_outcome.TargetCommitted)"
    have "winv s" using winv_cong [OF insert_contract_keeps(1,2) inv] resume(1) by blast
    then have "tr_phase row = store_phase.Observed \<or> tr_phase row = store_phase.ClaimsFenced"
      using resume(2) by (auto simp: active_transition_row_def split: option.splits elim!: winv_activeE)
    then show thesis using that resume insert_contract_keeps(3) by blast
  next
    fix s row delta s1
    assume begun: "insert_import_processing_contract desired st = Ok s"
      "row = observed_row (tr_id row) desired ''0.1.9'' 34 (queued_count s) now s"
      "begin_transition row desired now s = Ok s1"
      "advance_existing_transition ids row delta desired now s1 = Ok (st', transition_outcome.TargetCommitted)"
    then show thesis
      using that [of s1 row delta] insert_contract_keeps(3) [OF begun(1)] begin_tasks [OF begun(3)]
      by (metis observed_row_simps(1))
  qed simp_all
  obtain s0 where s0: "st_tasks s0 = st_tasks s" "running_count s0 = running_count s"
    "advance_claims_fenced ids row delta desired now s0 = Ok (st', transition_outcome.TargetCommitted)"
    using advance_committed [OF adv ph] by metis
  obtain s1 s2 where fin: "running_count s0 = 0" "st_tasks s1 = st_tasks s0"
    "retire_and_rebuild_queued_intents ids desired now s1 = Ok s2" "st_tasks st' = st_tasks s2"
    and cols: "st_legacy_active st' = Some (pc_id desired)"
    "au_health_state (st_authority st') = authority_health.Ready"
    "au_committed_contract_id (st_authority st') = Some (pc_id desired)"
    "au_desired_contract_id (st_authority st') = Some (pc_id desired)"
    "au_active_transition_id (st_authority st') = None"
    using fenced_committed [OF s0(3)] by metis
  have "\<forall>t \<in> set (st_tasks st'). is_pending t \<and> tk_cancelled_at t = None \<longrightarrow> tk_contract_id t = pc_id desired"
    using retired_no_stale [OF fin(3)] fin(4) by (fastforce simp: stale_intent_def)
  moreover have "\<exists>t' \<in> set (st_tasks st'). tk_root_path t' = tk_root_path t \<and> is_pending t' \<and>
      tk_cancelled_at t' = None \<and> tk_contract_id t' = pc_id desired"
    if "t \<in> set (st_tasks st)" "stale_intent (pc_id desired) t" for t
    using retired_replaced [OF fin(3), of t] that fin(2,4) s0(1) s
    by (intro bexI [of _ "replacement_task ids desired now (tk_root_path t)"])
      (auto simp: replacement_task_def is_pending_def)
  ultimately show ?thesis
    using fin(1) s0 s cols by (simp add: public_writer_claims_admitted_def running_count_def)
qed

subsection \<open>Progress\<close>

text \<open>Nothing stands in the way of the cut: no running import, every root known, no id taken.\<close>

definition can_commit :: "id_functions \<Rightarrow> processing_contract \<Rightarrow> int \<Rightarrow> writer_store \<Rightarrow> bool" where
  "can_commit ids desired now st \<longleftrightarrow> running_count st = 0 \<and>
     set (replacement_roots (pc_id desired) st) \<subseteq> set (st_authorized_roots st) \<and>
     distinct (map tk_id (map (replacement_task ids desired now) (replacement_roots (pc_id desired) st))) \<and>
     set (map tk_id (map (replacement_task ids desired now) (replacement_roots (pc_id desired) st))) \<inter>
       tk_id ` set (st_tasks st) = {}"

lemma insert_tasks_succeeds:
  assumes "distinct (map tk_id ts)" and "set (map tk_id ts) \<inter> tk_id ` set (st_tasks st) = {}"
  shows "\<exists>st'. insert_tasks ts st = Ok st'"
  using assms
proof (induction ts arbitrary: st)
  case (Cons t ts)
  have "find (\<lambda>x. tk_id x = tk_id t) (st_tasks st) = None"
    using Cons.prems(2) by (simp add: find_None_iff) (metis image_eqI)
  then show ?case
    using Cons.IH [of "st\<lparr> st_tasks := st_tasks st @ [t] \<rparr>"] Cons.prems
    by (auto simp: insert_task_def)
qed simp

lemma retire_task_id: "tk_id (retire_task c now t) = tk_id t"
  by (simp add: retire_task_def)

lemma retire_and_rebuild_succeeds:
  assumes "can_commit ids desired now st"
  shows "\<exists>st'. retire_and_rebuild_queued_intents ids desired now st = Ok st'"
proof -
  let ?ts = "map (replacement_task ids desired now) (replacement_roots (pc_id desired) st)"
  have ids: "tk_id ` set (map (retire_task (pc_id desired) now) (st_tasks st)) = tk_id ` set (st_tasks st)"
    by (simp add: image_image retire_task_id)
  have "\<exists>st'. insert_tasks ?ts (st\<lparr> st_tasks := map (retire_task (pc_id desired) now) (st_tasks st),
      st_pdf_jobs := js \<rparr>) = Ok st'" for js
  proof (rule insert_tasks_succeeds)
    have "st_tasks (st\<lparr> st_tasks := map (retire_task (pc_id desired) now) (st_tasks st),
      st_pdf_jobs := js \<rparr>) = map (retire_task (pc_id desired) now) (st_tasks st)" by simp
    with assms ids show "set (map tk_id ?ts) \<inter> tk_id ` set (st_tasks (st\<lparr> st_tasks :=
      map (retire_task (pc_id desired) now) (st_tasks st), st_pdf_jobs := js \<rparr>)) = {}"
      unfolding can_commit_def by metis
  qed (use assms in \<open>simp add: can_commit_def\<close>)
  then show ?thesis
    using assms by (auto simp: can_commit_def retire_and_rebuild_queued_intents_def Let_def list_all_iff)
qed

lemma can_commit_cong:
  "st_tasks st' = st_tasks st \<Longrightarrow> st_authorized_roots st' = st_authorized_roots st \<Longrightarrow>
   can_commit ids desired now st' = can_commit ids desired now st"
  by (simp add: can_commit_def running_count_def replacement_roots_def)

lemma fenced_succeeds:
  assumes "can_commit ids desired now st"
  shows "\<exists>st'. advance_claims_fenced ids row delta desired now st = Ok (st', transition_outcome.TargetCommitted) \<and>
    au_last_completed_transition_id (st_authority st') = Some (tr_id row)"
proof -
  let ?st1 = "set_authority_phase store_phase.WorkersQuiesced now
           (set_phase (tr_id row) store_phase.WorkersQuiesced now st)"
  have "can_commit ids desired now ?st1"
    by (rule iffD2 [OF can_commit_cong assms]) (simp_all add: set_authority_phase_def set_phase_def)
  moreover from this obtain s where "retire_and_rebuild_queued_intents ids desired now ?st1 = Ok s"
    using retire_and_rebuild_succeeds by blast
  ultimately show ?thesis
    using assms
    by (simp add: advance_claims_fenced_def advance_workers_quiesced_def commit_target_contract_def
        can_commit_def advance_target_committed_def set_authority_ready_after_transition_def Let_def)
qed

lemma advance_succeeds:
  assumes "can_commit ids desired now st"
    and "tr_phase row = store_phase.Observed \<or> tr_phase row = store_phase.ClaimsFenced"
  shows "\<exists>st'. advance_existing_transition ids row delta desired now st = Ok (st', transition_outcome.TargetCommitted) \<and>
    au_last_completed_transition_id (st_authority st') = Some (tr_id row)"
proof -
  have "can_commit ids desired now (fence_claims row now st)"
    by (rule iffD2 [OF can_commit_cong assms(1)]) (simp_all add: fence_claims_def set_phase_def)
  then show ?thesis
    using assms fenced_succeeds by (auto simp: advance_existing_transition_def)
qed

lemma resume_completes:
  assumes "winv st" and "projection_is_ready_with_generation st"
    and "contract_in_store st (pc_id desired) = Some desired"
    and "active_transition_row st = Some row" and "tr_target_contract_id row = pc_id desired"
    and "tr_source_contract_id row = Some src" and "contract_in_store st src = Some source"
    and "cd_strategy (delta_between (Some source) desired) = PdfRootRescan"
    and "can_commit ids desired now st"
  shows "\<exists>st'. complete_online_writer_transition ids desired now st = (st', Ok transition_outcome.TargetCommitted) \<and>
    au_last_completed_transition_id (st_authority st') = Some (tr_id row)"
proof -
  have ph: "tr_phase row = store_phase.Observed \<or> tr_phase row = store_phase.ClaimsFenced"
    using assms(1,4) by (auto simp: active_transition_row_def split: option.splits elim!: winv_activeE)
  have "insert_import_processing_contract desired st = Ok st"
    using assms(3) by (simp add: insert_import_processing_contract_def)
  moreover obtain delta where "observe_writer_contract_transition (Some source) desired (running_count st)
      = (delta, transition_outcome.TransitionRequired)" "cd_strategy delta = PdfRootRescan"
    using assms(8,9) by (auto simp: observe_writer_contract_transition_def can_commit_def)
  ultimately show ?thesis
    using assms(2,4-7) advance_succeeds [OF assms(9) ph, of delta]
    by (auto simp: complete_online_writer_transition_def complete_online_writer_transition_with_product_def
        complete_in_transaction_def)
qed

text \<open>
  C34. A transition that was blocked by a running import resumes and completes: in every reachable
  store with a published projection whose active transition targets the desired contract, differs
  from its source in the primary parser only and can commit, the next call commits the target and
  records that very transition as completed, whatever happened in between.
\<close>

theorem blocked_transition_resumes:
  assumes "reach writer_init (writer_step ids) st" and "projection_is_ready_with_generation st"
    and "contract_in_store st (pc_id desired) = Some desired"
    and "active_transition_row st = Some row" and "tr_target_contract_id row = pc_id desired"
    and "tr_source_contract_id row = Some src" and "contract_in_store st src = Some source"
    and "cd_strategy (delta_between (Some source) desired) = PdfRootRescan"
    and "can_commit ids desired now st"
  shows "\<exists>st'. complete_online_writer_transition ids desired now st = (st', Ok transition_outcome.TargetCommitted) \<and>
    au_last_completed_transition_id (st_authority st') = Some (tr_id row)"
  using resume_completes [OF writer.reach_inv [OF assms(1)] assms(2-9)] .

subsection \<open>A transition that is no longer wanted\<close>

text \<open>
  C35. A defect of the bootstrap: when a transition to another contract is still active and the
  daemon comes back desiring the contract that is committed, the coordinator reports that the
  contract is active and admits ordinary imports, while the store keeps refusing public claims;
  the store is left as it is, and completing the transition for the desired contract is refused,
  so nothing on this path ever clears it.
\<close>

theorem abandoned_transition_keeps_the_fence:
  assumes "au_health_state (st_authority st) = authority_health.Transitioning"
    and "active_transition_row st = Some row" and "tr_target_contract_id row \<noteq> pc_id desired"
    and "active_contract st = Some committed" and "pc_id committed = pc_id desired"
    and "contract_in_store st (pc_id desired) = Some desired"
    and "projection_is_ready_with_generation st"
  shows "(let (st', r) = bootstrap_writer_barrier ids activate desired now st
     in st' = st \<and> r = Ok (coordinator_outcome.AlreadyActive, Some (au_claim_fence_epoch (st_authority st))) \<and>
        admits_priority coordinator_outcome.AlreadyActive OrdinaryImport \<and>
        \<not> public_writer_claims_admitted st') \<and>
    complete_online_writer_transition ids desired now st = (st, Ok transition_outcome.TransitionInProgress)"
proof -
  have "observe_desired_contract desired st =
      (coordinator_outcome.AlreadyActive, Some (au_claim_fence_epoch (st_authority st)))"
    using assms(1,4,5)
    by (simp add: observe_desired_contract_def observe_writer_contract_transition_def delta_between_def Let_def)
  moreover have "insert_import_processing_contract desired st = Ok st"
    using assms(6) by (simp add: insert_import_processing_contract_def)
  ultimately show ?thesis
    using assms
    by (simp add: bootstrap_writer_barrier_def reconcile_writer_runtime_availability_def
        clear_writer_unsupported_transition_def public_writer_claims_admitted_def
        public_writer_admitted_def complete_online_writer_transition_def
        complete_online_writer_transition_with_product_def complete_in_transaction_def)
qed

subsection \<open>A concrete history\<close>

text \<open>
  A store on contract A with one running import: the transition to B is blocked, the import stops,
  the transition resumes.
\<close>

definition sample_ids :: id_functions where
  "sample_ids = \<lparr> digest_of = map char_of, task_id_of = concat \<rparr>"

definition contract_A :: processing_contract where
  "contract_A = \<lparr> pc_id = ''A'', pc_primary_parse_version = ''pdf-1'', pc_ocr_parse_version = ''ocr'',
     pc_derived_schema_version = ''d'', pc_classifier_epoch = ''c'' \<rparr>"

definition contract_B :: processing_contract where
  "contract_B = \<lparr> pc_id = ''B'', pc_primary_parse_version = ''pdf-2'', pc_ocr_parse_version = ''ocr'',
     pc_derived_schema_version = ''d'', pc_classifier_epoch = ''c'' \<rparr>"

definition sample_task :: "import_task_status \<Rightarrow> task_row" where
  "sample_task status = \<lparr> tk_id = ''t1'', tk_root_path = ''/r'', tk_status = status, tk_queued_at = 1,
     tk_updated_at = 1, tk_contract_id = ''A'', tk_cancelled_at = None \<rparr>"

definition sample_store :: writer_store where
  "sample_store = \<lparr> st_authority = fresh_authority, st_transitions = [], st_contracts = [contract_A],
     st_legacy_active = Some ''A'', st_service_state = ''ready'', st_generation = Some ''g'',
     st_visible_epoch = 1, st_authorized_roots = [''/r''],
     st_tasks = [sample_task import_task_status.Running], st_campaigns = [], st_pdf_jobs = [] \<rparr>"

definition blocked_store :: writer_store where
  "blocked_store = fst (complete_online_writer_transition sample_ids contract_B 10 sample_store)"

definition idle_store :: writer_store where
  "idle_store = blocked_store\<lparr> st_service_state := ''ready'', st_generation := Some ''g'',
     st_visible_epoch := 1, st_authorized_roots := [''/r''],
     st_tasks := [sample_task import_task_status.FailedRetryable], st_pdf_jobs := [] \<rparr>"

lemma blocked_store_reach: "reach writer_init (writer_step sample_ids) blocked_store"
proof -
  have "reach writer_init (writer_step sample_ids) sample_store"
    by (rule reach_init) (simp add: writer_init_def sample_store_def)
  then show ?thesis
    unfolding blocked_store_def complete_online_writer_transition_def
    by (rule reach_step) (rule ws_complete)
qed

lemma idle_store_reach: "reach writer_init (writer_step sample_ids) idle_store"
proof -
  have "writer_step sample_ids blocked_store idle_store"
    unfolding idle_store_def
    by (rule ws_other)
  then show ?thesis by (rule reach_step [OF blocked_store_reach])
qed

lemmas sample_simps = complete_online_writer_transition_def complete_online_writer_transition_with_product_def
  complete_in_transaction_def insert_import_processing_contract_def contract_in_store_def
  projection_is_ready_with_generation_def active_transition_row_def active_contract_def
  observe_writer_contract_transition_def delta_between_def running_count_def record_blocked_attempt_def
  begin_transition_def insert_transition_def set_authority_transitioning_def on_authority_def
  observed_row_def next_claim_fence_epoch_def sat_add64_def u64_max_def Let_def
  sample_store_def sample_task_def contract_A_def contract_B_def fresh_authority_def

lemma blocked_store_authority:
  "au_health_state (st_authority blocked_store) = authority_health.Transitioning"
  "st_contracts blocked_store = [contract_A, contract_B]"
  "st_service_state blocked_store = ''ready''" "st_generation blocked_store = Some ''g''"
  "au_committed_contract_id (st_authority blocked_store) = Some ''A''"
  "\<exists>row. active_transition_row blocked_store = Some row \<and> tr_target_contract_id row = ''B'' \<and>
     tr_source_contract_id row = Some ''A''"
  unfolding blocked_store_def by (simp_all add: sample_simps)

lemma idle_store_facts:
  "st_contracts idle_store = [contract_A, contract_B]"
  "projection_is_ready_with_generation idle_store"
  "active_transition_row idle_store = active_transition_row blocked_store"
  by (simp_all add: idle_store_def blocked_store_authority projection_is_ready_with_generation_def
      active_transition_row_def split: option.split)

lemma idle_store_can_commit: "can_commit sample_ids contract_B 20 idle_store"
  by (simp add: can_commit_def idle_store_def running_count_def replacement_roots_def sample_task_def
      stale_intent_def is_pending_def contract_B_def replacement_task_def sample_ids_def)

theorem published_writer_health_witness:
  "au_health_state (st_authority blocked_store) = authority_health.Transitioning \<and>
   valid_writer (writer_health_from_store (Ok (st_authority blocked_store)))"
  using published_writer_health_is_valid [OF blocked_store_reach] blocked_store_authority(1) by simp

lemma idle_store_row:
  obtains row where "active_transition_row idle_store = Some row"
    "tr_target_contract_id row = pc_id contract_B" "tr_source_contract_id row = Some ''A''"
  using blocked_store_authority(6) idle_store_facts(3) that by (auto simp: contract_B_def)

lemma idle_store_contracts:
  "contract_in_store idle_store (pc_id contract_B) = Some contract_B"
  "contract_in_store idle_store ''A'' = Some contract_A"
  "cd_strategy (delta_between (Some contract_A) contract_B) = PdfRootRescan"
  by (simp_all add: contract_in_store_def idle_store_facts(1) contract_A_def contract_B_def
      delta_between_def Let_def)

theorem committed_transition_witness:
  "public_writer_claims_admitted (fst (complete_online_writer_transition sample_ids contract_B 20 idle_store))"
proof -
  obtain row where row: "active_transition_row idle_store = Some row"
    "tr_target_contract_id row = pc_id contract_B" "tr_source_contract_id row = Some ''A''"
    by (rule idle_store_row)
  obtain st' where "complete_online_writer_transition sample_ids contract_B 20 idle_store =
      (st', Ok transition_outcome.TargetCommitted)"
    using resume_completes [OF writer.reach_inv [OF idle_store_reach] idle_store_facts(2)
        idle_store_contracts(1) row idle_store_contracts(2,3) idle_store_can_commit] by blast
  then show ?thesis
    using committed_transition_is_a_complete_cut [OF idle_store_reach] by simp
qed

theorem blocked_transition_witness:
  "\<exists>st'. complete_online_writer_transition sample_ids contract_B 20 idle_store =
     (st', Ok transition_outcome.TargetCommitted)"
proof -
  obtain row where row: "active_transition_row idle_store = Some row"
    "tr_target_contract_id row = pc_id contract_B" "tr_source_contract_id row = Some ''A''"
    by (rule idle_store_row)
  show ?thesis
    using blocked_transition_resumes [OF idle_store_reach idle_store_facts(2)
        idle_store_contracts(1) row idle_store_contracts(2,3) idle_store_can_commit] by blast
qed

theorem abandoned_transition_witness:
  "\<not> public_writer_claims_admitted
     (fst (bootstrap_writer_barrier sample_ids (\<lambda>c t s. (s, Ok Activated)) contract_A 30 blocked_store))"
proof -
  obtain row where row: "active_transition_row blocked_store = Some row" "tr_target_contract_id row = ''B''"
    using blocked_store_authority(6) by auto
  have "active_contract blocked_store = Some contract_A"
    "contract_in_store blocked_store (pc_id contract_A) = Some contract_A"
    by (simp_all add: active_contract_def contract_in_store_def blocked_store_authority contract_A_def)
  then show ?thesis
    using abandoned_transition_keeps_the_fence [OF blocked_store_authority(1) row(1), of contract_A contract_A
        sample_ids "\<lambda>c t s. (s, Ok Activated)" 30] row(2)
    by (auto simp: projection_is_ready_with_generation_def blocked_store_authority contract_A_def Let_def
        split: prod.splits)
qed

end
