(* ===== verification/ControlPlane.thy ===== *)
theory ControlPlane
  imports PublicationTheorems WriterTransition ResidentOwner
begin

text \<open>
  The control plane of the daemon (\<open>crates/daemon/src/ipc/runtime_state.rs\<close>, \<open>status_updater.rs\<close>,
  \<open>runtime_health.rs\<close>, \<open>routes/status.rs\<close>, \<open>diagnostics.rs\<close>, and the calls of \<open>bootstrap.rs\<close> and
  \<open>server.rs\<close>): the cached snapshot that authorises requests and that the status and diagnostics
  routes show.  It is composed with the publication store and the writer authority, whose steps happen
  between its reads.  Of the two bodies the health document and the visible epoch are modelled; the
  counters they also show are not.
\<close>

section \<open>Snapshots\<close>

record diagnostics_body =
  db_error :: "core_error option"
  db_visible_epoch :: "nat option"
  db_core :: core_health
  db_runtimes :: optional_runtime_matrix
  db_writer :: writer_health
  db_capabilities :: capability_matrix

record status_body = diagnostics_body +
  sb_status :: status_state

record ControlPlaneSnapshot =
  sn_core :: core_health
  sn_runtimes :: optional_runtime_matrix
  sn_writer :: writer_health
  sn_capabilities :: capability_matrix
  sn_status :: status_body
  sn_diagnostics :: diagnostics_body

definition render_status ::
  "nat option \<Rightarrow> core_health \<Rightarrow> optional_runtime_matrix \<Rightarrow> writer_health \<Rightarrow> capability_matrix \<Rightarrow> status_body" where
  "render_status epoch core runtimes writer capabilities =
     \<lparr> db_error = error_for_core core, db_visible_epoch = epoch, db_core = core, db_runtimes = runtimes,
       db_writer = writer, db_capabilities = capabilities, sb_status = core_status core \<rparr>"

definition render_diagnostics ::
  "nat option \<Rightarrow> core_health \<Rightarrow> optional_runtime_matrix \<Rightarrow> writer_health \<Rightarrow> capability_matrix \<Rightarrow> diagnostics_body" where
  "render_diagnostics epoch core runtimes writer capabilities =
     \<lparr> db_error = error_for_core core, db_visible_epoch = epoch, db_core = core, db_runtimes = runtimes,
       db_writer = writer, db_capabilities = capabilities \<rparr>"

definition snapshot_without_store :: "core_health \<Rightarrow> optional_runtime_matrix \<Rightarrow> ControlPlaneSnapshot" where
  "snapshot_without_store core runtimes =
     (let writer = writer_ready; capabilities = derive core runtimes writer
      in \<lparr> sn_core = core, sn_runtimes = runtimes, sn_writer = writer, sn_capabilities = capabilities,
           sn_status = render_status None core runtimes writer capabilities,
           sn_diagnostics = render_diagnostics None core runtimes writer capabilities \<rparr>)"

definition snapshot_from_fallible_source ::
  "optional_runtime_matrix \<Rightarrow> (unit, core_health) result \<Rightarrow> (unit, writer_health) result \<Rightarrow>
   (core_health \<Rightarrow> writer_health \<Rightarrow> capability_matrix \<Rightarrow> (unit, status_body) result) \<Rightarrow>
   (core_health \<Rightarrow> writer_health \<Rightarrow> capability_matrix \<Rightarrow> (unit, diagnostics_body) result) \<Rightarrow> ControlPlaneSnapshot" where
  "snapshot_from_fallible_source runtimes read_core read_writer status_of diagnostics_of =
     (let loaded = rbind read_core (\<lambda>core. rbind read_writer (\<lambda>writer.
            let capabilities = derive core runtimes writer
            in rbind (status_of core writer capabilities) (\<lambda>status.
               rbind (diagnostics_of core writer capabilities) (\<lambda>diagnostics.
                 Ok \<lparr> sn_core = core, sn_runtimes = runtimes, sn_writer = writer, sn_capabilities = capabilities,
                      sn_status = status, sn_diagnostics = diagnostics \<rparr>))))
      in case loaded of
           Ok snapshot \<Rightarrow> snapshot
         | Err _ \<Rightarrow> snapshot_without_store
             \<lparr> ch_state = core_state.Degraded, ch_reason = Some core_reason.MetadataUnavailable \<rparr> runtimes)"

section \<open>Reading the store\<close>

text \<open>A read of the store meets a state of it, or fails with a class of error.\<close>

type_synonym store_read = "(meta_store_error_class, pub_store) result"

fun core_reason_of :: "search_repair_reason \<Rightarrow> core_reason" where
  "core_reason_of search_repair_reason.MigrationRebuild = core_reason.MigrationRebuild"
| "core_reason_of search_repair_reason.ArtifactUnavailable = core_reason.ArtifactUnavailable"
| "core_reason_of search_repair_reason.SourceUnavailable = core_reason.SourceUnavailable"
| "core_reason_of search_repair_reason.RuntimeInvariant = core_reason.RuntimeInvariant"

definition search_projection_state_of ::
  "(store_failure \<Rightarrow> meta_store_error_class) \<Rightarrow> hash \<Rightarrow> store_read \<Rightarrow> (meta_store_error_class, search_projection_state) result" where
  "search_projection_state_of cls sha r = rbind r (\<lambda>s. map_err cls (read_projection_state sha s))"

definition core_health_from_store ::
  "(store_failure \<Rightarrow> meta_store_error_class) \<Rightarrow> hash \<Rightarrow> store_read \<Rightarrow> (meta_store_error_class, core_health) result" where
  "core_health_from_store cls sha r =
     rbind (search_projection_state_of cls sha r) (\<lambda>projection.
       let reason = map_option core_reason_of (sps_reason projection)
       in Ok (case sps_service projection of
                ServiceReady \<Rightarrow> \<lparr> ch_state = core_state.Ready, ch_reason = None \<rparr>
              | ServiceRepairing \<Rightarrow> \<lparr> ch_state = core_state.Repairing, ch_reason = reason \<rparr>
              | ServiceRepairBlocked \<Rightarrow> \<lparr> ch_state = core_state.Blocked,
                  ch_reason = (case reason of None \<Rightarrow> Some core_reason.RuntimeInvariant | Some c \<Rightarrow> Some c) \<rparr>))"

definition status_json_once ::
  "(store_failure \<Rightarrow> meta_store_error_class) \<Rightarrow> hash \<Rightarrow> store_read \<Rightarrow> core_health \<Rightarrow> optional_runtime_matrix \<Rightarrow>
   writer_health \<Rightarrow> capability_matrix \<Rightarrow> (meta_store_error_class, status_body) result" where
  "status_json_once cls sha r core runtimes writer capabilities =
     rbind (search_projection_state_of cls sha r) (\<lambda>projection.
       Ok (render_status (Some (sps_epoch projection)) core runtimes writer capabilities))"

definition diagnostics_render_available ::
  "(store_failure \<Rightarrow> meta_store_error_class) \<Rightarrow> hash \<Rightarrow> store_read \<Rightarrow> core_health \<Rightarrow> optional_runtime_matrix \<Rightarrow>
   writer_health \<Rightarrow> capability_matrix \<Rightarrow> (meta_store_error_class, diagnostics_body) result" where
  "diagnostics_render_available cls sha r core runtimes writer capabilities =
     rbind (search_projection_state_of cls sha r) (\<lambda>projection.
       Ok (render_diagnostics (Some (sps_epoch projection)) core runtimes writer capabilities))"

definition IPC_METADATA_READ_ATTEMPTS :: nat where
  "IPC_METADATA_READ_ATTEMPTS = 40"

text \<open>The attempts are numbered from one; only a storage error is tried again.\<close>

function retry_from :: "(nat \<Rightarrow> (meta_store_error_class, 'a) result) \<Rightarrow> nat \<Rightarrow> (meta_store_error_class, 'a) result" where
  "retry_from read attempt =
     (case read attempt of
        Ok v \<Rightarrow> Ok v
      | Err e \<Rightarrow> if e = Storage \<and> attempt < IPC_METADATA_READ_ATTEMPTS then retry_from read (attempt + 1) else Err e)"
  by pat_completeness auto
termination
  by (relation "measure (\<lambda>(read, attempt). IPC_METADATA_READ_ATTEMPTS - attempt)") auto

declare retry_from.simps [simp del]

definition retry_metadata_read :: "(nat \<Rightarrow> (meta_store_error_class, 'a) result) \<Rightarrow> (meta_store_error_class, 'a) result" where
  "retry_metadata_read read = retry_from read 1"

text \<open>What the reads of one snapshot meet: the projection, the writer authority, the attempts of the
  status document and the diagnostics document.\<close>

record store_reads =
  rd_core :: store_read
  rd_writer :: "(store_error, authority_row) result"
  rd_status :: "nat \<Rightarrow> store_read"
  rd_diagnostics :: store_read

definition snapshot_from_store ::
  "(store_failure \<Rightarrow> meta_store_error_class) \<Rightarrow> hash \<Rightarrow> store_reads \<Rightarrow> optional_runtime_matrix \<Rightarrow> ControlPlaneSnapshot" where
  "snapshot_from_store cls sha reads runtimes =
     snapshot_from_fallible_source runtimes
       (map_err (\<lambda>_. ()) (core_health_from_store cls sha (rd_core reads)))
       (Ok (writer_health_from_store (rd_writer reads)))
       (\<lambda>core writer capabilities. map_err (\<lambda>_. ())
          (retry_metadata_read (\<lambda>n. status_json_once cls sha (rd_status reads n) core runtimes writer capabilities)))
       (\<lambda>core writer capabilities. map_err (\<lambda>_. ())
          (diagnostics_render_available cls sha (rd_diagnostics reads) core runtimes writer capabilities))"

datatype ServiceErrorCode = RepairingError | QueryServiceUnavailable | MetadataUnavailableError

fun projection_query_error :: "service_state option \<Rightarrow> ServiceErrorCode option" where
  "projection_query_error (Some ServiceReady) = None"
| "projection_query_error (Some ServiceRepairing) = Some RepairingError"
| "projection_query_error (Some ServiceRepairBlocked) = Some QueryServiceUnavailable"
| "projection_query_error None = Some MetadataUnavailableError"

definition query_service_error ::
  "(store_failure \<Rightarrow> meta_store_error_class) \<Rightarrow> hash \<Rightarrow> store_read \<Rightarrow> ServiceErrorCode option" where
  "query_service_error cls sha r =
     (case search_projection_state_of cls sha r of
        Ok state \<Rightarrow> projection_query_error (Some (sps_service state))
      | Err _ \<Rightarrow> projection_query_error None)"

section \<open>The publisher\<close>

datatype RuntimeOwnerStage = Initializing | Serving | Blocked

datatype daemon_fatal = ControlPlaneFailure

text \<open>The shared snapshot and its single writer; \<open>worker_alive\<close> is whether the thread that replaces
  the snapshot still receives.\<close>

record control_plane =
  visible :: ControlPlaneSnapshot
  current :: ControlPlaneSnapshot
  prepared_serving :: "ControlPlaneSnapshot option"
  stage :: RuntimeOwnerStage
  worker_alive :: bool

definition initializing :: control_plane where
  "initializing =
     (let initial = snapshot_without_store core_initializing runtimes_initializing
      in \<lparr> visible = initial, current = initial, prepared_serving = None, stage = Initializing, worker_alive = True \<rparr>)"

definition publish :: "ControlPlaneSnapshot \<Rightarrow> control_plane \<Rightarrow> (daemon_fatal, unit) result \<times> control_plane" where
  "publish snapshot c =
     (if worker_alive c then (Ok (), c\<lparr>visible := snapshot, current := snapshot\<rparr>) else (Err ControlPlaneFailure, c))"

definition set_runtimes :: "optional_runtime_matrix \<Rightarrow> control_plane \<Rightarrow> (daemon_fatal, unit) result \<times> control_plane" where
  "set_runtimes runtimes c = publish (snapshot_without_store (sn_core (current c)) runtimes) c"

definition mark_migrating :: "control_plane \<Rightarrow> (daemon_fatal, unit) result \<times> control_plane" where
  "mark_migrating c = publish (snapshot_without_store core_migrating (sn_runtimes (current c))) c"

definition mark_blocked_with_runtimes ::
  "core_reason \<Rightarrow> optional_runtime_matrix \<Rightarrow> control_plane \<Rightarrow> (daemon_fatal, unit) result \<times> control_plane" where
  "mark_blocked_with_runtimes reason runtimes c =
     publish (snapshot_without_store (core_blocked reason) runtimes) (c\<lparr>prepared_serving := None, stage := Blocked\<rparr>)"

definition mark_blocked :: "core_reason \<Rightarrow> control_plane \<Rightarrow> (daemon_fatal, unit) result \<times> control_plane" where
  "mark_blocked reason c = mark_blocked_with_runtimes reason (sn_runtimes (current c)) c"

definition prepare_from_store ::
  "(store_failure \<Rightarrow> meta_store_error_class) \<Rightarrow> hash \<Rightarrow> store_reads \<Rightarrow> control_plane \<Rightarrow> control_plane" where
  "prepare_from_store cls sha reads c =
     c\<lparr>prepared_serving := Some (snapshot_from_store cls sha reads (sn_runtimes (current c)))\<rparr>"

definition owner_stage :: "core_health \<Rightarrow> RuntimeOwnerStage" where
  "owner_stage core =
     (case ch_state core of
        core_state.Ready \<Rightarrow> Serving
      | core_state.Initializing \<Rightarrow> Initializing
      | core_state.Migrating \<Rightarrow> Initializing
      | core_state.Repairing \<Rightarrow> Initializing
      | core_state.Degraded \<Rightarrow> Blocked
      | core_state.Blocked \<Rightarrow> Blocked)"

definition publish_prepared_serving :: "control_plane \<Rightarrow> (daemon_fatal, unit) result \<times> control_plane" where
  "publish_prepared_serving c =
     (case prepared_serving c of
        None \<Rightarrow> (Err ControlPlaneFailure, c)
      | Some snapshot \<Rightarrow> publish snapshot (c\<lparr>prepared_serving := None, stage := owner_stage (sn_core snapshot)\<rparr>))"

definition refresh_from_store_with_runtimes ::
  "(store_failure \<Rightarrow> meta_store_error_class) \<Rightarrow> hash \<Rightarrow> store_reads \<Rightarrow> optional_runtime_matrix \<Rightarrow> control_plane \<Rightarrow>
   (daemon_fatal, unit) result \<times> control_plane" where
  "refresh_from_store_with_runtimes cls sha reads runtimes c =
     (let snapshot = snapshot_from_store cls sha reads runtimes
      in publish snapshot (c\<lparr>stage := owner_stage (sn_core snapshot)\<rparr>))"

text \<open>The reason for which a failed start blocks the core; the argument is the class of the store
  error, for an error of the store.\<close>

definition core_block_reason :: "meta_store_error_class option \<Rightarrow> core_reason" where
  "core_block_reason kind =
     (if kind = Some meta_store_error_class.UnsupportedStoreSchema then core_reason.UnsupportedStoreSchema
      else core_reason.RuntimeInvariant)"

section \<open>The status updater\<close>

datatype RuntimeHealthUpdate = OcrUpdate optional_runtime_health | PdfiumUpdate optional_runtime_health

definition ocr_unavailable :: "optional_runtime_reason \<Rightarrow> RuntimeHealthUpdate" where
  "ocr_unavailable reason = OcrUpdate (runtime_unavailable reason)"

definition pdfium_unavailable :: "optional_runtime_reason \<Rightarrow> RuntimeHealthUpdate" where
  "pdfium_unavailable reason = PdfiumUpdate (runtime_unavailable reason)"

text \<open>The updates are those the channel holds until it is empty; no receiver is no update.\<close>

fun merge_runtime_health_updates :: "optional_runtime_matrix \<Rightarrow> RuntimeHealthUpdate list \<Rightarrow> optional_runtime_matrix" where
  "merge_runtime_health_updates runtimes [] = runtimes"
| "merge_runtime_health_updates runtimes (OcrUpdate health # us) = merge_runtime_health_updates (runtimes\<lparr>rt_ocr := health\<rparr>) us"
| "merge_runtime_health_updates runtimes (PdfiumUpdate health # us) = merge_runtime_health_updates (runtimes\<lparr>rt_pdfium := health\<rparr>) us"

definition embedding_health :: "ResidentEmbeddingStatus \<Rightarrow> optional_runtime_health" where
  "embedding_health status =
     (case status of
        ResidentEmbeddingStatus.Ready \<Rightarrow> runtime_available
      | _ \<Rightarrow> runtime_unavailable StartFailed)"

definition updater_runtimes ::
  "optional_runtime_matrix \<Rightarrow> RuntimeHealthUpdate list \<Rightarrow> ResidentEmbeddingStatus option \<Rightarrow> optional_runtime_matrix" where
  "updater_runtimes runtimes updates embedding =
     (let merged = merge_runtime_health_updates runtimes updates
      in case embedding of None \<Rightarrow> merged | Some status \<Rightarrow> merged\<lparr>rt_embedding := embedding_health status\<rparr>)"

text \<open>One pass of the loop of \<open>StatusUpdater::start\<close>; \<open>opened\<close> is whether the metadata reader is open or
  opens in this pass.\<close>

definition updater_pass ::
  "(store_failure \<Rightarrow> meta_store_error_class) \<Rightarrow> hash \<Rightarrow> bool \<Rightarrow> store_reads \<Rightarrow> optional_runtime_matrix \<Rightarrow> control_plane \<Rightarrow>
   (daemon_fatal, unit) result \<times> control_plane" where
  "updater_pass cls sha opened reads runtimes c =
     (if opened then refresh_from_store_with_runtimes cls sha reads runtimes c
      else mark_blocked_with_runtimes core_reason.MetadataUnavailable runtimes c)"

section \<open>The daemon\<close>

text \<open>The daemon starts on the stores it finds, serves the control routes while it starts, hands over
  to the full routes or stays with the control routes, and then refreshes the snapshot until it
  stops (\<open>bootstrap.rs\<close>, \<open>server.rs\<close>).  \<open>dm_boot\<close> is the publication store the daemon found.\<close>

datatype daemon_phase = Bootstrapping | HandingOver | FullRoutes | ControlOnly

record daemon =
  dm_boot :: world
  dm_world :: world
  dm_authority :: writer_store
  dm_phase :: daemon_phase
  dm_control :: control_plane
  dm_runtimes :: optional_runtime_matrix

definition valid_runtimes :: "optional_runtime_matrix \<Rightarrow> bool" where
  "valid_runtimes runtimes \<longleftrightarrow>
     list_all valid_runtime [rt_embedding runtimes, rt_ocr runtimes, rt_classifier runtimes, rt_pdfium runtimes]"

text \<open>A read may meet any state the store went through during the operation.\<close>

definition read_between :: "hash \<Rightarrow> world \<Rightarrow> world \<Rightarrow> store_read \<Rightarrow> bool" where
  "read_between sha w w' r \<longleftrightarrow>
     (case r of Err _ \<Rightarrow> True | Ok s \<Rightarrow> \<exists>v. (pub_step sha)\<^sup>*\<^sup>* w v \<and> (pub_step sha)\<^sup>*\<^sup>* v w' \<and> s = w_store v)"

definition authority_between ::
  "id_functions \<Rightarrow> writer_store \<Rightarrow> writer_store \<Rightarrow> (store_error, authority_row) result \<Rightarrow> bool" where
  "authority_between ids st st' r \<longleftrightarrow>
     (case r of Err _ \<Rightarrow> True
      | Ok a \<Rightarrow> \<exists>u. (writer_step ids)\<^sup>*\<^sup>* st u \<and> (writer_step ids)\<^sup>*\<^sup>* u st' \<and> a = st_authority u)"

definition reads_between :: "hash \<Rightarrow> id_functions \<Rightarrow> daemon \<Rightarrow> world \<Rightarrow> writer_store \<Rightarrow> store_reads \<Rightarrow> bool" where
  "reads_between sha ids d w st reads \<longleftrightarrow>
     (pub_step sha)\<^sup>*\<^sup>* (dm_world d) w \<and> (writer_step ids)\<^sup>*\<^sup>* (dm_authority d) st \<and>
     read_between sha (dm_world d) w (rd_core reads) \<and> authority_between ids (dm_authority d) st (rd_writer reads) \<and>
     (\<forall>n. read_between sha (dm_world d) w (rd_status reads n)) \<and> read_between sha (dm_world d) w (rd_diagnostics reads)"

definition daemon_init :: "hash \<Rightarrow> id_functions \<Rightarrow> daemon \<Rightarrow> bool" where
  "daemon_init sha ids d \<longleftrightarrow>
     reach initial_world (pub_step sha) (dm_boot d) \<and> dm_world d = dm_boot d \<and>
     reach writer_init (writer_step ids) (dm_authority d) \<and> dm_phase d = Bootstrapping \<and>
     dm_control d = initializing \<and> dm_runtimes d = runtimes_initializing"

inductive daemon_step ::
  "(store_failure \<Rightarrow> meta_store_error_class) \<Rightarrow> hash \<Rightarrow> id_functions \<Rightarrow> daemon \<Rightarrow> daemon \<Rightarrow> bool" for cls sha ids where
  ds_store: "pub_step sha (dm_world d) w \<Longrightarrow> daemon_step cls sha ids d (d\<lparr>dm_world := w\<rparr>)"
| ds_authority: "writer_step ids (dm_authority d) st \<Longrightarrow> daemon_step cls sha ids d (d\<lparr>dm_authority := st\<rparr>)"
| ds_worker_lost: "daemon_step cls sha ids d (d\<lparr>dm_control := (dm_control d)\<lparr>worker_alive := False\<rparr>\<rparr>)"
| ds_runtimes:
    "dm_phase d = Bootstrapping \<Longrightarrow> valid_runtimes runtimes \<Longrightarrow> set_runtimes runtimes (dm_control d) = (r, c) \<Longrightarrow>
     daemon_step cls sha ids d (d\<lparr>dm_control := c\<rparr>)"
| ds_migrating:
    "dm_phase d = Bootstrapping \<Longrightarrow> mark_migrating (dm_control d) = (r, c) \<Longrightarrow> daemon_step cls sha ids d (d\<lparr>dm_control := c\<rparr>)"
| ds_start_failed:
    "dm_phase d = Bootstrapping \<Longrightarrow> mark_blocked (core_block_reason kind) (dm_control d) = (r, c) \<Longrightarrow>
     daemon_step cls sha ids d (d\<lparr>dm_control := c, dm_phase := ControlOnly\<rparr>)"
| ds_prepare:
    "dm_phase d = Bootstrapping \<Longrightarrow> reads_between sha ids d w st reads \<Longrightarrow>
     daemon_step cls sha ids d (d\<lparr>dm_world := w, dm_authority := st, dm_phase := HandingOver,
       dm_control := prepare_from_store cls sha reads (dm_control d)\<rparr>)"
| ds_handover_failed:
    "dm_phase d = HandingOver \<Longrightarrow> reason \<in> {core_reason.MetadataUnavailable, core_reason.ArtifactUnavailable} \<Longrightarrow>
     mark_blocked_with_runtimes reason (sn_runtimes (visible (dm_control d))) (dm_control d) = (r, c) \<Longrightarrow>
     daemon_step cls sha ids d (d\<lparr>dm_control := c, dm_phase := ControlOnly\<rparr>)"
| ds_serve:
    "dm_phase d = HandingOver \<Longrightarrow> publish_prepared_serving (dm_control d) = (Ok (), c) \<Longrightarrow>
     daemon_step cls sha ids d (d\<lparr>dm_control := c, dm_phase := FullRoutes, dm_runtimes := sn_runtimes (visible c)\<rparr>)"
| ds_update:
    "dm_phase d = FullRoutes \<Longrightarrow> reads_between sha ids d w st reads \<Longrightarrow>
     set sent \<subseteq> range ocr_unavailable \<union> range pdfium_unavailable \<Longrightarrow>
     runtimes = updater_runtimes (dm_runtimes d) sent embedding \<Longrightarrow>
     updater_pass cls sha opened reads runtimes (dm_control d) = (r, c) \<Longrightarrow>
     daemon_step cls sha ids d (d\<lparr>dm_world := w, dm_authority := st, dm_control := c, dm_runtimes := runtimes\<rparr>)"

section \<open>What a snapshot says\<close>

text \<open>A snapshot is justified by a run from one store to another: it is well-formed, and when its
  core is ready some store of the run had a ready head.\<close>

definition justified :: "hash \<Rightarrow> world \<Rightarrow> world \<Rightarrow> ControlPlaneSnapshot \<Rightarrow> bool" where
  "justified sha w0 w s \<longleftrightarrow>
     valid_core (sn_core s) \<and> valid_writer (sn_writer s) \<and> valid_runtimes (sn_runtimes s) \<and>
     sn_capabilities s = derive (sn_core s) (sn_runtimes s) (sn_writer s) \<and>
     (\<exists>e. sn_status s = render_status e (sn_core s) (sn_runtimes s) (sn_writer s) (sn_capabilities s)) \<and>
     (\<exists>e. sn_diagnostics s = render_diagnostics e (sn_core s) (sn_runtimes s) (sn_writer s) (sn_capabilities s)) \<and>
     (ch_state (sn_core s) = core_state.Ready \<longrightarrow>
        (\<exists>v. (pub_step sha)\<^sup>*\<^sup>* w0 v \<and> (pub_step sha)\<^sup>*\<^sup>* v w \<and> hr_service (ps_head (w_store v)) = ServiceReady))"

lemma justified_later: "justified sha w0 w s \<Longrightarrow> (pub_step sha)\<^sup>*\<^sup>* w w' \<Longrightarrow> justified sha w0 w' s"
  by (auto simp: justified_def intro: rtranclp_trans)

lemma valid_writer_ready: "valid_writer writer_ready"
  by (simp add: valid_writer_def writer_ready_def)

lemma valid_core_simps [simp]:
  "valid_core core_initializing" "valid_core core_migrating"
  "valid_core \<lparr> ch_state = core_state.Degraded, ch_reason = Some core_reason.MetadataUnavailable \<rparr>"
  "valid_core (core_blocked (core_block_reason kind))"
  "valid_core (core_blocked core_reason.MetadataUnavailable)" "valid_core (core_blocked core_reason.ArtifactUnavailable)"
  by (simp_all add: valid_core_def core_initializing_def core_migrating_def core_blocked_def core_block_reason_def)

lemma core_not_ready [simp]:
  "ch_state core_initializing \<noteq> core_state.Ready" "ch_state core_migrating \<noteq> core_state.Ready"
  "ch_state (core_blocked reason) \<noteq> core_state.Ready"
  by (simp_all add: core_initializing_def core_migrating_def core_blocked_def)

lemma without_store_justified:
  assumes "valid_core core" "valid_runtimes runtimes"
    and "ch_state core = core_state.Ready \<Longrightarrow>
      \<exists>v. (pub_step sha)\<^sup>*\<^sup>* w0 v \<and> (pub_step sha)\<^sup>*\<^sup>* v w \<and> hr_service (ps_head (w_store v)) = ServiceReady"
  shows "justified sha w0 w (snapshot_without_store core runtimes)"
  using assms by (auto simp: justified_def snapshot_without_store_def Let_def valid_writer_ready)

text \<open>In a store that satisfies the invariant of the publication protocol the projection can be read.\<close>

lemma projection_readable:
  assumes "store_inv sha s"
  shows "\<exists>p. read_projection_state sha s =
    Ok \<lparr> sps_service = hr_service (ps_head s), sps_generation = hr_generation (ps_head s), sps_epoch = hr_epoch (ps_head s),
      sps_reason = hr_reason (ps_head s), sps_publication = p, sps_updated_at = hr_updated_at (ps_head s) \<rparr>"
proof (cases "hr_generation (ps_head s)")
  case None
  moreover have "hr_service (ps_head s) \<noteq> ServiceReady"
    using None assms by (auto simp: store_inv_def tables_inv_def head_inv_def head_admissible_def)
  ultimately show ?thesis by (simp add: read_projection_state_def Let_def)
next
  case (Some g)
  obtain j where j: "journal_row_of s g = Some j" "pub_state (jr_publication j) = search_publication_state.Ready"
    using head_row_ready [OF assms Some] by blast
  have "search_publication_in_connection sha s g = Ok (Some (jr_publication j))"
    by (rule search_publication_readable [OF inv_journal(1) [OF assms] j(1)])
  then show ?thesis using Some j(2)
    by (cases "hr_service (ps_head s) \<noteq> ServiceReady \<and> exact_context s g (hr_epoch (ps_head s))")
      (auto simp: read_projection_state_def Let_def)
qed

lemma core_health_valid:
  assumes "store_inv sha s" "core_health_from_store cls sha (Ok s) = Ok core"
  shows "valid_core core" "ch_state core = core_state.Ready \<longleftrightarrow> hr_service (ps_head s) = ServiceReady"
proof -
  have adm: "head_admissible (ps_head s)" using assms(1) by (simp add: store_inv_def tables_inv_def head_inv_def)
  obtain p where "read_projection_state sha s =
    Ok \<lparr> sps_service = hr_service (ps_head s), sps_generation = hr_generation (ps_head s), sps_epoch = hr_epoch (ps_head s),
      sps_reason = hr_reason (ps_head s), sps_publication = p, sps_updated_at = hr_updated_at (ps_head s) \<rparr>"
    using projection_readable [OF assms(1)] by blast
  then have core: "core = (case hr_service (ps_head s) of
      ServiceReady \<Rightarrow> \<lparr> ch_state = core_state.Ready, ch_reason = None \<rparr>
    | ServiceRepairing \<Rightarrow> \<lparr> ch_state = core_state.Repairing, ch_reason = map_option core_reason_of (hr_reason (ps_head s)) \<rparr>
    | ServiceRepairBlocked \<Rightarrow> \<lparr> ch_state = core_state.Blocked,
        ch_reason = (case map_option core_reason_of (hr_reason (ps_head s)) of
          None \<Rightarrow> Some core_reason.RuntimeInvariant | Some c \<Rightarrow> Some c) \<rparr>)"
    using assms(2)
    by (cases "hr_service (ps_head s)") (simp_all add: core_health_from_store_def search_projection_state_of_def Let_def)
  show "valid_core core" using adm by (auto simp: core valid_core_def head_admissible_def split: service_state.splits)
  show "ch_state core = core_state.Ready \<longleftrightarrow> hr_service (ps_head s) = ServiceReady"
    by (simp add: core split: service_state.splits)
qed

lemma reads_inv:
  assumes "(pub_step sha)\<^sup>*\<^sup>* w0 (dm_world d)" "world_inv sha w0" "winv (dm_authority d)" "reads_between sha ids d w st reads"
  shows "(pub_step sha)\<^sup>*\<^sup>* w0 w" "winv st"
    "rd_core reads = Ok s \<Longrightarrow> store_inv sha s \<and> (\<exists>v. (pub_step sha)\<^sup>*\<^sup>* w0 v \<and> (pub_step sha)\<^sup>*\<^sup>* v w \<and> s = w_store v)"
    "valid_writer (writer_health_from_store (rd_writer reads))"
proof -
  note b = assms(4) [unfolded reads_between_def]
  show "(pub_step sha)\<^sup>*\<^sup>* w0 w" using assms(1) b by (meson rtranclp_trans)
  show "winv st" using writer.steps_inv [OF assms(3)] b by blast
  show "store_inv sha s \<and> (\<exists>v. (pub_step sha)\<^sup>*\<^sup>* w0 v \<and> (pub_step sha)\<^sup>*\<^sup>* v w \<and> s = w_store v)" if core: "rd_core reads = Ok s"
  proof -
    have "read_between sha (dm_world d) w (rd_core reads)" using b by blast
    then obtain v where v: "(pub_step sha)\<^sup>*\<^sup>* (dm_world d) v" "(pub_step sha)\<^sup>*\<^sup>* v w" "s = w_store v"
      unfolding read_between_def core by auto
    have v0: "(pub_step sha)\<^sup>*\<^sup>* w0 v" using assms(1) v(1) by (rule rtranclp_trans)
    have "world_inv sha v" by (rule publication.steps_inv [OF assms(2) v0])
    then show ?thesis using v v0 by (auto simp: world_inv_def)
  qed
  show "valid_writer (writer_health_from_store (rd_writer reads))"
  proof (cases "rd_writer reads")
    case (Inl e)
    then show ?thesis by (simp add: writer_health_from_store_def valid_writer_def writer_unavailable_def)
  next
    case (Inr a)
    have "authority_between ids (dm_authority d) st (rd_writer reads)" using b by blast
    then obtain u where u: "(writer_step ids)\<^sup>*\<^sup>* (dm_authority d) u" "a = st_authority u"
      unfolding authority_between_def Inr by auto
    have "winv u" by (rule writer.steps_inv [OF assms(3) u(1)])
    then show ?thesis unfolding Inr u(2) by (rule winv_health_valid)
  qed
qed

lemma retry_from_Ok:
  "retry_from read attempt = Ok v \<Longrightarrow> \<exists>n. read n = Ok v"
proof (induction read attempt rule: retry_from.induct)
  case (1 read attempt)
  then show ?case by (cases "read attempt") (auto simp: retry_from.simps [of read attempt] split: if_splits)
qed

lemma from_store_cases:
  obtains (loaded) core e e' where "core_health_from_store cls sha (rd_core reads) = Ok core"
      "snapshot_from_store cls sha reads runtimes =
        (let writer = writer_health_from_store (rd_writer reads); capabilities = derive core runtimes writer
         in \<lparr> sn_core = core, sn_runtimes = runtimes, sn_writer = writer, sn_capabilities = capabilities,
              sn_status = render_status e core runtimes writer capabilities,
              sn_diagnostics = render_diagnostics e' core runtimes writer capabilities \<rparr>)"
    | (failed) "snapshot_from_store cls sha reads runtimes = snapshot_without_store
        \<lparr> ch_state = core_state.Degraded, ch_reason = Some core_reason.MetadataUnavailable \<rparr> runtimes"
proof -
  let ?w = "writer_health_from_store (rd_writer reads)"
  show ?thesis
  proof (cases "core_health_from_store cls sha (rd_core reads)")
    case (Inl e)
    then show ?thesis using failed by (simp add: snapshot_from_store_def snapshot_from_fallible_source_def)
  next
    case core: (Inr core)
    let ?caps = "derive core runtimes ?w"
    let ?status = "retry_metadata_read (\<lambda>n. status_json_once cls sha (rd_status reads n) core runtimes ?w ?caps)"
    let ?diag = "diagnostics_render_available cls sha (rd_diagnostics reads) core runtimes ?w ?caps"
    show ?thesis
    proof (cases "(\<exists>s. ?status = Ok s) \<and> (\<exists>g. ?diag = Ok g)")
      case True
      then obtain s g where sg: "?status = Ok s" "?diag = Ok g" by blast
      obtain n where "status_json_once cls sha (rd_status reads n) core runtimes ?w ?caps = Ok s"
        using retry_from_Ok [OF sg(1) [unfolded retry_metadata_read_def]] by blast
      then obtain e where e: "s = render_status e core runtimes ?w ?caps"
        by (auto simp: status_json_once_def rbind_eq_Inr)
      obtain e' where e': "g = render_diagnostics e' core runtimes ?w ?caps"
        using sg(2) by (auto simp: diagnostics_render_available_def rbind_eq_Inr)
      show ?thesis by (rule loaded [OF core, of e e'])
          (use core sg e e' in \<open>simp add: snapshot_from_store_def snapshot_from_fallible_source_def Let_def\<close>)
    next
      case False
      then show ?thesis using failed core
        by (cases ?status; cases ?diag) (auto simp: snapshot_from_store_def snapshot_from_fallible_source_def Let_def)
    qed
  qed
qed

lemma from_store_justified:
  assumes "(pub_step sha)\<^sup>*\<^sup>* w0 (dm_world d)" "world_inv sha w0" "winv (dm_authority d)" "reads_between sha ids d w st reads"
    and "valid_runtimes runtimes"
  shows "justified sha w0 w (snapshot_from_store cls sha reads runtimes)"
proof (cases rule: from_store_cases [of cls sha reads runtimes])
  case (loaded core e e')
  note r = reads_inv [OF assms(1-4)]
  from loaded(1) obtain s where s: "rd_core reads = Ok s"
    by (cases "rd_core reads") (auto simp: core_health_from_store_def search_projection_state_of_def)
  then obtain v where v: "store_inv sha s" "(pub_step sha)\<^sup>*\<^sup>* w0 v" "(pub_step sha)\<^sup>*\<^sup>* v w" "s = w_store v"
    using r(3) by blast
  note core = core_health_valid [OF v(1) loaded(1) [unfolded s]]
  show ?thesis using loaded(2) core v(2-4) r(4) assms(5) by (auto simp: justified_def Let_def)
qed (auto intro!: without_store_justified simp: assms(5))

section \<open>The snapshot is always justified\<close>

definition control_ok :: "hash \<Rightarrow> world \<Rightarrow> world \<Rightarrow> control_plane \<Rightarrow> bool" where
  "control_ok sha w0 w c \<longleftrightarrow> current c = visible c \<and> justified sha w0 w (visible c) \<and>
     (\<forall>s. prepared_serving c = Some s \<longrightarrow> justified sha w0 w s)"

definition daemon_inv :: "hash \<Rightarrow> daemon \<Rightarrow> bool" where
  "daemon_inv sha d \<longleftrightarrow>
     world_inv sha (dm_boot d) \<and> (pub_step sha)\<^sup>*\<^sup>* (dm_boot d) (dm_world d) \<and> winv (dm_authority d) \<and>
     control_ok sha (dm_boot d) (dm_world d) (dm_control d) \<and> valid_runtimes (dm_runtimes d) \<and>
     (dm_phase d = Bootstrapping \<longrightarrow> stage (dm_control d) = Initializing)"

lemma control_ok_later: "control_ok sha w0 w c \<Longrightarrow> (pub_step sha)\<^sup>*\<^sup>* w w' \<Longrightarrow> control_ok sha w0 w' c"
  by (auto simp: control_ok_def intro: justified_later)

lemma control_ok_publish:
  assumes "publish snapshot c = (r, c')" "control_ok sha w0 w c" "justified sha w0 w snapshot"
  shows "control_ok sha w0 w c'" "stage c' = stage c"
  using assms by (auto simp: publish_def control_ok_def split: if_splits)

lemma control_ok_update:
  "control_ok sha w0 w c \<Longrightarrow> control_ok sha w0 w (c\<lparr>prepared_serving := None, stage := st\<rparr>)"
  "control_ok sha w0 w c \<Longrightarrow> control_ok sha w0 w (c\<lparr>stage := st\<rparr>)"
  by (simp_all add: control_ok_def)

lemma control_ok_current:
  assumes "control_ok sha w0 w c"
  shows "valid_runtimes (sn_runtimes (current c))" "valid_runtimes (sn_runtimes (visible c))"
    "valid_runtimes runtimes \<Longrightarrow> justified sha w0 w (snapshot_without_store (sn_core (current c)) runtimes)"
proof -
  have j: "justified sha w0 w (current c)" "current c = visible c" using assms by (simp_all add: control_ok_def)
  then show "valid_runtimes (sn_runtimes (current c))" "valid_runtimes (sn_runtimes (visible c))"
    by (simp_all add: justified_def)
  show "justified sha w0 w (snapshot_without_store (sn_core (current c)) runtimes)" if "valid_runtimes runtimes"
    by (rule without_store_justified [OF _ that]) (use j(1) in \<open>simp_all add: justified_def\<close>)
qed

lemma control_ok_blocked:
  assumes "mark_blocked_with_runtimes reason runtimes c = (r, c')" "control_ok sha w0 w c" "valid_runtimes runtimes"
    "valid_core (core_blocked reason)"
  shows "control_ok sha w0 w c'"
proof -
  let ?c = "c\<lparr>prepared_serving := None, stage := Blocked\<rparr>"
  have j: "justified sha w0 w (snapshot_without_store (core_blocked reason) runtimes)"
    by (rule without_store_justified [OF assms(4,3)]) simp
  have p: "publish (snapshot_without_store (core_blocked reason) runtimes) ?c = (r, c')"
    using assms(1) by (simp only: mark_blocked_with_runtimes_def)
  have ok: "control_ok sha w0 w ?c" using assms(2) by (simp add: control_ok_def)
  show ?thesis by (rule control_ok_publish(1) [OF p ok j])
qed

lemma valid_runtimes_update:
  assumes "valid_runtimes runtimes" "set sent \<subseteq> range ocr_unavailable \<union> range pdfium_unavailable"
  shows "valid_runtimes (updater_runtimes runtimes sent embedding)"
proof -
  have unavailable: "valid_runtime (runtime_unavailable reason)" for reason
    by (simp add: valid_runtime_def runtime_unavailable_def)
  have "valid_runtimes (merge_runtime_health_updates runtimes sent)" using assms
    by (induction runtimes sent rule: merge_runtime_health_updates.induct)
      (auto simp: valid_runtimes_def ocr_unavailable_def pdfium_unavailable_def unavailable)
  moreover have "valid_runtime (embedding_health status)" for status
    by (cases status) (simp_all add: embedding_health_def valid_runtime_def runtime_available_def runtime_unavailable_def)
  ultimately show ?thesis by (auto simp: updater_runtimes_def valid_runtimes_def Let_def split: option.splits)
qed

lemma daemon_inv_init:
  assumes "daemon_init sha ids d"
  shows "daemon_inv sha d"
proof -
  have rts: "valid_runtimes runtimes_initializing"
    by (simp add: valid_runtimes_def runtimes_initializing_def valid_runtime_def runtime_initializing_def)
  then have "justified sha (dm_boot d) (dm_boot d) (snapshot_without_store core_initializing runtimes_initializing)"
    by (auto intro!: without_store_justified)
  then have "control_ok sha (dm_boot d) (dm_boot d) initializing" "stage initializing = Initializing"
    by (simp_all add: control_ok_def initializing_def Let_def)
  then show ?thesis using assms rts publication.reach_inv [of sha "dm_boot d"] writer.reach_inv [of ids "dm_authority d"]
    by (simp add: daemon_inv_def daemon_init_def)
qed

lemma daemon_inv_step:
  assumes inv: "daemon_inv sha d" and step: "daemon_step cls sha ids d d'"
  shows "daemon_inv sha d'"
proof -
  note i = inv [unfolded daemon_inv_def]
  have ok: "control_ok sha (dm_boot d) (dm_world d) (dm_control d)" using i by blast
  show ?thesis
    using step
  proof cases
    case (ds_store w)
    have "(pub_step sha)\<^sup>*\<^sup>* (dm_world d) w" using ds_store(2) by blast
    then show ?thesis using i ds_store(1) control_ok_later by (auto simp: daemon_inv_def intro: rtranclp_trans)
  next
    case (ds_authority st)
    then show ?thesis using i writer.step_inv by (auto simp: daemon_inv_def)
  next
    case ds_worker_lost
    then show ?thesis using i by (simp add: daemon_inv_def control_ok_def)
  next
    case (ds_runtimes runtimes r c)
    note p = control_ok_publish [OF ds_runtimes(4) [unfolded set_runtimes_def] ok control_ok_current(3) [OF ok ds_runtimes(3)]]
    then show ?thesis using i ds_runtimes(1,2) by (simp add: daemon_inv_def)
  next
    case (ds_migrating r c)
    have "justified sha (dm_boot d) (dm_world d) (snapshot_without_store core_migrating (sn_runtimes (current (dm_control d))))"
      using control_ok_current(1) [OF ok] by (auto intro!: without_store_justified)
    note p = control_ok_publish [OF ds_migrating(3) [unfolded mark_migrating_def] ok this]
    then show ?thesis using i ds_migrating(1,2) by (simp add: daemon_inv_def)
  next
    case (ds_start_failed kind r c)
    have "control_ok sha (dm_boot d) (dm_world d) c"
      by (rule control_ok_blocked [OF ds_start_failed(3) [unfolded mark_blocked_def] ok control_ok_current(1) [OF ok]]) simp
    then show ?thesis using i ds_start_failed(1) by (simp add: daemon_inv_def)
  next
    case (ds_prepare w st reads)
    have "justified sha (dm_boot d) w (snapshot_from_store cls sha reads (sn_runtimes (current (dm_control d))))"
      by (rule from_store_justified) (use i ds_prepare(3) control_ok_current(1) [OF ok] in auto)
    moreover have "control_ok sha (dm_boot d) w (dm_control d)"
      by (rule control_ok_later [OF ok]) (use ds_prepare(3) in \<open>simp add: reads_between_def\<close>)
    ultimately have "control_ok sha (dm_boot d) w (prepare_from_store cls sha reads (dm_control d))"
      by (simp add: control_ok_def prepare_from_store_def)
    moreover have "(pub_step sha)\<^sup>*\<^sup>* (dm_boot d) w" "winv st" using reads_inv(1,2) [OF _ _ _ ds_prepare(3)] i by blast+
    ultimately show ?thesis using i ds_prepare(1) by (simp add: daemon_inv_def)
  next
    case (ds_handover_failed reason r c)
    have "control_ok sha (dm_boot d) (dm_world d) c"
      by (rule control_ok_blocked [OF ds_handover_failed(4) ok control_ok_current(2) [OF ok]]) (use ds_handover_failed(3) in auto)
    then show ?thesis using i ds_handover_failed(1) by (simp add: daemon_inv_def)
  next
    case (ds_serve c)
    then obtain s where s: "prepared_serving (dm_control d) = Some s"
      "publish s ((dm_control d)\<lparr>prepared_serving := None, stage := owner_stage (sn_core s)\<rparr>) = (Ok (), c)"
      by (auto simp: publish_prepared_serving_def split: option.splits)
    have "control_ok sha (dm_boot d) (dm_world d) c"
      by (rule control_ok_publish(1) [OF s(2)]) (use ok s(1) in \<open>auto simp: control_ok_def\<close>)
    then show ?thesis using i ds_serve(1) control_ok_current(2) by (simp add: daemon_inv_def)
  next
    case (ds_update w st reads sent runtimes embedding opened r c)
    have rts: "valid_runtimes runtimes" using valid_runtimes_update i ds_update(4,5) by blast
    have ok': "control_ok sha (dm_boot d) w (dm_control d)"
      by (rule control_ok_later [OF ok]) (use ds_update(3) in \<open>simp add: reads_between_def\<close>)
    have j: "justified sha (dm_boot d) w (snapshot_from_store cls sha reads runtimes)"
      by (rule from_store_justified) (use i ds_update(3) rts in auto)
    have "control_ok sha (dm_boot d) w c"
    proof (cases opened)
      case True
      then show ?thesis using ds_update(6) control_ok_publish(1) [OF _ control_ok_update(2) [OF ok'] j]
        by (simp add: updater_pass_def refresh_from_store_with_runtimes_def Let_def)
    next
      case False
      then show ?thesis using ds_update(6) control_ok_blocked [OF _ ok' rts] by (simp add: updater_pass_def)
    qed
    moreover have "(pub_step sha)\<^sup>*\<^sup>* (dm_boot d) w" "winv st" using reads_inv(1,2) [OF _ _ _ ds_update(3)] i by blast+
    ultimately show ?thesis using i ds_update(1,2) rts by (simp add: daemon_inv_def)
  qed
qed

interpretation control: safety "daemon_init sha ids" "daemon_step cls sha ids" "daemon_inv sha" for sha ids cls
  by unfold_locales (rule daemon_inv_init, assumption, rule daemon_inv_step)

section \<open>Properties of the control plane\<close>

lemma keyword_search_available_iff:
  "is_available (keyword_search (derive core runtimes writer)) \<longleftrightarrow> ch_state core = core_state.Ready"
  by (cases rule: derive_core_states [of core]) (auto simp: derive_def Let_def is_available_def cap_available_def)


lemma retry_from_storage:
  assumes "attempt \<le> k" "k \<le> IPC_METADATA_READ_ATTEMPTS" "\<forall>n. attempt \<le> n \<and> n < k \<longrightarrow> read n = Err Storage"
    and "read k = r" "r = Err Storage \<longrightarrow> k = IPC_METADATA_READ_ATTEMPTS"
  shows "retry_from read attempt = r"
  using assms(1,3)
proof (induction "k - attempt" arbitrary: attempt)
  case 0
  then show ?case using assms(2,4,5) by (auto simp: retry_from.simps [of read attempt] split: sum.splits)
next
  case (Suc m)
  then have "retry_from read attempt = retry_from read (attempt + 1)"
    using assms(2) by (auto simp: retry_from.simps [of read attempt])
  then show ?case using Suc by simp
qed

lemma from_store_current:
  assumes inv: "store_inv sha s"
    and reads: "rd_core reads = Ok s" "rd_diagnostics reads = Ok s" "rd_status reads k = Ok s"
    and k: "1 \<le> k" "k \<le> IPC_METADATA_READ_ATTEMPTS" "\<forall>n. 1 \<le> n \<and> n < k \<longrightarrow> rd_status reads n = Err Storage"
  shows "\<exists>core. snapshot_from_store cls sha reads runtimes =
      (let writer = writer_health_from_store (rd_writer reads); capabilities = derive core runtimes writer
       in \<lparr> sn_core = core, sn_runtimes = runtimes, sn_writer = writer, sn_capabilities = capabilities,
            sn_status = render_status (Some (hr_epoch (ps_head s))) core runtimes writer capabilities,
            sn_diagnostics = render_diagnostics (Some (hr_epoch (ps_head s))) core runtimes writer capabilities \<rparr>) \<and>
    (ch_state core = core_state.Ready \<longleftrightarrow> hr_service (ps_head s) = ServiceReady)"
proof -
  obtain p where read: "read_projection_state sha s =
    Ok \<lparr> sps_service = hr_service (ps_head s), sps_generation = hr_generation (ps_head s), sps_epoch = hr_epoch (ps_head s),
      sps_reason = hr_reason (ps_head s), sps_publication = p, sps_updated_at = hr_updated_at (ps_head s) \<rparr>"
    using projection_readable [OF inv] by blast
  then obtain core where core: "core_health_from_store cls sha (Ok s) = Ok core"
    by (simp add: core_health_from_store_def search_projection_state_of_def Let_def)
  let ?w = "writer_health_from_store (rd_writer reads)"
  let ?caps = "derive core runtimes ?w"
  have "retry_metadata_read (\<lambda>n. status_json_once cls sha (rd_status reads n) core runtimes ?w ?caps) =
      Ok (render_status (Some (hr_epoch (ps_head s))) core runtimes ?w ?caps)"
    unfolding retry_metadata_read_def
    by (rule retry_from_storage [OF k(1,2)])
      (use k(3) reads(3) read in \<open>simp_all add: status_json_once_def search_projection_state_of_def\<close>)
  moreover have "diagnostics_render_available cls sha (rd_diagnostics reads) core runtimes ?w ?caps =
      Ok (render_diagnostics (Some (hr_epoch (ps_head s))) core runtimes ?w ?caps)"
    using reads(2) read by (simp add: diagnostics_render_available_def search_projection_state_of_def)
  ultimately show ?thesis using core reads(1) core_health_valid(2) [OF inv core]
    by (intro exI [of _ core]) (simp add: snapshot_from_store_def snapshot_from_fallible_source_def Let_def)
qed

lemma open_head_iff:
  assumes "store_inv sha s"
  shows "(\<exists>h. open_head cls sha s = Ok h) \<longleftrightarrow> hr_service (ps_head s) = ServiceReady"
proof (cases "hr_service (ps_head s) = ServiceReady")
  case True
  then show ?thesis using open_ready_head [OF assms True] by blast
next
  case False
  then show ?thesis
    by (cases "hr_service (ps_head s)")
      (auto simp: open_head_def read_ready_head_def head_columns_def rbind_eq_Inr split: option.splits)
qed

text \<open>C16: a pass of the status updater whose reads meet the current store, the status read after at
  most thirty-nine storage errors, makes the snapshot tell the truth about it: keyword search is
  offered exactly when the head is ready, exactly when a query is not refused and exactly when a
  query transaction opens a generation; the stage of the owner follows, and both documents show
  the epoch of the head.\<close>

theorem refreshed_snapshot_is_current:
  assumes "reach (daemon_init sha ids) (daemon_step cls sha ids) d" and s: "s = w_store (dm_world d)"
    and reads: "rd_core reads = Ok s" "rd_diagnostics reads = Ok s" "rd_status reads k = Ok s"
    and k: "1 \<le> k" "k \<le> IPC_METADATA_READ_ATTEMPTS" "\<forall>n. 1 \<le> n \<and> n < k \<longrightarrow> rd_status reads n = Err Storage"
    and "worker_alive (dm_control d)" "updater_pass cls sha True reads runtimes (dm_control d) = (r, c)"
  shows "r = Ok () \<and>
    (is_available (keyword_search (sn_capabilities (visible c))) \<longleftrightarrow> hr_service (ps_head s) = ServiceReady) \<and>
    (query_service_error cls sha (Ok s) = None \<longleftrightarrow> hr_service (ps_head s) = ServiceReady) \<and>
    ((\<exists>h. open_head cls' sha s = (Ok h :: (unit transaction_error, search_metadata_head) result)) \<longleftrightarrow>
       hr_service (ps_head s) = ServiceReady) \<and>
    (stage c = Serving \<longleftrightarrow> hr_service (ps_head s) = ServiceReady) \<and>
    db_visible_epoch (sn_status (visible c)) = Some (hr_epoch (ps_head s)) \<and>
    db_visible_epoch (sn_diagnostics (visible c)) = Some (hr_epoch (ps_head s))"
proof -
  have inv: "store_inv sha s"
    using control.reach_inv [OF assms(1)] publication.steps_inv [of sha "dm_boot d" "dm_world d"]
    by (simp add: daemon_inv_def world_inv_def s)
  obtain core where snap: "snapshot_from_store cls sha reads runtimes =
      (let writer = writer_health_from_store (rd_writer reads); capabilities = derive core runtimes writer
       in \<lparr> sn_core = core, sn_runtimes = runtimes, sn_writer = writer, sn_capabilities = capabilities,
            sn_status = render_status (Some (hr_epoch (ps_head s))) core runtimes writer capabilities,
            sn_diagnostics = render_diagnostics (Some (hr_epoch (ps_head s))) core runtimes writer capabilities \<rparr>)"
    "ch_state core = core_state.Ready \<longleftrightarrow> hr_service (ps_head s) = ServiceReady"
    using from_store_current [OF inv reads k] by blast
  have c: "r = Ok ()" "visible c = snapshot_from_store cls sha reads runtimes" "stage c = owner_stage core"
    using assms(9,10) snap(1) by (auto simp: updater_pass_def refresh_from_store_with_runtimes_def publish_def Let_def)
  have "stage c = Serving \<longleftrightarrow> ch_state core = core_state.Ready"
    by (simp add: c(3) owner_stage_def split: core_state.splits)
  moreover have "query_service_error cls sha (Ok s) = None \<longleftrightarrow> hr_service (ps_head s) = ServiceReady"
    using projection_readable [OF inv]
    by (cases "hr_service (ps_head s)") (auto simp: query_service_error_def search_projection_state_of_def)
  ultimately show ?thesis using c(1,2) snap open_head_iff [OF inv]
    by (simp add: Let_def keyword_search_available_iff render_status_def render_diagnostics_def)
qed


section \<open>A daemon that starts on a published store\<close>

abbreviation no_sha :: hash where
  "no_sha \<equiv> \<lambda>_. []"

abbreviation storage_class :: "store_failure \<Rightarrow> meta_store_error_class" where
  "storage_class \<equiv> \<lambda>_. Storage"

definition sample_daemon :: daemon where
  "sample_daemon = \<lparr> dm_boot = sample_world (sample_published no_sha), dm_world = sample_world (sample_published no_sha),
     dm_authority = idle_store, dm_phase = Bootstrapping, dm_control = initializing, dm_runtimes = runtimes_initializing \<rparr>"

definition sample_reads :: store_reads where
  "sample_reads = \<lparr> rd_core = Ok (sample_published no_sha), rd_writer = Ok (st_authority idle_store),
     rd_status = (\<lambda>n. if n = 1 then Err Storage else Ok (sample_published no_sha)),
     rd_diagnostics = Ok (sample_published no_sha) \<rparr>"

definition sample_snapshot :: ControlPlaneSnapshot where
  "sample_snapshot = snapshot_from_store storage_class no_sha sample_reads runtimes_initializing"

definition sample_serving :: daemon where
  "sample_serving = sample_daemon\<lparr> dm_control := initializing\<lparr>visible := sample_snapshot, current := sample_snapshot,
       stage := owner_stage (sn_core sample_snapshot)\<rparr>,
     dm_phase := FullRoutes, dm_runtimes := sn_runtimes sample_snapshot\<rparr>"

lemma sample_daemon_serves: "reach (daemon_init no_sha sample_ids) (daemon_step storage_class no_sha sample_ids) sample_serving"
proof -
  let ?p = "sample_daemon\<lparr>dm_world := dm_world sample_daemon, dm_authority := dm_authority sample_daemon, dm_phase := HandingOver,
    dm_control := prepare_from_store storage_class no_sha sample_reads (dm_control sample_daemon)\<rparr>"
  have "daemon_init no_sha sample_ids sample_daemon"
    using sample_run [of no_sha] idle_store_reach by (simp add: daemon_init_def sample_daemon_def)
  then have r0: "reach (daemon_init no_sha sample_ids) (daemon_step storage_class no_sha sample_ids) sample_daemon"
    by (rule reach_init)
  have "reads_between no_sha sample_ids sample_daemon (dm_world sample_daemon) (dm_authority sample_daemon) sample_reads"
    by (auto simp: reads_between_def read_between_def authority_between_def sample_reads_def sample_daemon_def sample_world_def)
  then have "daemon_step storage_class no_sha sample_ids sample_daemon ?p"
    by (rule ds_prepare [rotated]) (simp add: sample_daemon_def)
  with r0 have r1: "reach (daemon_init no_sha sample_ids) (daemon_step storage_class no_sha sample_ids) ?p" by (rule reach_step)
  let ?c = "initializing\<lparr>visible := sample_snapshot, current := sample_snapshot, prepared_serving := None,
      stage := owner_stage (sn_core sample_snapshot)\<rparr>"
  have cur: "sn_runtimes (current initializing) = runtimes_initializing"
    by (simp add: initializing_def snapshot_without_store_def Let_def)
  have "publish_prepared_serving (dm_control ?p) = (Ok (), ?c)"
    by (simp add: publish_prepared_serving_def prepare_from_store_def cur publish_def sample_daemon_def
        sample_snapshot_def [symmetric]) (simp add: initializing_def Let_def)
  then have "daemon_step storage_class no_sha sample_ids ?p (?p\<lparr>dm_control := ?c, dm_phase := FullRoutes, dm_runtimes := sn_runtimes (visible ?c)\<rparr>)"
    by (rule ds_serve [rotated]) simp
  moreover have "?p\<lparr>dm_control := ?c, dm_phase := FullRoutes, dm_runtimes := sn_runtimes (visible ?c)\<rparr> = sample_serving"
    by (simp add: sample_serving_def sample_daemon_def initializing_def Let_def)
  ultimately show ?thesis using reach_step [OF r1] by simp
qed

lemma sample_head_ready: "hr_service (ps_head (sample_published no_sha)) = ServiceReady"
  by (simp add: sample_published_def)

lemma sample_reads_current:
  "rd_core sample_reads = Ok (sample_published no_sha)" "rd_diagnostics sample_reads = Ok (sample_published no_sha)"
  "rd_status sample_reads 2 = Ok (sample_published no_sha)" "1 \<le> (2 :: nat)" "2 \<le> IPC_METADATA_READ_ATTEMPTS"
  "\<forall>n. 1 \<le> n \<and> n < 2 \<longrightarrow> rd_status sample_reads n = Err Storage"
  by (auto simp: sample_reads_def IPC_METADATA_READ_ATTEMPTS_def)




theorem refreshed_snapshot_is_current_witness:
  "is_available (keyword_search (sn_capabilities (visible
     (snd (updater_pass storage_class no_sha True sample_reads runtimes_initializing (dm_control sample_serving))))))"
proof -
  obtain r c where rc: "updater_pass storage_class no_sha True sample_reads runtimes_initializing (dm_control sample_serving) = (r, c)"
    by fastforce
  have store: "sample_published no_sha = w_store (dm_world sample_serving)"
    by (simp add: sample_serving_def sample_daemon_def sample_world_def)
  have alive: "worker_alive (dm_control sample_serving)" by (simp add: sample_serving_def initializing_def Let_def)
  show ?thesis
    using refreshed_snapshot_is_current [OF sample_daemon_serves store sample_reads_current alive rc] sample_head_ready rc by simp
qed


end
