(* ===== verification/VectorSnapshot.thy ===== *)
theory VectorSnapshot
  imports ContentIdentity RustStr SearchModel
begin

text \<open>
  The encrypted vector snapshots of \<open>crates/index-vector\<close>: validation of vectors against a projection
  (\<open>model.rs\<close>, \<open>snapshot_model.rs\<close>), the digests of their content (\<open>snapshot_identity.rs\<close>), the key and
  hexadecimal text (\<open>private_storage.rs\<close>), writing and reading a snapshot (\<open>codec.rs\<close>) and deriving the
  vectors of the next generation.  The directory is the record of its three files.  The JSON library, the
  cipher and SHA-256 are arguments; so are the random bytes.  The functions are those of a call with a
  disabled publish control, whose checks always succeed.  A vector component is an \<open>f32\<close>, a JSON number a
  \<open>u64\<close>, a negative integer or an \<open>f64\<close>; the casts between them are written out on the bit patterns.
\<close>

section \<open>Floating-point casts\<close>

text \<open>Division by a power of two, rounded to the nearest integer and to the even one of two.\<close>

definition round_even :: "nat \<Rightarrow> nat \<Rightarrow> nat" where
  "round_even x k =
     (let q = x div 2 ^ k; r = x mod 2 ^ k
      in if 2 ^ k < 2 * r \<or> 2 ^ k = 2 * r \<and> odd q then q + 1 else q)"

fun log2 :: "nat \<Rightarrow> nat" where
  "log2 n = (if n < 2 then 0 else Suc (log2 (n div 2)))"

declare log2.simps [simp del]

text \<open>The magnitudes are the bit patterns without the sign bit: biased exponent, then mantissa.\<close>

definition widen_magnitude :: "nat \<Rightarrow> nat" where
  "widen_magnitude n =
     (let e = n div 2 ^ 23; m = n mod 2 ^ 23
      in if e = 255 then 2047 * 2 ^ 52 + m * 2 ^ 29
         else if 0 < e then (e + 896) * 2 ^ 52 + m * 2 ^ 29
         else if m = 0 then 0
         else (log2 m + 874) * 2 ^ 52 + (m - 2 ^ log2 m) * 2 ^ (52 - log2 m))"

definition narrow_magnitude :: "nat \<Rightarrow> nat" where
  "narrow_magnitude n =
     (let e = n div 2 ^ 52; m = n mod 2 ^ 52
      in if e = 2047 then 255 * 2 ^ 23 + (if m = 0 then 0 else 2 ^ 22)
         else if e \<le> 896 then round_even ((if e = 0 then 0 else 2 ^ 52) + m) (926 - max e 1)
         else min ((e - 896) * 2 ^ 23 + round_even m 29) (255 * 2 ^ 23))"

definition f32_as_f64 :: "32 word \<Rightarrow> 64 word" where
  "f32_as_f64 v = word_of_nat (unat v div 2 ^ 31 * 2 ^ 63 + widen_magnitude (unat v mod 2 ^ 31))"

definition f64_as_f32 :: "64 word \<Rightarrow> 32 word" where
  "f64_as_f32 w = word_of_nat (unat w div 2 ^ 63 * 2 ^ 31 + narrow_magnitude (unat w mod 2 ^ 63))"

definition u64_magnitude :: "nat \<Rightarrow> nat" where
  "u64_magnitude n =
     (if n = 0 then 0
      else let k = log2 n
        in (k + 1023) * 2 ^ 52 + (if k \<le> 52 then (n - 2 ^ k) * 2 ^ (52 - k) else round_even (n - 2 ^ k) (k - 52)))"

definition f32_is_finite :: "32 word \<Rightarrow> bool" where
  "f32_is_finite v \<longleftrightarrow> unat v mod 2 ^ 31 div 2 ^ 23 \<noteq> 255"

text \<open>Two floats of the same sign that are equal or neighbours.\<close>

definition within_ulp :: "64 word \<Rightarrow> 64 word \<Rightarrow> bool" where
  "within_ulp w w' \<longleftrightarrow> unat w div 2 ^ 63 = unat w' div 2 ^ 63 \<and>
     unat w mod 2 ^ 63 \<le> unat w' mod 2 ^ 63 + 1 \<and> unat w' mod 2 ^ 63 \<le> unat w mod 2 ^ 63 + 1"

lemma log2_bounds: "0 < n \<Longrightarrow> 2 ^ log2 n \<le> n \<and> n < 2 ^ Suc (log2 n)"
proof (induction n rule: log2.induct)
  case (1 n)
  show ?case
  proof (cases "n < 2")
    case True
    then show ?thesis using 1 by (simp add: log2.simps [of n])
  next
    case False
    then have "2 ^ log2 (n div 2) \<le> n div 2" "n div 2 < 2 ^ Suc (log2 (n div 2))" using 1 by auto
    then show ?thesis using False by (simp add: log2.simps [of n]) linarith
  qed
qed

lemma round_even_near:
  assumes "2 * d < 2 ^ k"
  shows "round_even (x * 2 ^ k + d) k = x"
proof -
  have d: "d < 2 ^ k" using assms by simp
  have "(x * 2 ^ k + d) div 2 ^ k = x" "(x * 2 ^ k + d) mod 2 ^ k = d" using d by simp_all
  then show ?thesis using assms by (simp add: round_even_def)
qed

lemma round_even_below:
  assumes "1 < k" "0 < x"
  shows "round_even (x * 2 ^ k - 1) k = x"
proof -
  obtain y where y: "x = Suc y" using assms(2) by (cases x) simp_all
  obtain r where r: "(2 :: nat) ^ k = r + 1" by (metis add.commute le_add_diff_inverse one_le_numeral one_le_power)
  have k: "(4 :: nat) \<le> 2 ^ k" using assms(1) power_increasing [of 2 k "2 :: nat"] by simp
  have eq: "x * 2 ^ k - 1 = y * 2 ^ k + r" unfolding y r by simp
  have "r < 2 ^ k" using r by simp
  then have "(y * 2 ^ k + r) div 2 ^ k = y" "(y * 2 ^ k + r) mod 2 ^ k = r" by simp_all
  moreover have "2 ^ k < 2 * r" using k r by linarith
  ultimately have "round_even (y * 2 ^ k + r) k = Suc y" by (simp only: round_even_def Let_def) simp
  then show ?thesis by (simp only: eq y [symmetric])
qed

lemma narrow_split:
  assumes "m < 2 ^ 52"
  shows "narrow_magnitude (e * 2 ^ 52 + m) =
    (if e = 2047 then 255 * 2 ^ 23 + (if m = 0 then 0 else 2 ^ 22)
     else if e \<le> 896 then round_even ((if e = 0 then 0 else 2 ^ 52) + m) (926 - max e 1)
     else min ((e - 896) * 2 ^ 23 + round_even m 29) (255 * 2 ^ 23))"
proof -
  have "(e * 2 ^ 52 + m) div 2 ^ 52 = e" "(e * 2 ^ 52 + m) mod 2 ^ 52 = m" using assms by simp_all
  then show ?thesis by (simp only: narrow_magnitude_def Let_def)
qed

lemma narrow_normal:
  assumes "0 < e" "e < 255" "x < 2 ^ 23"
  shows "d < 2 \<Longrightarrow> narrow_magnitude ((e + 896) * 2 ^ 52 + x * 2 ^ 29 + d) = e * 2 ^ 23 + x"
    "narrow_magnitude ((e + 896) * 2 ^ 52 + x * 2 ^ 29 - 1) = e * 2 ^ 23 + x"
proof -
  have le: "e * 2 ^ 23 + x \<le> 255 * 2 ^ 23" using assms by simp
  show "narrow_magnitude ((e + 896) * 2 ^ 52 + x * 2 ^ 29 + d) = e * 2 ^ 23 + x" if d: "d < 2"
  proof -
    have m: "x * 2 ^ 29 + d < 2 ^ 52" using assms(3) d by simp
    have "round_even (x * 2 ^ 29 + d) 29 = x" by (rule round_even_near) (use d in simp)
    then show ?thesis using narrow_split [OF m, of "e + 896"] assms le by (simp add: add.assoc)
  qed
  show "narrow_magnitude ((e + 896) * 2 ^ 52 + x * 2 ^ 29 - 1) = e * 2 ^ 23 + x"
  proof (cases "x = 0")
    case False
    have m: "x * 2 ^ 29 - 1 < 2 ^ 52" using assms(3) by simp
    have "round_even (x * 2 ^ 29 - 1) 29 = x" by (rule round_even_below) (use False in simp_all)
    moreover have "(e + 896) * 2 ^ 52 + x * 2 ^ 29 - 1 = (e + 896) * 2 ^ 52 + (x * 2 ^ 29 - 1)" using False by simp
    ultimately show ?thesis using narrow_split [OF m, of "e + 896"] assms le by simp
  next
    case True
    obtain f where f: "e = Suc f" using assms(1) by (cases e) simp_all
    have eq: "(e + 896) * 2 ^ 52 + x * 2 ^ 29 - 1 = (f + 896) * 2 ^ 52 + (2 ^ 52 - 1)" unfolding f True by simp
    have m: "(2 :: nat) ^ 52 - 1 < 2 ^ 52" by simp
    show ?thesis
    proof (cases "f = 0")
      case True
      then show ?thesis unfolding eq narrow_split [OF m] using round_even_below [of 30 "2 ^ 23"] f \<open>x = 0\<close> by simp
    next
      case False
      have "round_even (2 ^ 52 - 1) 29 = 2 ^ 23" using round_even_below [of 29 "2 ^ 23"] by simp
      then show ?thesis unfolding eq narrow_split [OF m] using f False \<open>x = 0\<close> assms(2) by simp
    qed
  qed
qed

lemma narrow_subnormal:
  assumes "0 < m" "m < 2 ^ 23"
  defines "k \<equiv> log2 m"
  shows "d < 2 \<Longrightarrow> narrow_magnitude ((k + 874) * 2 ^ 52 + (m - 2 ^ k) * 2 ^ (52 - k) + d) = m"
    "narrow_magnitude ((k + 874) * 2 ^ 52 + (m - 2 ^ k) * 2 ^ (52 - k) - 1) = m"
proof -
  have b: "2 ^ k \<le> m" "m < 2 ^ Suc k" using log2_bounds [OF assms(1)] by (simp_all add: k_def)
  have k: "k < 23" using b(1) assms(2) by (meson le_less_trans nat_power_less_imp_less zero_less_numeral)
  have p: "(2 :: nat) ^ k * 2 ^ (52 - k) = 2 ^ 52" using k by (simp add: power_add [symmetric])
  have sum: "2 ^ 52 + (m - 2 ^ k) * 2 ^ (52 - k) = m * 2 ^ (52 - k)"
    using b(1) p by (metis add_mult_distrib le_add_diff_inverse)
  have big: "(2 :: nat) ^ 29 \<le> 2 ^ (52 - k)" using k by (intro power_increasing) simp_all
  have frac: "(m - 2 ^ k) * 2 ^ (52 - k) + 2 ^ (52 - k) \<le> 2 ^ 52"
  proof -
    have "m - 2 ^ k + 1 \<le> 2 ^ k" using b by simp
    then have "(m - 2 ^ k + 1) * 2 ^ (52 - k) \<le> 2 ^ k * 2 ^ (52 - k)" by (rule mult_le_mono1)
    then show ?thesis using p by (simp add: add_mult_distrib)
  qed
  show "narrow_magnitude ((k + 874) * 2 ^ 52 + (m - 2 ^ k) * 2 ^ (52 - k) + d) = m" if d: "d < 2"
  proof -
    have lt: "(m - 2 ^ k) * 2 ^ (52 - k) + d < 2 ^ 52" using frac big d by simp
    have "round_even (m * 2 ^ (52 - k) + d) (52 - k) = m" by (rule round_even_near) (use d big in simp)
    then show ?thesis using narrow_split [OF lt, of "k + 874"] k sum by (simp add: add.assoc [symmetric])
  qed
  show "narrow_magnitude ((k + 874) * 2 ^ 52 + (m - 2 ^ k) * 2 ^ (52 - k) - 1) = m"
  proof (cases "m = 2 ^ k")
    case False
    then have pos: "0 < (m - 2 ^ k) * 2 ^ (52 - k)" using b(1) by simp
    have lt: "(m - 2 ^ k) * 2 ^ (52 - k) - 1 < 2 ^ 52" using frac by simp
    have "round_even (m * 2 ^ (52 - k) - 1) (52 - k) = m" by (rule round_even_below) (use k assms(1) in simp_all)
    moreover have "2 ^ 52 + ((m - 2 ^ k) * 2 ^ (52 - k) - 1) = m * 2 ^ (52 - k) - 1" using sum pos by linarith
    ultimately have "narrow_magnitude ((k + 874) * 2 ^ 52 + ((m - 2 ^ k) * 2 ^ (52 - k) - 1)) = m"
      using narrow_split [OF lt, of "k + 874"] k by simp
    moreover have "(k + 874) * 2 ^ 52 + (m - 2 ^ k) * 2 ^ (52 - k) - 1 = (k + 874) * 2 ^ 52 + ((m - 2 ^ k) * 2 ^ (52 - k) - 1)"
      using pos by linarith
    ultimately show ?thesis by (simp only:)
  next
    case True
    have eq: "(k + 874) * 2 ^ 52 + (m - 2 ^ k) * 2 ^ (52 - k) - 1 = (k + 873) * 2 ^ 52 + (2 ^ 52 - 1)"
      unfolding True by simp
    have lt: "(2 :: nat) ^ 52 - 1 < 2 ^ 52" by simp
    have "(2 :: nat) ^ 52 + (2 ^ 52 - 1) = 2 ^ 53 - 1" by simp
    moreover have "(2 :: nat) ^ 53 = 2 ^ k * 2 ^ (53 - k)" using k by (simp add: power_add [symmetric])
    moreover have "round_even (2 ^ k * 2 ^ (53 - k) - 1) (53 - k) = 2 ^ k" by (rule round_even_below) (use k in simp_all)
    ultimately show ?thesis unfolding eq narrow_split [OF lt] using k True by simp
  qed
qed

lemma narrow_widen:
  assumes n: "n div 2 ^ 23 < 255" and near: "w \<le> widen_magnitude n + 1" "widen_magnitude n \<le> w + 1"
  shows "narrow_magnitude w = n"
proof -
  define e where "e = n div 2 ^ 23"
  define m where "m = n mod 2 ^ 23"
  have nm: "n = e * 2 ^ 23 + m" and m: "m < 2 ^ 23" by (simp_all add: e_def m_def)
  have wide: "widen_magnitude n = (if 0 < e then (e + 896) * 2 ^ 52 + m * 2 ^ 29 else if m = 0 then 0
      else (log2 m + 874) * 2 ^ 52 + (m - 2 ^ log2 m) * 2 ^ (52 - log2 m))"
    using n by (simp only: widen_magnitude_def Let_def e_def [symmetric] m_def [symmetric]) simp
  consider d where "d < 2" "w = widen_magnitude n + d" | "w = widen_magnitude n - 1"
  proof (cases "widen_magnitude n \<le> w")
    case True
    then show ?thesis using that(1) [of "w - widen_magnitude n"] near(1) by simp
  next
    case False
    then show ?thesis using that(2) near(2) by simp
  qed
  then show ?thesis
  proof cases
    case (1 d)
    have "narrow_magnitude (0 + d) = 0"
      using narrow_split [of d 0] round_even_near [of d 925 0] 1(1) by (simp add: less_2_cases_iff)
    then show ?thesis using narrow_normal(1) [of e m d] narrow_subnormal(1) [of m d] n m 1 wide nm
      by (cases "0 < e"; cases "m = 0") (simp_all add: e_def [symmetric])
  next
    case 2
    have "narrow_magnitude 0 = 0" using narrow_split [of 0 0] round_even_near [of 0 925 0] by simp
    then show ?thesis using narrow_normal(2) [of e m] narrow_subnormal(2) [of m] n m 2 wide nm
      by (cases "0 < e"; cases "m = 0") (simp_all add: e_def [symmetric])
  qed
qed

lemma widen_bound: "n < 2 ^ 31 \<Longrightarrow> widen_magnitude n < 2 ^ 63"
proof -
  assume n: "n < 2 ^ 31"
  then have e: "n div 2 ^ 23 < 256" by (simp add: less_mult_imp_div_less)
  have sub: "(log2 m + 874) * 2 ^ 52 + (m - 2 ^ log2 m) * 2 ^ (52 - log2 m) < 2 ^ 63" if m: "0 < m" "m < 2 ^ 23" for m
  proof -
    have b: "2 ^ log2 m \<le> m" "m < 2 ^ Suc (log2 m)" using log2_bounds [OF m(1)] by simp_all
    have k: "log2 m < 23" using b(1) m(2) by (meson le_less_trans nat_power_less_imp_less zero_less_numeral)
    have "(m - 2 ^ log2 m) * 2 ^ (52 - log2 m) \<le> 2 ^ log2 m * 2 ^ (52 - log2 m)" using b by (intro mult_le_mono1) simp
    also have "\<dots> = 2 ^ 52" using k by (simp add: power_add [symmetric])
    finally show ?thesis using k by simp
  qed
  have "n mod 2 ^ 23 < 2 ^ 23" by simp
  then show ?thesis using e sub [of "n mod 2 ^ 23"]
    by (simp only: widen_magnitude_def Let_def) (auto split: if_splits)
qed

lemma unat_of_nat64: "n < 2 ^ 64 \<Longrightarrow> unat (word_of_nat n :: 64 word) = n"
  by (simp add: unsigned_of_nat take_bit_nat_eq_self)

text \<open>A component that went through JSON and came back as a neighbouring \<open>f64\<close> is the same \<open>f32\<close> again.\<close>

lemma f32_through_f64:
  assumes "f32_is_finite v" "within_ulp (f32_as_f64 v) w"
  shows "f64_as_f32 w = v"
proof -
  let ?n = "unat v mod 2 ^ 31"
  have "unat v < 2 ^ LENGTH(32)" by (rule unsigned_less)
  then have sign: "unat v div 2 ^ 31 < 2" by (simp add: less_mult_imp_div_less)
  have n: "widen_magnitude ?n < 2 ^ 63" by (rule widen_bound) simp
  have "unat v div 2 ^ 31 * 2 ^ 63 + widen_magnitude ?n < 2 ^ 64" using sign n by (auto simp: less_2_cases_iff)
  then have u: "unat (f32_as_f64 v) = unat v div 2 ^ 31 * 2 ^ 63 + widen_magnitude ?n"
    unfolding f32_as_f64_def by (subst unat_of_nat64) simp_all
  have s: "unat (f32_as_f64 v) div 2 ^ 63 = unat v div 2 ^ 31" "unat (f32_as_f64 v) mod 2 ^ 63 = widen_magnitude ?n"
    using n by (simp_all only: u) simp_all
  have near: "unat w mod 2 ^ 63 \<le> widen_magnitude ?n + 1" "widen_magnitude ?n \<le> unat w mod 2 ^ 63 + 1"
    and sw: "unat w div 2 ^ 63 = unat v div 2 ^ 31"
    using assms(2) unfolding within_ulp_def s by simp_all
  have "?n div 2 ^ 23 < 256" by (rule less_mult_imp_div_less) simp
  then have "?n div 2 ^ 23 < 255" using assms(1) unfolding f32_is_finite_def by linarith
  from narrow_widen [OF this near] have "unat w div 2 ^ 63 * 2 ^ 31 + narrow_magnitude (unat w mod 2 ^ 63) = unat v"
    unfolding sw by (simp only: div_mult_mod_eq)
  then show ?thesis by (simp only: f64_as_f32_def) simp
qed

section \<open>JSON values\<close>

datatype json_number = PosInt nat | NegInt int | Float "64 word"

text \<open>An object is sorted by its keys, like the map of the library.\<close>

datatype 'n json_value =
  JNull | JBool bool | JNumber 'n | JString rtext | JArray "'n json_value list" | JObject "(string \<times> 'n json_value) list"

type_synonym json = "json_number json_value"

definition json_object :: "(string \<times> json) list \<Rightarrow> json" where
  "json_object kvs = JObject (sort_key fst kvs)"

fun as_object :: "json \<Rightarrow> (string \<times> json) list option" where
  "as_object (JObject kvs) = Some kvs"
| "as_object _ = None"

fun as_array :: "json \<Rightarrow> json list option" where
  "as_array (JArray vs) = Some vs"
| "as_array _ = None"

fun as_str :: "json \<Rightarrow> rtext option" where
  "as_str (JString t) = Some t"
| "as_str _ = None"

fun as_u64 :: "json \<Rightarrow> nat option" where
  "as_u64 (JNumber (PosInt n)) = Some n"
| "as_u64 _ = None"

fun as_f64 :: "json \<Rightarrow> 64 word option" where
  "as_f64 (JNumber (Float w)) = Some w"
| "as_f64 (JNumber (PosInt n)) = Some (word_of_nat (u64_magnitude n))"
| "as_f64 (JNumber (NegInt i)) = Some (word_of_nat (2 ^ 63 + u64_magnitude (nat (- i))))"
| "as_f64 _ = None"

definition ensure_exact_keys :: "(string \<times> json) list \<Rightarrow> string list \<Rightarrow> (vector_index_error, unit) result" where
  "ensure_exact_keys object expected = (if set (map fst object) = set expected then Ok () else Err CorruptSnapshot)"

definition string_field :: "(string \<times> json) list \<Rightarrow> string \<Rightarrow> (vector_index_error, rtext) result" where
  "string_field object field = ok_or CorruptSnapshot (Option.bind (map_of object field) as_str)"

definition usize_field :: "(string \<times> json) list \<Rightarrow> string \<Rightarrow> (vector_index_error, nat) result" where
  "usize_field object field = ok_or CorruptSnapshot (Option.bind (map_of object field) as_u64)"

text \<open>Text that is to be an identifier: only ASCII text can be one.\<close>

definition ascii :: "rtext \<Rightarrow> (vector_index_error, string) result" where
  "ascii t = (if list_all (\<lambda>c. c < 128) t then Ok (map char_of t) else Err CorruptSnapshot)"

definition digest_field :: "(string \<times> json) list \<Rightarrow> string \<Rightarrow> (vector_index_error, string) result" where
  "digest_field object field =
     rbind (string_field object field) (\<lambda>t. rbind (ascii t) (\<lambda>v. ok_or CorruptSnapshot (content_digest_parse v)))"

section \<open>Vectors and projections\<close>

record vector_document =
  vector_id :: string
  vec_document_id :: string
  vec_resume_version_id :: string
  vec_model_id :: rtext
  vec_values :: "32 word list"

definition validate_vector_stable_id :: "string \<Rightarrow> string \<Rightarrow> (vector_index_error, unit) result" where
  "validate_vector_stable_id v pre =
     (if take (length pre) v \<noteq> pre then Err InvalidVectorIdentity
      else let digest = drop (length pre) v
        in if length digest = 32 \<and> list_all is_lower_hexdigit digest then Ok () else Err InvalidVectorIdentity)"

definition validate_values :: "32 word list \<Rightarrow> (vector_index_error, unit) result" where
  "validate_values vs =
     (if vs = [] then Err (InvalidDimension 1 0)
      else if list_all f32_is_finite vs then Ok () else Err InvalidVectorValue)"

definition new_vector_document ::
  "string \<Rightarrow> string \<Rightarrow> string \<Rightarrow> rtext \<Rightarrow> 32 word list \<Rightarrow> (vector_index_error, vector_document) result" where
  "new_vector_document vid doc ver model vs =
     rbind (validate_vector_stable_id vid ''vec_'') (\<lambda>_.
     rbind (validate_vector_stable_id doc ''doc_'') (\<lambda>_.
     rbind (validate_vector_stable_id ver ''ver_'') (\<lambda>_.
     rbind (validate_model_id model) (\<lambda>_.
     rbind (validate_values vs) (\<lambda>_.
       Ok \<lparr> vector_id = vid, vec_document_id = doc, vec_resume_version_id = ver, vec_model_id = model, vec_values = vs \<rparr>)))))"

text \<open>A projection is the list of its pairs of document and resume version.\<close>

type_synonym projection = "(string \<times> string) list"

definition validate_projection :: "projection \<Rightarrow> (vector_index_error, string \<rightharpoonup> string) result" where
  "validate_projection ps =
     rbind (map_err (\<lambda>_. PublicationProjectionMismatch) (from_pairs_message ps)) (\<lambda>_. Ok (map_of (rev ps)))"

definition canonical_projection :: "projection \<Rightarrow> (vector_index_error, projection) result" where
  "canonical_projection ps = rbind (validate_projection ps) (\<lambda>_. Ok (sort ps))"

definition validate_dimension :: "nat \<Rightarrow> 32 word list \<Rightarrow> (vector_index_error, unit) result" where
  "validate_dimension expected vs = (if length vs = expected then Ok () else Err (InvalidDimension expected (length vs)))"

fun validate_each_document ::
  "vector_model_contract \<Rightarrow> (string \<rightharpoonup> string) \<Rightarrow> string set \<Rightarrow> (string \<rightharpoonup> string) \<Rightarrow> vector_document list \<Rightarrow> (vector_index_error, unit) result" where
  "validate_each_document contract active ids versions [] = Ok ()"
| "validate_each_document contract active ids versions (d # ds) =
     (case contract of
        ContractDisabled \<Rightarrow> Err InvalidModelContract
      | ContractEnabled model dim \<Rightarrow>
          rbind (validate_dimension dim (vec_values d)) (\<lambda>_.
          rbind (validate_values (vec_values d)) (\<lambda>_.
          if vec_model_id d \<noteq> model then Err InvalidModelContract
          else if active (vec_document_id d) \<noteq> Some (vec_resume_version_id d) then Err PublicationProjectionMismatch
          else if vector_id d \<in> ids then Err DuplicateVectorId
          else if versions (vec_document_id d) \<notin> {None, Some (vec_resume_version_id d)} then Err ConflictingDocumentVersion
          else validate_each_document contract active (insert (vector_id d) ids)
                 (versions(vec_document_id d \<mapsto> vec_resume_version_id d)) ds)))"

definition validate_documents ::
  "vector_model_contract \<Rightarrow> projection \<Rightarrow> vector_document list \<Rightarrow> (vector_index_error, unit) result" where
  "validate_documents contract ps ds =
     rbind (validate_contract contract) (\<lambda>_.
     rbind (validate_projection ps) (\<lambda>active.
     if contract = ContractDisabled \<and> ds \<noteq> [] then Err InvalidModelContract
     else validate_each_document contract active {} Map.empty ds))"

section \<open>Digests of the content\<close>

definition vector_projection_digest :: "hash \<Rightarrow> projection \<Rightarrow> (vector_index_error, string) result" where
  "vector_projection_digest sha ps = map_err (\<lambda>_. PublicationProjectionMismatch) (from_pairs sha ps)"

definition coverage_digest :: "hash \<Rightarrow> vector_document list \<Rightarrow> (vector_index_error, string) result" where
  "coverage_digest sha ds =
     map_err (\<lambda>_. PublicationProjectionMismatch)
       (from_pairs sha (sort (remdups (map (\<lambda>d. (vec_document_id d, vec_resume_version_id d)) ds))))"

definition value_digest :: "hash \<Rightarrow> nat list \<Rightarrow> nat list" where
  "value_digest sha bytes = lit (content_digest sha bytes)"

definition f32_le_bytes :: "32 word \<Rightarrow> nat list" where
  "f32_le_bytes v = map (\<lambda>i. unat v div 2 ^ (8 * i) mod 256) [0..<4]"

definition vector_bytes :: "hash \<Rightarrow> vector_document \<Rightarrow> nat list" where
  "vector_bytes sha d =
     value_digest sha (lit (vector_id d)) @ value_digest sha (lit (vec_document_id d)) @
     value_digest sha (lit (vec_resume_version_id d)) @ value_digest sha (encode_utf8 (vec_model_id d)) @
     le_bytes64 (int (length (vec_values d))) @ concat (map f32_le_bytes (vec_values d))"

definition logical_content_digest ::
  "hash \<Rightarrow> vector_model_contract \<Rightarrow> projection \<Rightarrow> vector_document list \<Rightarrow> (vector_index_error, string) result" where
  "logical_content_digest sha contract ps ds =
     rbind (vector_projection_digest sha ps) (\<lambda>digest.
       let documents = sort_key vector_id ds
       in Ok (content_digest sha
            (lit ''resume-ir.vector.logical-content.v4'' @
             (case contract of
                ContractDisabled \<Rightarrow> [0]
              | ContractEnabled model dim \<Rightarrow> [1] @ value_digest sha (encode_utf8 model) @ le_bytes64 (int dim)) @
             lit digest @ le_bytes64 (int (length documents)) @
             concat (map (\<lambda>d. value_digest sha (vector_bytes sha d)) documents))))"

definition from_contents ::
  "string \<Rightarrow> vector_model_contract \<Rightarrow> projection \<Rightarrow> vector_document list \<Rightarrow> string \<Rightarrow> string \<Rightarrow> string \<Rightarrow> string \<Rightarrow> vector_summary" where
  "from_contents generation contract ps ds projection coverage logical artifact =
     \<lparr> vs_generation = generation, vs_model_contract = contract, vs_vector_count = length ds,
       vs_projection_count = length ps, vs_vector_document_count = card (vec_document_id ` set ds),
       vs_projection_digest = projection, vs_coverage_digest = coverage, vs_logical_content_digest = logical,
       vs_artifact_digest = artifact \<rparr>"

section \<open>Private files\<close>

record snapshot_files =
  manifest_file :: "nat list option"
  snapshot_file :: "nat list option"
  key_file :: "nat list option"

text \<open>The libraries: JSON text, the authenticated cipher (key, nonce, associated data, text) and the hash.\<close>

record libraries =
  lib_sha :: hash
  lib_to_json :: "json \<Rightarrow> nat list option"
  lib_from_json :: "nat list \<Rightarrow> json option"
  lib_encrypt :: "nat list \<Rightarrow> nat list \<Rightarrow> nat list \<Rightarrow> nat list \<Rightarrow> nat list option"
  lib_decrypt :: "nat list \<Rightarrow> nat list \<Rightarrow> nat list \<Rightarrow> nat list \<Rightarrow> nat list option"

definition hex_value :: "nat \<Rightarrow> nat option" where
  "hex_value b =
     (if 48 \<le> b \<and> b \<le> 57 then Some (b - 48)
      else if 97 \<le> b \<and> b \<le> 102 then Some (b - 87)
      else if 65 \<le> b \<and> b \<le> 70 then Some (b - 55) else None)"

text \<open>\<open>u8::from_str_radix\<close> on two bytes; a leading plus sign is accepted.\<close>

definition hex_pair :: "nat \<Rightarrow> nat \<Rightarrow> nat option" where
  "hex_pair a b =
     (if a = 43 then hex_value b
      else Option.bind (hex_value a) (\<lambda>x. map_option (\<lambda>y. x * 16 + y) (hex_value b)))"

fun decode_pairs :: "nat list \<Rightarrow> (vector_index_error, nat list) result" where
  "decode_pairs (a # b # rest) =
     rbind (ok_or CorruptSnapshot (hex_pair a b)) (\<lambda>v. rbind (decode_pairs rest) (\<lambda>vs. Ok (v # vs)))"
| "decode_pairs _ = Ok []"

definition decode_hex :: "nat list \<Rightarrow> (vector_index_error, nat list) result" where
  "decode_hex v = (if odd (length v) then Err CorruptSnapshot else decode_pairs v)"

definition decode_fixed_hex :: "nat \<Rightarrow> nat list \<Rightarrow> (vector_index_error, nat list) result" where
  "decode_fixed_hex n v = rbind (decode_hex v) (\<lambda>bytes. if length bytes = n then Ok bytes else Err CorruptSnapshot)"

definition read_private_bytes :: "nat list option \<Rightarrow> (vector_index_error, nat list) result" where
  "read_private_bytes file = ok_or GenerationNotFound file"

definition read_private_bytes_bounded :: "nat list option \<Rightarrow> nat \<Rightarrow> (vector_index_error, nat list) result" where
  "read_private_bytes_bounded file limit =
     rbind (ok_or GenerationNotFound file) (\<lambda>bytes. if limit < length bytes then Err CorruptSnapshot else Ok bytes)"

definition KEY_LEN :: nat where
  "KEY_LEN = 32"

definition NONCE_LEN :: nat where
  "NONCE_LEN = 24"

definition read_key :: "snapshot_files \<Rightarrow> (vector_index_error, nat list) result" where
  "read_key files =
     rbind (read_private_bytes_bounded (key_file files) (KEY_LEN * 2 + 1)) (\<lambda>bytes.
       if length bytes = KEY_LEN * 2 then decode_fixed_hex KEY_LEN bytes
       else if length bytes = KEY_LEN * 2 + 1 \<and> last bytes = 10 then decode_fixed_hex KEY_LEN (take (KEY_LEN * 2) bytes)
       else Err CorruptSnapshot)"

text \<open>\<open>create_new\<close>: a file that is already there is a storage error.  The random bytes are an argument.\<close>

definition load_or_create_key :: "nat list option \<Rightarrow> (snapshot_files, vector_index_error, nat list) sr" where
  "load_or_create_key random_key files =
     (if key_file files \<noteq> None then (files, read_key files)
      else case random_key of
             None \<Rightarrow> (files, Err VectorStorage)
           | Some key \<Rightarrow> (files\<lparr>key_file := Some (lit (hex_bytes key) @ [10])\<rparr>, Ok key))"

definition ENCRYPTED_HEADER :: "nat list" where
  "ENCRYPTED_HEADER = lit ''resume-ir-vector-index-encrypted-v4''"

definition encrypted_text :: "nat list \<Rightarrow> nat list \<Rightarrow> nat list" where
  "encrypted_text nonce ciphertext = ENCRYPTED_HEADER @ [10] @ lit (hex_bytes nonce) @ [10] @ lit (hex_bytes ciphertext) @ [10]"

definition write_encrypted_payload ::
  "libraries \<Rightarrow> nat list option \<Rightarrow> nat list option \<Rightarrow> nat list \<Rightarrow> (snapshot_files, vector_index_error, string) sr" where
  "write_encrypted_payload lib random_key random_nonce plaintext =
     sr_bind (load_or_create_key random_key) (\<lambda>key.
     sr_bind (sr_lift (ok_or VectorStorage random_nonce)) (\<lambda>nonce.
     sr_bind (sr_lift (ok_or VectorStorage (lib_encrypt lib key nonce ENCRYPTED_HEADER plaintext))) (\<lambda>ciphertext.
     (\<lambda>files. let encrypted = encrypted_text nonce ciphertext
        in if snapshot_file files \<noteq> None then (files, Err VectorStorage)
           else (files\<lparr>snapshot_file := Some encrypted\<rparr>, Ok (content_digest (lib_sha lib) encrypted))))))"

text \<open>\<open>str::from_utf8\<close> and \<open>str::lines\<close> on bytes.\<close>

definition continuation :: "nat \<Rightarrow> bool" where
  "continuation b \<longleftrightarrow> 0x80 \<le> b \<and> b \<le> 0xBF"

fun utf8_valid :: "nat list \<Rightarrow> bool" where
  "utf8_valid [] = True"
| "utf8_valid (a # rest) =
     (if a < 0x80 then utf8_valid rest
      else case rest of
        [] \<Rightarrow> False
      | b # rest1 \<Rightarrow>
          if 0xC2 \<le> a \<and> a \<le> 0xDF then continuation b \<and> utf8_valid rest1
          else case rest1 of
            [] \<Rightarrow> False
          | c # rest2 \<Rightarrow>
              if 0xE0 \<le> a \<and> a \<le> 0xEF
              then (if a = 0xE0 then 0xA0 \<le> b \<and> b \<le> 0xBF else if a = 0xED then 0x80 \<le> b \<and> b \<le> 0x9F else continuation b) \<and>
                continuation c \<and> utf8_valid rest2
              else case rest2 of
                [] \<Rightarrow> False
              | d # rest3 \<Rightarrow>
                  0xF0 \<le> a \<and> a \<le> 0xF4 \<and>
                  (if a = 0xF0 then 0x90 \<le> b \<and> b \<le> 0xBF else if a = 0xF4 then 0x80 \<le> b \<and> b \<le> 0x8F else continuation b) \<and>
                  continuation c \<and> continuation d \<and> utf8_valid rest3)"

definition strip_line :: "nat list \<Rightarrow> nat list" where
  "strip_line l =
     (if l \<noteq> [] \<and> last l = 10
      then let l' = butlast l in if l' \<noteq> [] \<and> last l' = 13 then butlast l' else l'
      else l)"

definition str_lines :: "nat list \<Rightarrow> nat list list" where
  "str_lines bytes = map strip_line (split_inclusive 10 bytes)"

definition read_encrypted_payload ::
  "libraries \<Rightarrow> snapshot_files \<Rightarrow> string \<Rightarrow> (vector_index_error, nat list) result" where
  "read_encrypted_payload lib files expected_artifact_digest =
     rbind (read_private_bytes (snapshot_file files)) (\<lambda>encrypted.
     if content_digest (lib_sha lib) encrypted \<noteq> expected_artifact_digest then Err CorruptSnapshot
     else if \<not> utf8_valid encrypted then Err CorruptSnapshot
     else case str_lines encrypted of
            [] \<Rightarrow> Err CorruptSnapshot
          | header # lines1 \<Rightarrow>
              if header \<noteq> ENCRYPTED_HEADER then Err SchemaMismatch
              else case lines1 of
                     [] \<Rightarrow> Err CorruptSnapshot
                   | nonce_text # lines2 \<Rightarrow>
                       rbind (decode_fixed_hex NONCE_LEN nonce_text) (\<lambda>nonce.
                       case lines2 of
                         [] \<Rightarrow> Err CorruptSnapshot
                       | cipher_text # lines3 \<Rightarrow>
                           rbind (decode_hex cipher_text) (\<lambda>ciphertext.
                           if lines3 \<noteq> [] then Err CorruptSnapshot
                           else rbind (read_key files) (\<lambda>key.
                             ok_or CorruptSnapshot (lib_decrypt lib key nonce ENCRYPTED_HEADER ciphertext)))))"

section \<open>Writing and reading a snapshot\<close>

definition model_fields :: "vector_model_contract \<Rightarrow> (string \<times> json) list" where
  "model_fields contract =
     (case contract of
        ContractDisabled \<Rightarrow> [(''model_id'', JNull), (''dimension'', JNull)]
      | ContractEnabled model dim \<Rightarrow> [(''model_id'', JString model), (''dimension'', JNumber (PosInt dim))])"

definition projection_entry_json :: "string \<times> string \<Rightarrow> json" where
  "projection_entry_json p =
     json_object [(''document_id'', JString (lit (fst p))), (''resume_version_id'', JString (lit (snd p)))]"

text \<open>A component that is not finite would be printed as null; the documents are validated before.\<close>

definition value_json :: "32 word \<Rightarrow> json" where
  "value_json v = (if f32_is_finite v then JNumber (Float (f32_as_f64 v)) else JNull)"

definition document_json :: "vector_document \<Rightarrow> json" where
  "document_json d = json_object
     [(''vector_id'', JString (lit (vector_id d))), (''document_id'', JString (lit (vec_document_id d))),
      (''resume_version_id'', JString (lit (vec_resume_version_id d))), (''model_id'', JString (vec_model_id d)),
      (''values'', JArray (map value_json (vec_values d)))]"

definition payload_json :: "string \<Rightarrow> vector_model_contract \<Rightarrow> projection \<Rightarrow> vector_document list \<Rightarrow> json" where
  "payload_json generation contract ps ds = json_object
     ([(''schema_version'', JString (lit ''vector.payload.v4'')), (''generation'', JString (lit generation))] @
      model_fields contract @
      [(''active_projection'', JArray (map projection_entry_json ps)), (''vectors'', JArray (map document_json ds))])"

definition manifest_json :: "vector_summary \<Rightarrow> json" where
  "manifest_json s = json_object
     ([(''schema_version'', JString (lit ''vector.snapshot.v4'')), (''index_schema'', JString (lit ''hnsw-vector.v4'')),
       (''generation'', JString (lit (vs_generation s)))] @ model_fields (vs_model_contract s) @
      [(''vector_count'', JNumber (PosInt (vs_vector_count s))), (''projection_count'', JNumber (PosInt (vs_projection_count s))),
       (''vector_document_count'', JNumber (PosInt (vs_vector_document_count s))),
       (''projection_digest'', JString (lit (vs_projection_digest s))), (''coverage_digest'', JString (lit (vs_coverage_digest s))),
       (''logical_content_digest'', JString (lit (vs_logical_content_digest s))),
       (''artifact_digest'', JString (lit (vs_artifact_digest s))),
       (''search_backend'', JString (lit ''hnsw_ann'')), (''encryption'', JString (lit ''xchacha20poly1305.v1''))])"

definition write_manifest :: "libraries \<Rightarrow> vector_summary \<Rightarrow> (snapshot_files, vector_index_error, unit) sr" where
  "write_manifest lib summary =
     sr_bind (sr_lift (ok_or VectorStorage (lib_to_json lib (manifest_json summary)))) (\<lambda>bytes files.
       if manifest_file files \<noteq> None then (files, Err VectorStorage)
       else (files\<lparr>manifest_file := Some (bytes @ [10])\<rparr>, Ok ()))"

definition write_snapshot ::
  "libraries \<Rightarrow> nat list option \<Rightarrow> nat list option \<Rightarrow> string \<Rightarrow> vector_model_contract \<Rightarrow> projection \<Rightarrow> vector_document list \<Rightarrow>
   (snapshot_files, vector_index_error, vector_summary) sr" where
  "write_snapshot lib random_key random_nonce generation contract projection ds =
     sr_bind (sr_lift (canonical_projection projection)) (\<lambda>ps.
     sr_bind (sr_lift (validate_documents contract ps ds)) (\<lambda>_.
     sr_bind (sr_lift (vector_projection_digest (lib_sha lib) ps)) (\<lambda>projection_digest.
     sr_bind (sr_lift (coverage_digest (lib_sha lib) ds)) (\<lambda>coverage.
     sr_bind (sr_lift (logical_content_digest (lib_sha lib) contract ps ds)) (\<lambda>logical.
     sr_bind (sr_lift (ok_or VectorStorage (lib_to_json lib (payload_json generation contract ps ds)))) (\<lambda>plaintext.
     sr_bind (write_encrypted_payload lib random_key random_nonce plaintext) (\<lambda>artifact.
     let summary = from_contents generation contract ps ds projection_digest coverage logical artifact
     in sr_bind (write_manifest lib summary) (\<lambda>_. sr_return summary))))))))"

definition parse_model_contract :: "(string \<times> json) list \<Rightarrow> (vector_index_error, vector_model_contract) result" where
  "parse_model_contract object =
     (case (map_of object ''model_id'', map_of object ''dimension'') of
        (Some JNull, Some JNull) \<Rightarrow> Ok ContractDisabled
      | (Some (JString model), Some (JNumber n)) \<Rightarrow>
          rbind (ok_or CorruptSnapshot (as_u64 (JNumber n))) (\<lambda>dim.
            map_err (\<lambda>_. CorruptSnapshot) (contract_enabled model dim))
      | _ \<Rightarrow> Err CorruptSnapshot)"

definition parse_projection_entry :: "json \<Rightarrow> (vector_index_error, string \<times> string) result" where
  "parse_projection_entry v =
     rbind (ok_or CorruptSnapshot (as_object v)) (\<lambda>object.
     rbind (ensure_exact_keys object [''document_id'', ''resume_version_id'']) (\<lambda>_.
     rbind (rbind (string_field object ''document_id'') ascii) (\<lambda>doc.
     rbind (map_err (\<lambda>_. CorruptSnapshot) (validate_stable_id ''doc_'' doc)) (\<lambda>_.
     rbind (rbind (string_field object ''resume_version_id'') ascii) (\<lambda>ver.
     rbind (map_err (\<lambda>_. CorruptSnapshot) (validate_stable_id ''ver_'' ver)) (\<lambda>_.
       Ok (doc, ver)))))))"

definition parse_component :: "json \<Rightarrow> (vector_index_error, 32 word) result" where
  "parse_component v =
     ok_or CorruptSnapshot (case map_option f64_as_f32 (as_f64 v) of
        Some f \<Rightarrow> if f32_is_finite f then Some f else None
      | None \<Rightarrow> None)"

definition parse_document :: "json \<Rightarrow> (vector_index_error, vector_document) result" where
  "parse_document v =
     rbind (ok_or CorruptSnapshot (as_object v)) (\<lambda>object.
     rbind (ensure_exact_keys object [''vector_id'', ''document_id'', ''resume_version_id'', ''model_id'', ''values'']) (\<lambda>_.
     rbind (ok_or CorruptSnapshot (Option.bind (map_of object ''values'') as_array)) (\<lambda>components.
     rbind (traverse parse_component components) (\<lambda>vs.
     rbind (rbind (string_field object ''vector_id'') ascii) (\<lambda>vid.
     rbind (rbind (string_field object ''document_id'') ascii) (\<lambda>doc.
     rbind (rbind (string_field object ''resume_version_id'') ascii) (\<lambda>ver.
     rbind (string_field object ''model_id'') (\<lambda>model.
       map_err (\<lambda>_. CorruptSnapshot) (new_vector_document vid doc ver model vs)))))))))"

definition validate_manifest ::
  "(string \<times> json) list \<Rightarrow> string \<Rightarrow> vector_model_contract \<Rightarrow> (vector_index_error, unit) result" where
  "validate_manifest manifest generation expected =
     rbind (string_field manifest ''schema_version'') (\<lambda>schema.
     if schema \<noteq> lit ''vector.snapshot.v4'' then Err SchemaMismatch
     else rbind (string_field manifest ''index_schema'') (\<lambda>index.
     if index \<noteq> lit ''hnsw-vector.v4'' then Err SchemaMismatch
     else rbind (string_field manifest ''search_backend'') (\<lambda>backend.
     if backend \<noteq> lit ''hnsw_ann'' then Err SchemaMismatch
     else rbind (string_field manifest ''encryption'') (\<lambda>encryption.
     if encryption \<noteq> lit ''xchacha20poly1305.v1'' then Err SchemaMismatch
     else rbind (string_field manifest ''generation'') (\<lambda>g.
     if g \<noteq> lit generation then Err CorruptSnapshot
     else rbind (parse_model_contract manifest) (\<lambda>contract.
     if contract \<noteq> expected then Err CorruptSnapshot else Ok ()))))))"

definition MAX_MANIFEST_BYTES :: nat where
  "MAX_MANIFEST_BYTES = 4 * 1024"

definition decode_manifest_metadata ::
  "libraries \<Rightarrow> nat list \<Rightarrow> string \<Rightarrow> vector_model_contract \<Rightarrow> (vector_index_error, vector_summary) result" where
  "decode_manifest_metadata lib bytes generation expected =
     (if bytes = [] \<or> MAX_MANIFEST_BYTES < length bytes then Err CorruptSnapshot
      else
        rbind (validate_contract expected) (\<lambda>_.
        rbind (ok_or CorruptSnapshot (Option.bind (lib_from_json lib bytes) as_object)) (\<lambda>manifest.
        rbind (ensure_exact_keys manifest
          [''schema_version'', ''index_schema'', ''generation'', ''model_id'', ''dimension'', ''vector_count'', ''projection_count'',
           ''vector_document_count'', ''projection_digest'', ''coverage_digest'', ''logical_content_digest'', ''artifact_digest'',
           ''search_backend'', ''encryption'']) (\<lambda>_.
        rbind (validate_manifest manifest generation expected) (\<lambda>_.
        rbind (usize_field manifest ''vector_count'') (\<lambda>vector_count.
        rbind (usize_field manifest ''projection_count'') (\<lambda>projection_count.
        rbind (usize_field manifest ''vector_document_count'') (\<lambda>document_count.
        if vector_count < document_count \<or> projection_count < document_count \<or>
           expected = ContractDisabled \<and> (vector_count \<noteq> 0 \<or> document_count \<noteq> 0)
        then Err CorruptSnapshot
        else
          rbind (digest_field manifest ''projection_digest'') (\<lambda>projection_digest.
          rbind (digest_field manifest ''coverage_digest'') (\<lambda>coverage.
          rbind (digest_field manifest ''logical_content_digest'') (\<lambda>logical.
          rbind (digest_field manifest ''artifact_digest'') (\<lambda>artifact.
            Ok \<lparr> vs_generation = generation, vs_model_contract = expected, vs_vector_count = vector_count,
                 vs_projection_count = projection_count, vs_vector_document_count = document_count,
                 vs_projection_digest = projection_digest, vs_coverage_digest = coverage,
                 vs_logical_content_digest = logical, vs_artifact_digest = artifact \<rparr>))))))))))))"

text \<open>\<open>map_staging_validation_error\<close>, which keeps a cancellation.\<close>

definition staging :: "(vector_index_error, 'a) result \<Rightarrow> (vector_index_error, 'a) result" where
  "staging r = map_err (\<lambda>e. if e = VectorCancelled then e else CorruptSnapshot) r"

definition read_snapshot ::
  "libraries \<Rightarrow> snapshot_files \<Rightarrow> string \<Rightarrow> vector_model_contract \<Rightarrow>
   (vector_index_error, projection \<times> vector_document list \<times> vector_summary) result" where
  "read_snapshot lib files generation expected =
     rbind (validate_contract expected) (\<lambda>_.
     rbind (read_private_bytes_bounded (manifest_file files) MAX_MANIFEST_BYTES) (\<lambda>bytes.
     rbind (decode_manifest_metadata lib bytes generation expected) (\<lambda>manifest.
     rbind (read_encrypted_payload lib files (vs_artifact_digest manifest)) (\<lambda>plaintext.
     rbind (ok_or CorruptSnapshot (Option.bind (lib_from_json lib plaintext) as_object)) (\<lambda>payload.
     rbind (ensure_exact_keys payload
       [''schema_version'', ''generation'', ''model_id'', ''dimension'', ''active_projection'', ''vectors'']) (\<lambda>_.
     rbind (string_field payload ''schema_version'') (\<lambda>schema.
     if schema \<noteq> lit ''vector.payload.v4'' then Err SchemaMismatch
     else
     rbind (string_field payload ''generation'') (\<lambda>g.
     if g \<noteq> lit generation then Err CorruptSnapshot
     else
     rbind (parse_model_contract payload) (\<lambda>contract.
     if contract \<noteq> expected then Err CorruptSnapshot
     else
     rbind (ok_or CorruptSnapshot (Option.bind (map_of payload ''active_projection'') as_array)) (\<lambda>entries.
     rbind (traverse parse_projection_entry entries) (\<lambda>pairs.
     rbind (staging (canonical_projection pairs)) (\<lambda>ps.
     rbind (ok_or CorruptSnapshot (Option.bind (map_of payload ''vectors'') as_array)) (\<lambda>vectors.
     rbind (traverse parse_document vectors) (\<lambda>ds.
     rbind (staging (validate_documents expected ps ds)) (\<lambda>_.
     rbind (staging (vector_projection_digest (lib_sha lib) ps)) (\<lambda>projection_digest.
     if projection_digest \<noteq> vs_projection_digest manifest then Err CorruptSnapshot
     else
     rbind (staging (coverage_digest (lib_sha lib) ds)) (\<lambda>coverage.
     if coverage \<noteq> vs_coverage_digest manifest then Err CorruptSnapshot
     else
     rbind (staging (logical_content_digest (lib_sha lib) expected ps ds)) (\<lambda>logical.
     if logical \<noteq> vs_logical_content_digest manifest then Err CorruptSnapshot
     else
     let summary = from_contents generation expected ps ds projection_digest coverage logical (vs_artifact_digest manifest)
     in if vs_vector_count manifest \<noteq> vs_vector_count summary \<or> vs_projection_count manifest \<noteq> vs_projection_count summary \<or>
           vs_vector_document_count manifest \<noteq> vs_vector_document_count summary
        then Err CorruptSnapshot
        else Ok (ps, ds, summary)))))))))))))))))))"

section \<open>The next generation\<close>

text \<open>The removed identifiers are a set of the source; here the list of its elements.\<close>

record vector_snapshot_update =
  active_projection :: projection
  replacement_documents :: "vector_document list"
  removed_vector_ids :: "string list"

definition new_update ::
  "projection \<Rightarrow> vector_document list \<Rightarrow> string list \<Rightarrow> (vector_index_error, vector_snapshot_update) result" where
  "new_update ps replacements removed =
     rbind (validate_projection ps) (\<lambda>active.
     rbind (traverse (\<lambda>i. validate_vector_stable_id i ''vec_'') removed) (\<lambda>_.
       if list_ex (\<lambda>d. active (vec_document_id d) \<noteq> Some (vec_resume_version_id d)) replacements
       then Err PublicationProjectionMismatch
       else Ok \<lparr> active_projection = ps, replacement_documents = replacements, removed_vector_ids = removed \<rparr>))"

definition apply_documents :: "vector_snapshot_update \<Rightarrow> vector_document list \<Rightarrow> projection \<times> vector_document list" where
  "apply_documents u base =
     (let active = map_of (rev (active_projection u)); replacement_ids = vector_id ` set (replacement_documents u)
      in (active_projection u,
          filter (\<lambda>d. active (vec_document_id d) = Some (vec_resume_version_id d) \<and>
              vector_id d \<notin> set (removed_vector_ids u) \<and> vector_id d \<notin> replacement_ids) base @
          replacement_documents u))"

end
