(* ===== verification/VectorTheorems.thy ===== *)
theory VectorTheorems
  imports VectorSnapshot
begin

text \<open>
  What the vector snapshots promise: reading what was written gives it back, a snapshot that can be read
  carries the content its digests and counts name, and an update of a valid generation is valid.
\<close>

section \<open>Hexadecimal text and the key\<close>

lemma hex_digit_value: "n < 16 \<Longrightarrow> hex_value (of_char (hex_digit n)) = Some n \<and> of_char (hex_digit n) \<noteq> (43 :: nat)"
  by (auto simp: hex_value_def hex_digit_def)

lemma hex_pair_byte:
  "b < 256 \<Longrightarrow> hex_pair (of_char (hex_digit (b div 16 mod 16))) (of_char (hex_digit (b mod 16))) = Some b"
  using hex_digit_value [of "b div 16"] hex_digit_value [of "b mod 16"] by (simp add: hex_pair_def)

lemma decode_pairs_hex: "list_all (\<lambda>b. b < 256) bs \<Longrightarrow> decode_pairs (lit (hex_bytes bs)) = Ok bs"
  by (induction bs) (simp_all add: hex_bytes_def hex_byte_def hex_pair_byte)

lemma decode_hex_encode: "list_all (\<lambda>b. b < 256) bs \<Longrightarrow> decode_hex (lit (hex_bytes bs)) = Ok bs"
  by (simp add: decode_hex_def decode_pairs_hex hex_bytes_valid)

lemma decode_fixed_hex_encode:
  "list_all (\<lambda>b. b < 256) bs \<Longrightarrow> length bs = n \<Longrightarrow> decode_fixed_hex n (lit (hex_bytes bs)) = Ok bs"
  by (simp add: decode_fixed_hex_def decode_hex_encode)

text \<open>A key of the right length, and the key file that is read after it was created or found.\<close>

definition bytes_of_length :: "nat \<Rightarrow> nat list option \<Rightarrow> bool" where
  "bytes_of_length n random = (case random of None \<Rightarrow> True | Some bs \<Rightarrow> length bs = n \<and> list_all (\<lambda>b. b < 256) bs)"

lemma read_created_key:
  "length key = KEY_LEN \<Longrightarrow> list_all (\<lambda>b. b < 256) key \<Longrightarrow>
     read_key (files\<lparr>key_file := Some (lit (hex_bytes key) @ [10])\<rparr>) = Ok key"
  by (simp add: read_key_def read_private_bytes_bounded_def hex_bytes_valid decode_fixed_hex_encode)

lemma key_is_kept:
  assumes "load_or_create_key random files = (files', Ok key)" "bytes_of_length KEY_LEN random"
  shows "read_key files' = Ok key" "manifest_file files' = manifest_file files" "snapshot_file files' = snapshot_file files"
  using assms by (auto simp: load_or_create_key_def bytes_of_length_def read_created_key split: if_splits option.splits)

lemma read_key_cong: "key_file files = key_file files' \<Longrightarrow> read_key files = read_key files'"
  by (simp add: read_key_def)

section \<open>The encrypted file\<close>

definition text_byte :: "nat \<Rightarrow> bool" where
  "text_byte b \<longleftrightarrow> b < 128 \<and> b \<noteq> 10 \<and> b \<noteq> 13"

lemma hex_text: "list_all text_byte (lit (hex_bytes bs))"
  using hex_bytes_valid(1) [of bs] by (auto simp: list_all_iff is_lower_hexdigit_def text_byte_def Let_def)

lemma header_text: "list_all text_byte ENCRYPTED_HEADER"
  by (simp add: ENCRYPTED_HEADER_def text_byte_def)

lemma ascii_utf8: "list_all (\<lambda>b. b < 128) bs \<Longrightarrow> utf8_valid bs"
  by (induction bs) simp_all

lemma split_line: "10 \<notin> set l \<Longrightarrow> split_inclusive 10 (l @ 10 # rest) = (l @ [10]) # split_inclusive 10 rest"
  by (induction l) simp_all

lemma strip_text: "list_all text_byte l \<Longrightarrow> strip_line (l @ [10]) = l"
  using last_in_set [of l] by (auto simp: strip_line_def text_byte_def Let_def list_all_iff)

lemma str_lines_line:
  assumes "list_all text_byte l"
  shows "str_lines (l @ 10 # rest) = l # str_lines rest"
proof -
  have "10 \<notin> set l" using assms by (auto simp: list_all_iff text_byte_def)
  then show ?thesis using assms by (simp add: str_lines_def split_line strip_text)
qed

lemma encrypted_text_lines:
  "str_lines (encrypted_text nonce ciphertext) = [ENCRYPTED_HEADER, lit (hex_bytes nonce), lit (hex_bytes ciphertext)]"
  by (simp add: encrypted_text_def str_lines_line header_text hex_text) (simp add: str_lines_def)

lemma encrypted_text_utf8: "utf8_valid (encrypted_text nonce ciphertext)"
proof (rule ascii_utf8)
  have "list_all (\<lambda>b. b < 128) l" if "list_all text_byte l" for l
    using that by (auto simp: list_all_iff text_byte_def)
  from this [OF header_text] this [OF hex_text] show "list_all (\<lambda>b. b < 128) (encrypted_text nonce ciphertext)"
    by (simp add: encrypted_text_def)
qed

text \<open>What the development relies on of the cipher and the hash.\<close>

definition cipher_inverts :: "libraries \<Rightarrow> bool" where
  "cipher_inverts lib \<longleftrightarrow> (\<forall>k n a p c. lib_encrypt lib k n a p = Some c \<longrightarrow>
     lib_decrypt lib k n a c = Some p \<and> list_all (\<lambda>b. b < 256) c)"

lemma payload_is_kept:
  assumes w: "write_encrypted_payload lib rk rn plaintext files = (files', Ok artifact)"
    and r: "bytes_of_length KEY_LEN rk" "bytes_of_length NONCE_LEN rn" and c: "cipher_inverts lib"
    and f: "snapshot_file g = snapshot_file files'" "key_file g = key_file files'"
  shows "read_encrypted_payload lib g artifact = Ok plaintext"
    and "\<exists>bytes. artifact = content_digest (lib_sha lib) bytes" and "manifest_file files' = manifest_file files"
proof -
  obtain files1 key nonce ct where k: "load_or_create_key rk files = (files1, Ok key)" and n: "rn = Some nonce"
    and e: "lib_encrypt lib key nonce ENCRYPTED_HEADER plaintext = Some ct"
    and f': "files' = files1\<lparr>snapshot_file := Some (encrypted_text nonce ct)\<rparr>"
    and a: "artifact = content_digest (lib_sha lib) (encrypted_text nonce ct)"
    using w by (auto simp: write_encrypted_payload_def sr_bind_cases sr_lift_def Let_def split: if_splits)
  have key: "read_key g = Ok key"
    using key_is_kept(1) [OF k r(1)] read_key_cong [of g files1] f(2) by (simp add: f')
  have nonce: "decode_fixed_hex NONCE_LEN (lit (hex_bytes nonce)) = Ok nonce"
    using r(2) by (simp add: n bytes_of_length_def decode_fixed_hex_encode)
  have d: "lib_decrypt lib key nonce ENCRYPTED_HEADER ct = Some plaintext" "list_all (\<lambda>b. b < 256) ct"
    using c e by (auto simp: cipher_inverts_def)
  show "read_encrypted_payload lib g artifact = Ok plaintext"
    using f(1) by (simp add: read_encrypted_payload_def read_private_bytes_def f' a encrypted_text_lines
        encrypted_text_utf8 nonce decode_hex_encode d key)
  show "\<exists>bytes. artifact = content_digest (lib_sha lib) bytes" using a by blast
  show "manifest_file files' = manifest_file files" using key_is_kept(2) [OF k r(1)] by (simp add: f')
qed

section \<open>JSON values that are read back\<close>

text \<open>The library reads back what it printed; a floating-point number may be a neighbour of the printed one.\<close>

fun number_close :: "json_number \<Rightarrow> json_number \<Rightarrow> bool" where
  "number_close (Float w) (Float w') = within_ulp w w'"
| "number_close m n = (m = n)"

abbreviation json_close :: "json \<Rightarrow> json \<Rightarrow> bool" where
  "json_close \<equiv> rel_json_value number_close"

definition json_reads_back :: "libraries \<Rightarrow> bool" where
  "json_reads_back lib \<longleftrightarrow> (\<forall>v b. lib_to_json lib v = Some b \<longrightarrow>
     (\<exists>v'. lib_from_json lib b = Some v' \<and> json_close v v') \<and> (\<exists>v'. lib_from_json lib (b @ [10]) = Some v' \<and> json_close v v'))"

lemma json_close_simps:
  "json_close JNull v \<longleftrightarrow> v = JNull"
  "json_close (JString t) v \<longleftrightarrow> v = JString t"
  "json_close (JNumber (PosInt n)) v \<longleftrightarrow> v = JNumber (PosInt n)"
  "json_close (JNumber (Float w)) v \<longleftrightarrow> (\<exists>w'. v = JNumber (Float w') \<and> within_ulp w w')"
  "json_close (JArray vs) v \<longleftrightarrow> (\<exists>vs'. v = JArray vs' \<and> list_all2 json_close vs vs')"
  "json_close (JObject kvs) v \<longleftrightarrow> (\<exists>kvs'. v = JObject kvs' \<and> list_all2 (rel_prod (=) json_close) kvs kvs')"
  by (cases v; auto elim: number_close.elims)+

text \<open>The fields of an object that was read back.\<close>

definition fields_read :: "(string \<times> json) list \<Rightarrow> (string \<times> json) list \<Rightarrow> bool" where
  "fields_read kvs kvs' \<longleftrightarrow> fst ` set kvs' = fst ` set kvs \<and> (\<forall>k. rel_option json_close (map_of kvs k) (map_of kvs' k))"

lemma map_of_close:
  "list_all2 (rel_prod (=) json_close) kvs kvs' \<Longrightarrow>
     fst ` set kvs' = fst ` set kvs \<and> rel_option json_close (map_of kvs k) (map_of kvs' k)"
  by (induction rule: list_all2_induct) auto

lemma map_of_sort_key: "distinct (map fst kvs) \<Longrightarrow> map_of (sort_key fst kvs) = map_of kvs"
  by (rule map_of_eqI) (auto simp: distinct_map inj_on_def intro!: map_of_is_SomeI [THEN trans] split: option.splits)

lemma object_is_read:
  assumes "json_close (json_object kvs) v" "distinct (map fst kvs)"
  shows "\<exists>kvs'. as_object v = Some kvs' \<and> fields_read kvs kvs'"
proof -
  obtain kvs' where v: "v = JObject kvs'" and l: "list_all2 (rel_prod (=) json_close) (sort_key fst kvs) kvs'"
    using assms(1) by (auto simp: json_object_def json_close_simps)
  show ?thesis using map_of_close [OF l] assms(2) by (simp add: v fields_read_def map_of_sort_key)
qed

lemma keys_are_read: "fields_read kvs kvs' \<Longrightarrow> fst ` set kvs = set ks \<Longrightarrow> ensure_exact_keys kvs' ks = Ok ()"
  by (simp add: fields_read_def ensure_exact_keys_def)

lemma field_is_read: "fields_read kvs kvs' \<Longrightarrow> map_of kvs k = Some v \<Longrightarrow> \<exists>v'. map_of kvs' k = Some v' \<and> json_close v v'"
  by (auto simp: fields_read_def rel_option_iff dest!: spec [of _ k] split: option.splits)

lemma string_is_read: "fields_read kvs kvs' \<Longrightarrow> map_of kvs k = Some (JString t) \<Longrightarrow> string_field kvs' k = Ok t"
  by (drule (1) field_is_read) (auto simp: string_field_def json_close_simps)

lemma usize_is_read: "fields_read kvs kvs' \<Longrightarrow> map_of kvs k = Some (JNumber (PosInt n)) \<Longrightarrow> usize_field kvs' k = Ok n"
  by (drule (1) field_is_read) (auto simp: usize_field_def json_close_simps)

lemma array_is_read:
  "fields_read kvs kvs' \<Longrightarrow> map_of kvs k = Some (JArray vs) \<Longrightarrow>
     \<exists>vs'. Option.bind (map_of kvs' k) as_array = Some vs' \<and> list_all2 json_close vs vs'"
  by (drule (1) field_is_read) (auto simp: json_close_simps)

lemma contract_is_read:
  assumes "fields_read kvs kvs'" "validate_contract contract = Ok ()"
    and "map_of kvs ''model_id'' = map_of (model_fields contract) ''model_id''"
    and "map_of kvs ''dimension'' = map_of (model_fields contract) ''dimension''"
  shows "parse_model_contract kvs' = Ok contract"
proof (cases contract)
  case ContractDisabled
  then have "map_of kvs' ''model_id'' = Some JNull" "map_of kvs' ''dimension'' = Some JNull"
    using field_is_read [OF assms(1), of "''model_id''" JNull] field_is_read [OF assms(1), of "''dimension''" JNull] assms(3,4)
    by (auto simp: model_fields_def json_close_simps)
  then show ?thesis by (simp add: parse_model_contract_def ContractDisabled)
next
  case (ContractEnabled model dim)
  then have "map_of kvs' ''model_id'' = Some (JString model)" "map_of kvs' ''dimension'' = Some (JNumber (PosInt dim))"
    using field_is_read [OF assms(1), of "''model_id''" "JString model"]
      field_is_read [OF assms(1), of "''dimension''" "JNumber (PosInt dim)"] assms(3,4)
    by (auto simp: model_fields_def json_close_simps)
  then show ?thesis using assms(2) by (simp add: parse_model_contract_def contract_enabled_def ContractEnabled)
qed

lemma lit_ascii: "list_all (\<lambda>c. of_char c < (128 :: nat)) s \<Longrightarrow> ascii (lit s) = Ok s"
  by (auto simp: ascii_def list_all_iff comp_def map_idI)

lemma hex_ascii:
  "list_all is_lower_hexdigit s \<Longrightarrow> list_all (\<lambda>c. of_char c < (128 :: nat)) s"
  "list_all is_ascii_hexdigit s \<Longrightarrow> list_all (\<lambda>c. of_char c < (128 :: nat)) s"
  by (auto simp: list_all_iff is_lower_hexdigit_def is_ascii_hexdigit_def Let_def)

lemma digest_text: "list_all (\<lambda>c. of_char c < (128 :: nat)) (content_digest sha bytes)"
  by (simp add: content_digest_def hex_ascii hex_bytes_valid)

lemma digest_is_read:
  assumes "fields_read kvs kvs'" "map_of kvs k = Some (JString (lit digest))" "digest = content_digest sha bytes"
    and "length (sha bytes) = 32"
  shows "digest_field kvs' k = Ok digest"
  using assms(4) hex_bytes_valid [of "sha bytes"]
  by (simp add: digest_field_def string_is_read [OF assms(1,2)] lit_ascii digest_text assms(3))
     (simp add: content_digest_parse_def content_digest_def)

section \<open>Projections and documents that are read back\<close>

text \<open>A document as its constructor makes it.\<close>

definition vector_document_ok :: "vector_document \<Rightarrow> bool" where
  "vector_document_ok d \<longleftrightarrow>
     new_vector_document (vector_id d) (vec_document_id d) (vec_resume_version_id d) (vec_model_id d) (vec_values d) = Ok d"

lemma vector_stable_id_ascii:
  assumes "validate_vector_stable_id v pre = Ok ()" "list_all (\<lambda>c. of_char c < (128 :: nat)) pre"
  shows "ascii (lit v) = Ok v"
proof -
  have "take (length pre) v = pre" "list_all is_lower_hexdigit (drop (length pre) v)"
    using assms(1) by (auto simp: validate_vector_stable_id_def Let_def split: if_splits)
  then have "list_all (\<lambda>c. of_char c < (128 :: nat)) (take (length pre) v @ drop (length pre) v)"
    using assms(2) by (simp only: list_all_append hex_ascii)
  then have "list_all (\<lambda>c. of_char c < (128 :: nat)) v" by (simp only: append_take_drop_id)
  then show ?thesis by (rule lit_ascii)
qed

lemma stable_id_ascii:
  assumes "is_ok (validate_stable_id pre v)" "list_all (\<lambda>c. of_char c < (128 :: nat)) pre"
  shows "ascii (lit v) = Ok v"
proof (rule lit_ascii)
  obtain digest where v: "v = pre @ digest" and h: "list_all is_ascii_hexdigit digest"
    using assms(1) by (auto simp: validate_stable_id_Ok)
  show "list_all (\<lambda>c. of_char c < (128 :: nat)) v" using assms(2) h by (simp add: v hex_ascii)
qed

lemma entry_is_read:
  assumes "json_close (projection_entry_json p) v" "is_ok (validate_stable_id ''doc_'' (fst p))"
    "is_ok (validate_stable_id ''ver_'' (snd p))"
  shows "parse_projection_entry v = Ok p"
proof -
  obtain kvs' where v: "as_object v = Some kvs'"
    and f: "fields_read [(''document_id'', JString (lit (fst p))), (''resume_version_id'', JString (lit (snd p)))] kvs'"
    using object_is_read [OF assms(1) [unfolded projection_entry_json_def]] by auto
  have k: "ensure_exact_keys kvs' [''document_id'', ''resume_version_id''] = Ok ()" by (rule keys_are_read [OF f]) simp
  have s: "string_field kvs' ''document_id'' = Ok (lit (fst p))" "string_field kvs' ''resume_version_id'' = Ok (lit (snd p))"
    by (rule string_is_read [OF f], simp)+
  have a: "ascii (lit (fst p)) = Ok (fst p)" "ascii (lit (snd p)) = Ok (snd p)"
    by (rule stable_id_ascii [OF assms(2)], simp) (rule stable_id_ascii [OF assms(3)], simp)
  have i: "validate_stable_id ''doc_'' (fst p) = Ok ()" "validate_stable_id ''ver_'' (snd p) = Ok ()"
    using assms(2,3) by (auto simp: is_ok_iff)
  show ?thesis by (simp add: parse_projection_entry_def v k s a i)
qed

lemma component_is_read: "f32_is_finite c \<Longrightarrow> json_close (value_json c) v \<Longrightarrow> parse_component v = Ok c"
  by (auto simp: value_json_def parse_component_def json_close_simps f32_through_f64)

lemma traverse_read:
  assumes "list_all2 json_close (map f xs) vs" "\<And>x v. x \<in> set xs \<Longrightarrow> json_close (f x) v \<Longrightarrow> g v = Ok x"
  shows "traverse g vs = Ok xs"
proof -
  have "list_all2 (\<lambda>v x. g v = Ok x) vs xs"
    using assms by (auto simp: list_all2_conv_all_nth)
  then show ?thesis by (simp add: traverse_Inr_iff)
qed

lemma document_is_read:
  assumes "json_close (document_json d) v" "vector_document_ok d"
  shows "parse_document v = Ok d"
proof -
  have valid: "validate_vector_stable_id (vector_id d) ''vec_'' = Ok ()" "validate_vector_stable_id (vec_document_id d) ''doc_'' = Ok ()"
    "validate_vector_stable_id (vec_resume_version_id d) ''ver_'' = Ok ()" and finite: "list_all f32_is_finite (vec_values d)"
    using assms(2) by (auto simp: vector_document_ok_def new_vector_document_def validate_values_def result_simps split: if_splits)
  let ?kvs = "[(''vector_id'', JString (lit (vector_id d))), (''document_id'', JString (lit (vec_document_id d))),
      (''resume_version_id'', JString (lit (vec_resume_version_id d))), (''model_id'', JString (vec_model_id d)),
      (''values'', JArray (map value_json (vec_values d)))] :: (string \<times> json) list"
  obtain kvs' where v: "as_object v = Some kvs'" and f: "fields_read ?kvs kvs'"
    using object_is_read [OF assms(1) [unfolded document_json_def]] by auto
  have k: "ensure_exact_keys kvs' [''vector_id'', ''document_id'', ''resume_version_id'', ''model_id'', ''values''] = Ok ()"
    by (rule keys_are_read [OF f]) auto
  have s: "string_field kvs' ''vector_id'' = Ok (lit (vector_id d))" "string_field kvs' ''document_id'' = Ok (lit (vec_document_id d))"
    "string_field kvs' ''resume_version_id'' = Ok (lit (vec_resume_version_id d))" "string_field kvs' ''model_id'' = Ok (vec_model_id d)"
    by (rule string_is_read [OF f], simp)+
  obtain vs where vs: "Option.bind (map_of kvs' ''values'') as_array = Some vs" and l: "list_all2 json_close (map value_json (vec_values d)) vs"
    using array_is_read [OF f, of "''values''"] by auto
  have t: "traverse parse_component vs = Ok (vec_values d)"
    by (rule traverse_read [OF l]) (use finite in \<open>auto simp: list_all_iff intro: component_is_read\<close>)
  have a: "ascii (lit (vector_id d)) = Ok (vector_id d)" "ascii (lit (vec_document_id d)) = Ok (vec_document_id d)"
    "ascii (lit (vec_resume_version_id d)) = Ok (vec_resume_version_id d)"
    by (rule vector_stable_id_ascii [OF valid(1)], simp) (rule vector_stable_id_ascii [OF valid(2)], simp,
        rule vector_stable_id_ascii [OF valid(3)], simp)
  show ?thesis using assms(2) by (simp add: parse_document_def v k vs t s a vector_document_ok_def)
qed

section \<open>The manifest that is read back\<close>

lemma manifest_is_read:
  assumes j: "json_reads_back lib" "lib_to_json lib (manifest_json s) = Some bytes" "length (bytes @ [10]) \<le> MAX_MANIFEST_BYTES"
    and c: "validate_contract (vs_model_contract s) = Ok ()"
    and counts: "vs_vector_document_count s \<le> vs_vector_count s" "vs_vector_document_count s \<le> vs_projection_count s"
      "vs_model_contract s = ContractDisabled \<Longrightarrow> vs_vector_count s = 0"
    and d: "vs_projection_digest s = content_digest sha m1" "vs_coverage_digest s = content_digest sha m2"
      "vs_logical_content_digest s = content_digest sha m3" "vs_artifact_digest s = content_digest sha m4"
    and h: "\<And>m. length (sha m) = 32"
  shows "decode_manifest_metadata lib (bytes @ [10]) (vs_generation s) (vs_model_contract s) = Ok s"
proof -
  obtain v where v: "lib_from_json lib (bytes @ [10]) = Some v" and close: "json_close (manifest_json s) v"
    using j by (auto simp: json_reads_back_def)
  obtain kvs where o: "manifest_json s = json_object kvs"
    and kvs: "kvs = ([(''schema_version'', JString (lit ''vector.snapshot.v4'')), (''index_schema'', JString (lit ''hnsw-vector.v4'')),
       (''generation'', JString (lit (vs_generation s)))] @ model_fields (vs_model_contract s) @
      [(''vector_count'', JNumber (PosInt (vs_vector_count s))), (''projection_count'', JNumber (PosInt (vs_projection_count s))),
       (''vector_document_count'', JNumber (PosInt (vs_vector_document_count s))),
       (''projection_digest'', JString (lit (vs_projection_digest s))), (''coverage_digest'', JString (lit (vs_coverage_digest s))),
       (''logical_content_digest'', JString (lit (vs_logical_content_digest s))),
       (''artifact_digest'', JString (lit (vs_artifact_digest s))),
       (''search_backend'', JString (lit ''hnsw_ann'')), (''encryption'', JString (lit ''xchacha20poly1305.v1''))])"
    by (simp add: manifest_json_def)
  have "distinct (map fst kvs)" by (simp add: kvs model_fields_def split: vector_model_contract.split)
  then obtain kvs' where obj: "as_object v = Some kvs'" and f: "fields_read kvs kvs'"
    using object_is_read close unfolding o by blast
  have k: "ensure_exact_keys kvs'
          [''schema_version'', ''index_schema'', ''generation'', ''model_id'', ''dimension'', ''vector_count'', ''projection_count'',
           ''vector_document_count'', ''projection_digest'', ''coverage_digest'', ''logical_content_digest'', ''artifact_digest'',
           ''search_backend'', ''encryption''] = Ok ()"
    by (rule keys_are_read [OF f]) (auto simp: kvs model_fields_def split: vector_model_contract.split)
  note m = kvs model_fields_def
  have st: "string_field kvs' ''schema_version'' = Ok (lit ''vector.snapshot.v4'')" "string_field kvs' ''index_schema'' = Ok (lit ''hnsw-vector.v4'')"
    "string_field kvs' ''generation'' = Ok (lit (vs_generation s))" "string_field kvs' ''search_backend'' = Ok (lit ''hnsw_ann'')"
    "string_field kvs' ''encryption'' = Ok (lit ''xchacha20poly1305.v1'')"
    by (rule string_is_read [OF f], simp add: m split: vector_model_contract.split)+
  have us: "usize_field kvs' ''vector_count'' = Ok (vs_vector_count s)" "usize_field kvs' ''projection_count'' = Ok (vs_projection_count s)"
    "usize_field kvs' ''vector_document_count'' = Ok (vs_vector_document_count s)"
    by (rule usize_is_read [OF f], simp add: m split: vector_model_contract.split)+
  have ds: "digest_field kvs' ''projection_digest'' = Ok (vs_projection_digest s)" "digest_field kvs' ''coverage_digest'' = Ok (vs_coverage_digest s)"
    "digest_field kvs' ''logical_content_digest'' = Ok (vs_logical_content_digest s)" "digest_field kvs' ''artifact_digest'' = Ok (vs_artifact_digest s)"
    by (rule digest_is_read [OF f, where sha = sha], simp add: m split: vector_model_contract.split, rule d, rule h)+
  have ct: "parse_model_contract kvs' = Ok (vs_model_contract s)"
    by (rule contract_is_read [OF f c]) (simp_all add: m split: vector_model_contract.split)
  show ?thesis using counts j(3)
    by (auto simp: decode_manifest_metadata_def validate_manifest_def c v obj k st us ds ct not_less)
qed

section \<open>Valid documents\<close>

lemma validate_each_document_Ok:
  assumes "versions \<subseteq>\<^sub>m active"
  shows "validate_each_document (ContractEnabled model dim) active ids versions ds = Ok () \<longleftrightarrow>
     (\<forall>d \<in> set ds. length (vec_values d) = dim \<and> vec_values d \<noteq> [] \<and> list_all f32_is_finite (vec_values d) \<and>
        vec_model_id d = model \<and> active (vec_document_id d) = Some (vec_resume_version_id d)) \<and>
     distinct (map vector_id ds) \<and> vector_id ` set ds \<inter> ids = {}"
  using assms
proof (induction ds arbitrary: ids versions)
  case (Cons d ds)
  show ?case
  proof (cases "active (vec_document_id d) = Some (vec_resume_version_id d)")
    case True
    have v: "versions (vec_document_id d) \<in> {None, Some (vec_resume_version_id d)}"
      using Cons.prems True by (cases "versions (vec_document_id d)") (auto simp: map_le_def dom_def)
    have le: "versions(vec_document_id d \<mapsto> vec_resume_version_id d) \<subseteq>\<^sub>m active"
      using Cons.prems True by (auto simp: map_le_def)
    have "validate_each_document (ContractEnabled model dim) active ids versions (d # ds) = Ok () \<longleftrightarrow>
       length (vec_values d) = dim \<and> vec_values d \<noteq> [] \<and> list_all f32_is_finite (vec_values d) \<and>
       vec_model_id d = model \<and> vector_id d \<notin> ids \<and>
       validate_each_document (ContractEnabled model dim) active (insert (vector_id d) ids)
         (versions(vec_document_id d \<mapsto> vec_resume_version_id d)) ds = Ok ()"
      using v True by (simp del: fun_upd_apply insert_iff add: validate_dimension_def validate_values_def)
    then show ?thesis unfolding Cons.IH [OF le] using True by auto
  qed (auto simp: validate_dimension_def validate_values_def)
qed simp

lemma validate_projection_Ok: "validate_projection ps = Ok active \<longleftrightarrow> check_pairs {} {} ps = Ok () \<and> active = map_of (rev ps)"
  by (auto simp: validate_projection_def from_pairs_message_def result_simps)

lemma validate_documents_Ok:
  "validate_documents contract ps ds = Ok () \<longleftrightarrow>
     validate_contract contract = Ok () \<and> check_pairs {} {} ps = Ok () \<and> distinct (map vector_id ds) \<and>
     (\<forall>d \<in> set ds. vec_values d \<noteq> [] \<and> list_all f32_is_finite (vec_values d) \<and>
        contract = ContractEnabled (vec_model_id d) (length (vec_values d)) \<and>
        map_of (rev ps) (vec_document_id d) = Some (vec_resume_version_id d))"
proof (cases contract)
  case ContractDisabled
  then show ?thesis by (cases ds) (auto simp: validate_documents_def result_simps validate_projection_Ok)
next
  case (ContractEnabled model dim)
  then show ?thesis
    by (auto simp: validate_documents_def result_simps validate_projection_Ok validate_each_document_Ok)
qed

lemma document_count_le_projection:
  assumes "validate_documents contract ps ds = Ok ()"
  shows "card (vec_document_id ` set ds) \<le> length ps"
proof -
  have "vec_document_id ` set ds \<subseteq> fst ` set ps"
    using assms by (force simp: validate_documents_Ok dest: map_of_SomeD)
  then have "card (vec_document_id ` set ds) \<le> card (fst ` set ps)" by (simp add: card_mono)
  also have "\<dots> \<le> card (set ps)" by (simp add: card_image_le)
  also have "\<dots> \<le> length ps" by (rule card_length)
  finally show ?thesis .
qed

section \<open>Round trip\<close>

lemma from_pairs_digest: "from_pairs sha ps = Ok d \<Longrightarrow> \<exists>m. d = content_digest sha m"
  by (auto simp: from_pairs_def result_simps)

lemma content_digests:
  assumes "vector_projection_digest sha ps = Ok p" "coverage_digest sha ds = Ok c" "logical_content_digest sha contract ps' ds' = Ok l"
  shows "\<exists>m. p = content_digest sha m" "\<exists>m. c = content_digest sha m" "\<exists>m. l = content_digest sha m"
  using assms by (auto simp: vector_projection_digest_def coverage_digest_def logical_content_digest_def result_simps Let_def
      dest!: from_pairs_digest)

lemma write_snapshot_Ok:
  assumes "write_snapshot lib rk rn generation contract projection ds files = (files', Ok s)"
  obtains p c l plaintext files1 artifact bytes where
    "canonical_projection projection = Ok (sort projection)" "validate_documents contract (sort projection) ds = Ok ()"
    "vector_projection_digest (lib_sha lib) (sort projection) = Ok p" "coverage_digest (lib_sha lib) ds = Ok c"
    "logical_content_digest (lib_sha lib) contract (sort projection) ds = Ok l"
    "lib_to_json lib (payload_json generation contract (sort projection) ds) = Some plaintext"
    "write_encrypted_payload lib rk rn plaintext files = (files1, Ok artifact)"
    "s = from_contents generation contract (sort projection) ds p c l artifact"
    "lib_to_json lib (manifest_json s) = Some bytes" "files' = files1\<lparr>manifest_file := Some (bytes @ [10])\<rparr>"
  using assms
  by (auto simp: write_snapshot_def write_manifest_def canonical_projection_def sr_bind_cases sr_lift_def sr_return_def
      result_simps Let_def split: if_splits)

lemma payload_fields:
  assumes "json_close (payload_json generation contract ps ds) v" "validate_documents contract ps ds = Ok ()"
    "list_all vector_document_ok ds"
  obtains payload entries vectors where "as_object v = Some payload"
    "ensure_exact_keys payload [''schema_version'', ''generation'', ''model_id'', ''dimension'', ''active_projection'', ''vectors''] = Ok ()"
    "string_field payload ''schema_version'' = Ok (lit ''vector.payload.v4'')" "string_field payload ''generation'' = Ok (lit generation)"
    "parse_model_contract payload = Ok contract"
    "Option.bind (map_of payload ''active_projection'') as_array = Some entries" "traverse parse_projection_entry entries = Ok ps"
    "Option.bind (map_of payload ''vectors'') as_array = Some vectors" "traverse parse_document vectors = Ok ds"
proof -
  define kvs where kvs: "kvs = ([(''schema_version'', JString (lit ''vector.payload.v4'')), (''generation'', JString (lit generation))] @
      model_fields contract @
      [(''active_projection'', JArray (map projection_entry_json ps)), (''vectors'', JArray (map document_json ds))])"
  have o: "payload_json generation contract ps ds = json_object kvs" by (simp add: payload_json_def kvs)
  note m = kvs model_fields_def
  have "distinct (map fst kvs)" by (simp add: m split: vector_model_contract.split)
  then obtain payload where obj: "as_object v = Some payload" and f: "fields_read kvs payload"
    using object_is_read assms(1) unfolding o by blast
  have valid: "validate_contract contract = Ok ()" "check_pairs {} {} ps = Ok ()"
    using assms(2) by (simp_all add: validate_documents_Ok)
  have k: "ensure_exact_keys payload
      [''schema_version'', ''generation'', ''model_id'', ''dimension'', ''active_projection'', ''vectors''] = Ok ()"
    by (rule keys_are_read [OF f]) (auto simp: m split: vector_model_contract.split)
  have st: "string_field payload ''schema_version'' = Ok (lit ''vector.payload.v4'')" "string_field payload ''generation'' = Ok (lit generation)"
    by (rule string_is_read [OF f], simp add: m split: vector_model_contract.split)+
  have ct: "parse_model_contract payload = Ok contract"
    by (rule contract_is_read [OF f valid(1)]) (simp_all add: m split: vector_model_contract.split)
  have "map_of kvs ''active_projection'' = Some (JArray (map projection_entry_json ps))"
    "map_of kvs ''vectors'' = Some (JArray (map document_json ds))"
    by (simp_all add: m split: vector_model_contract.split)
  then obtain entries vectors where e: "Option.bind (map_of payload ''active_projection'') as_array = Some entries"
      "list_all2 json_close (map projection_entry_json ps) entries"
    and w: "Option.bind (map_of payload ''vectors'') as_array = Some vectors" "list_all2 json_close (map document_json ds) vectors"
    using array_is_read [OF f] by metis
  have te: "traverse parse_projection_entry entries = Ok ps"
    by (rule traverse_read [OF e(2)], rule entry_is_read) (use valid(2) in \<open>auto simp: check_pairs_Ok\<close>)
  have tw: "traverse parse_document vectors = Ok ds"
    by (rule traverse_read [OF w(2)], rule document_is_read) (use assms(3) in \<open>auto simp: list_all_iff\<close>)
  show ?thesis using obj k st ct e(1) te w(1) tw by (rule that)
qed

lemma written_snapshot_is_read:
  assumes w: "write_snapshot lib rk rn generation contract projection ds files = (files', Ok s)"
    and j: "json_reads_back lib" and c: "cipher_inverts lib" and h: "\<And>m. length (lib_sha lib m) = 32"
    and r: "bytes_of_length KEY_LEN rk" "bytes_of_length NONCE_LEN rn" and d: "list_all vector_document_ok ds"
    and size: "length (the (manifest_file files')) \<le> MAX_MANIFEST_BYTES"
  shows "read_snapshot lib files' generation contract = Ok (sort projection, ds, s)"
proof -
  obtain p c' l plaintext files1 artifact bytes where
    v: "canonical_projection projection = Ok (sort projection)" "validate_documents contract (sort projection) ds = Ok ()"
    and dig: "vector_projection_digest (lib_sha lib) (sort projection) = Ok p" "coverage_digest (lib_sha lib) ds = Ok c'"
      "logical_content_digest (lib_sha lib) contract (sort projection) ds = Ok l"
    and pj: "lib_to_json lib (payload_json generation contract (sort projection) ds) = Some plaintext"
    and wp: "write_encrypted_payload lib rk rn plaintext files = (files1, Ok artifact)"
    and s: "s = from_contents generation contract (sort projection) ds p c' l artifact"
    and mj: "lib_to_json lib (manifest_json s) = Some bytes" and f': "files' = files1\<lparr>manifest_file := Some (bytes @ [10])\<rparr>"
    by (rule write_snapshot_Ok [OF w])
  have size': "length (bytes @ [10]) \<le> MAX_MANIFEST_BYTES" using size by (simp add: f')
  have contract: "validate_contract contract = Ok ()" and nodocs: "contract = ContractDisabled \<Longrightarrow> ds = []"
    using v(2) by (auto simp: validate_documents_Ok)
  obtain m1 m2 m3 m4 where digests: "p = content_digest (lib_sha lib) m1" "c' = content_digest (lib_sha lib) m2"
    "l = content_digest (lib_sha lib) m3" "artifact = content_digest (lib_sha lib) m4"
    using content_digests [OF dig] payload_is_kept(2) [OF wp r c refl refl] by blast
  have manifest: "decode_manifest_metadata lib (bytes @ [10]) generation contract = Ok s"
    using manifest_is_read [OF j mj size', where sha = "lib_sha lib"] contract nodocs digests h
      document_count_le_projection [OF v(2)] card_image_le [of "set ds" vec_document_id] card_length [of ds]
    by (force simp: s from_contents_def)
  have payload: "read_encrypted_payload lib files' artifact = Ok plaintext"
    by (rule payload_is_kept(1) [OF wp r c]) (simp_all add: f')
  obtain val where val: "lib_from_json lib plaintext = Some val"
    "json_close (payload_json generation contract (sort projection) ds) val"
    using j pj by (auto simp: json_reads_back_def)
  obtain pl entries vectors where pl: "as_object val = Some pl"
    "ensure_exact_keys pl [''schema_version'', ''generation'', ''model_id'', ''dimension'', ''active_projection'', ''vectors''] = Ok ()"
    "string_field pl ''schema_version'' = Ok (lit ''vector.payload.v4'')" "string_field pl ''generation'' = Ok (lit generation)"
    "parse_model_contract pl = Ok contract"
    "Option.bind (map_of pl ''active_projection'') as_array = Some entries" "traverse parse_projection_entry entries = Ok (sort projection)"
    "Option.bind (map_of pl ''vectors'') as_array = Some vectors" "traverse parse_document vectors = Ok ds"
    by (rule payload_fields [OF val(2) v(2) d])
  have canon: "canonical_projection (sort projection) = Ok (sort projection)"
    using v(2) by (simp add: canonical_projection_def validate_documents_Ok validate_projection_def from_pairs_message_def sorted_sort_id)
  have read: "read_private_bytes_bounded (manifest_file files') MAX_MANIFEST_BYTES = Ok (bytes @ [10])"
    using size' by (simp add: read_private_bytes_bounded_def f')
  have fields: "vs_artifact_digest s = artifact" "vs_projection_digest s = p" "vs_coverage_digest s = c'"
    "vs_logical_content_digest s = l" by (simp_all add: s from_contents_def)
  show ?thesis
    by (simp add: read_snapshot_def contract read manifest fields payload val(1) pl staging_def canon v(2) dig Let_def flip: s)
qed

text \<open>
  C12: A snapshot that was written is read back.  When writing succeeds, reading the files it left, with the
  generation and model contract it was written for, returns the projection in canonical order, the same
  documents bit for bit and the summary that writing returned.  The JSON library may return a neighbour of a
  printed floating-point number; the cast to \<open>f32\<close> absorbs it.  The hypotheses are that the library reads
  back what it printed, that decryption inverts encryption, that the hash has 32 bytes, that the documents
  came from their constructor and that the manifest is within the size its reader accepts.
\<close>

theorem snapshot_round_trip:
  assumes w: "write_snapshot lib rk rn generation contract projection ds files = (files', Ok s)"
    and j: "json_reads_back lib" and c: "cipher_inverts lib" and h: "\<And>m. length (lib_sha lib m) = 32"
    and r: "bytes_of_length KEY_LEN rk" "bytes_of_length NONCE_LEN rn" and d: "list_all vector_document_ok ds"
    and size: "length (the (manifest_file files')) \<le> MAX_MANIFEST_BYTES"
  shows "read_snapshot lib files' generation contract = Ok (sort projection, ds, s)"
  by (rule written_snapshot_is_read [OF assms])

text \<open>A library that knows the two values of one snapshot, and the snapshot it writes.\<close>

definition sample_contract :: vector_model_contract where
  "sample_contract = ContractEnabled (lit ''m'') 2"

definition sample_vector_document :: vector_document where
  "sample_vector_document = \<lparr> vector_id = ''vec_'' @ replicate 32 (hex_digit 0), vec_document_id = sample_document 0,
     vec_resume_version_id = sample_version 0, vec_model_id = lit ''m'', vec_values = [0x3F800000, 1] \<rparr>"

definition sample_summary :: vector_summary where
  "sample_summary = from_contents ''g'' sample_contract [(sample_document 0, sample_version 0)] [sample_vector_document]
     (content_digest (\<lambda>_. replicate 32 0) []) (content_digest (\<lambda>_. replicate 32 0) [])
     (content_digest (\<lambda>_. replicate 32 0) []) (content_digest (\<lambda>_. replicate 32 0) [])"

definition sample_payload :: json where
  "sample_payload = payload_json ''g'' sample_contract [(sample_document 0, sample_version 0)] [sample_vector_document]"

definition sample_libraries :: libraries where
  "sample_libraries = \<lparr> lib_sha = (\<lambda>_. replicate 32 0),
     lib_to_json = (\<lambda>v. if v = sample_payload then Some [3] else if v = manifest_json sample_summary then Some [2] else None),
     lib_from_json = (\<lambda>b. if take 1 b = [3] then Some sample_payload else if take 1 b = [2] then Some (manifest_json sample_summary) else None),
     lib_encrypt = (\<lambda>k n a p. if list_all (\<lambda>b. b < 256) p then Some p else None), lib_decrypt = (\<lambda>k n a c. Some c) \<rparr>"

lemma json_close_refl: "json_close v v"
proof (rule json_value.rel_refl)
  show "number_close n n" for n by (cases n) (simp_all add: within_ulp_def)
qed

lemma sample_libraries_ok: "json_reads_back sample_libraries" "cipher_inverts sample_libraries"
  by (auto simp: json_reads_back_def cipher_inverts_def sample_libraries_def json_close_refl split: if_splits)

lemma sample_pair_ok: "check_pairs {} {} [(sample_document 0, sample_version 0)] = Ok ()"
  by (simp add: sample_ids_valid)

lemma sample_vector_document_ok: "vector_document_ok sample_vector_document"
  "validate_documents sample_contract [(sample_document 0, sample_version 0)] [sample_vector_document] = Ok ()"
proof -
  have hex: "is_lower_hexdigit (hex_digit 0)" by (rule hex_digit_valid) simp
  have model: "validate_model_id (lit ''m'') = Ok ()" by code_simp
  have finite: "f32_is_finite 0x3F800000" "f32_is_finite 1" by (simp_all add: f32_is_finite_def)
  show "vector_document_ok sample_vector_document"
    using hex model finite
    by (simp add: vector_document_ok_def sample_vector_document_def new_vector_document_def validate_vector_stable_id_def validate_values_def
        sample_document_def sample_version_def list_all_iff)
  show "validate_documents sample_contract [(sample_document 0, sample_version 0)] [sample_vector_document] = Ok ()"
    using model finite sample_pair_ok
    by (simp add: validate_documents_Ok sample_vector_document_def sample_contract_def MAX_VECTOR_DIMENSION_def)
qed

lemma sample_printed:
  "lib_to_json sample_libraries (payload_json ''g'' sample_contract [(sample_document 0, sample_version 0)] [sample_vector_document]) = Some [3]"
  "lib_to_json sample_libraries (manifest_json sample_summary) = Some [2]"
proof -
  have "manifest_json sample_summary \<noteq> sample_payload"
  proof
    assume "manifest_json sample_summary = sample_payload"
    then have "length (the (as_object (manifest_json sample_summary))) = length (the (as_object sample_payload))" by simp
    then show False
      by (simp add: manifest_json_def sample_payload_def payload_json_def json_object_def model_fields_def
          split: vector_model_contract.splits)
  qed
  then show "lib_to_json sample_libraries (manifest_json sample_summary) = Some [2]" by (simp add: sample_libraries_def)
qed (simp add: sample_libraries_def sample_payload_def)

lemma sample_content_digests:
  "canonical_projection [(sample_document 0, sample_version 0)] = Ok [(sample_document 0, sample_version 0)]"
  "vector_projection_digest (lib_sha sample_libraries) [(sample_document 0, sample_version 0)] = Ok (content_digest (\<lambda>_. replicate 32 0) [])"
  "coverage_digest (lib_sha sample_libraries) [sample_vector_document] = Ok (content_digest (\<lambda>_. replicate 32 0) [])"
  "logical_content_digest (lib_sha sample_libraries) sample_contract [(sample_document 0, sample_version 0)] [sample_vector_document]
     = Ok (content_digest (\<lambda>_. replicate 32 0) [])"
  using sample_pair_ok
  by (simp_all add: canonical_projection_def validate_projection_def vector_projection_digest_def coverage_digest_def
      logical_content_digest_def from_pairs_def from_pairs_message_def sample_vector_document_def sample_libraries_def content_digest_def Let_def)

lemma sample_payload_written:
  "write_encrypted_payload sample_libraries (Some (replicate 32 7)) (Some (replicate 24 9)) [3]
     \<lparr> manifest_file = None, snapshot_file = None, key_file = None \<rparr> =
   (\<lparr> manifest_file = None, snapshot_file = Some (encrypted_text (replicate 24 9) [3]),
      key_file = Some (lit (hex_bytes (replicate 32 7)) @ [10]) \<rparr>, Ok (content_digest (\<lambda>_. replicate 32 0) []))"
  by (simp add: write_encrypted_payload_def load_or_create_key_def sr_bind_def sr_lift_def sample_libraries_def Let_def content_digest_def)

lemma sample_is_written:
  "write_snapshot sample_libraries (Some (replicate 32 7)) (Some (replicate 24 9)) ''g'' sample_contract
     [(sample_document 0, sample_version 0)] [sample_vector_document] \<lparr> manifest_file = None, snapshot_file = None, key_file = None \<rparr> =
   (\<lparr> manifest_file = Some [2, 10], snapshot_file = Some (encrypted_text (replicate 24 9) [3]),
      key_file = Some (lit (hex_bytes (replicate 32 7)) @ [10]) \<rparr>, Ok sample_summary)"
  unfolding write_snapshot_def sample_content_digests sr_bind_return sample_vector_document_ok(2) sample_printed(1) ok_or.simps
  by (simp add: sr_bind_def sample_payload_written write_manifest_def sr_lift_def sr_return_def sample_printed(2) Let_def
      flip: sample_summary_def)

lemma sample_hash: "length (lib_sha sample_libraries m) = 32"
  by (simp add: sample_libraries_def)

lemma sample_random: "bytes_of_length KEY_LEN (Some (replicate 32 7))" "bytes_of_length NONCE_LEN (Some (replicate 24 9))"
  by (simp_all add: bytes_of_length_def KEY_LEN_def NONCE_LEN_def list_all_iff)

theorem snapshot_round_trip_witness:
  "\<exists>files. write_snapshot sample_libraries (Some (replicate 32 7)) (Some (replicate 24 9)) ''g'' sample_contract
       [(sample_document 0, sample_version 0)] [sample_vector_document] \<lparr> manifest_file = None, snapshot_file = None, key_file = None \<rparr>
       = (files, Ok sample_summary) \<and>
     read_snapshot sample_libraries files ''g'' sample_contract =
       Ok ([(sample_document 0, sample_version 0)], [sample_vector_document], sample_summary)"
proof -
  have "sort [(sample_document 0, sample_version 0)] = [(sample_document 0, sample_version 0)]" by simp
  then show ?thesis
    using sample_is_written snapshot_round_trip [OF sample_is_written sample_libraries_ok sample_hash sample_random]
    by (simp add: sample_vector_document_ok(1) MAX_MANIFEST_BYTES_def)
qed

section \<open>Integrity\<close>

lemma sample_is_read:
  "read_snapshot sample_libraries \<lparr> manifest_file = Some [2, 10], snapshot_file = Some (encrypted_text (replicate 24 9) [3]),
      key_file = Some (lit (hex_bytes (replicate 32 7)) @ [10]) \<rparr> ''g'' sample_contract =
   Ok ([(sample_document 0, sample_version 0)], [sample_vector_document], sample_summary)"
proof -
  have "sort [(sample_document 0, sample_version 0)] = [(sample_document 0, sample_version 0)]" by simp
  then show ?thesis
    using written_snapshot_is_read [OF sample_is_written sample_libraries_ok sample_hash sample_random]
    by (simp add: sample_vector_document_ok(1) MAX_MANIFEST_BYTES_def)
qed

lemma parsed_document_ok: "parse_document v = Ok d \<Longrightarrow> vector_document_ok d"
  by (auto simp: parse_document_def vector_document_ok_def new_vector_document_def result_simps)

lemma decoded_manifest:
  "decode_manifest_metadata lib bytes generation expected = Ok m \<Longrightarrow> vs_generation m = generation \<and> vs_model_contract m = expected"
  by (auto simp: decode_manifest_metadata_def result_simps split: if_splits)

lemma staging_Ok [simp]: "staging r = Inr x \<longleftrightarrow> r = Inr x"
  by (simp add: staging_def)

lemma read_private_bytes_bounded_Ok: "read_private_bytes_bounded file limit = Inr bytes \<Longrightarrow> file = Some bytes"
  by (auto simp: read_private_bytes_bounded_def result_simps split: if_splits)

lemma read_snapshot_Ok:
  assumes "read_snapshot lib files generation expected = Ok (ps, ds, s)"
  obtains bytes m plaintext vectors pairs where "manifest_file files = Some bytes"
    "decode_manifest_metadata lib bytes generation expected = Ok m"
    "read_encrypted_payload lib files (vs_artifact_digest m) = Ok plaintext"
    "ps = sort pairs" "traverse parse_document vectors = Ok ds" "validate_documents expected ps ds = Ok ()"
    "vector_projection_digest (lib_sha lib) ps = Ok (vs_projection_digest m)"
    "coverage_digest (lib_sha lib) ds = Ok (vs_coverage_digest m)"
    "logical_content_digest (lib_sha lib) expected ps ds = Ok (vs_logical_content_digest m)"
    "s = from_contents generation expected ps ds (vs_projection_digest m) (vs_coverage_digest m)
        (vs_logical_content_digest m) (vs_artifact_digest m)"
    "vs_vector_count m = vs_vector_count s" "vs_projection_count m = vs_projection_count s"
    "vs_vector_document_count m = vs_vector_document_count s"
  using assms unfolding read_snapshot_def canonical_projection_def
  by (auto simp: result_simps Let_def split: if_splits dest!: read_private_bytes_bounded_Ok)

text \<open>
  C13: A snapshot that can be read is intact.  Whenever reading succeeds, the returned projection is in
  canonical order, the returned documents are valid for it and for the expected model contract, and the
  returned summary is exactly the one its manifest states: its projection, coverage and content digests are
  those of the returned content, its counts are the numbers of entries, vectors and documents of that content,
  and its artifact digest is that of the encrypted file.
\<close>

theorem readable_snapshot_is_intact:
  assumes "read_snapshot lib files generation expected = Ok (ps, ds, s)"
  shows "sorted ps \<and> validate_documents expected ps ds = Ok () \<and> list_all vector_document_ok ds \<and>
    vector_projection_digest (lib_sha lib) ps = Ok (vs_projection_digest s) \<and>
    coverage_digest (lib_sha lib) ds = Ok (vs_coverage_digest s) \<and>
    logical_content_digest (lib_sha lib) expected ps ds = Ok (vs_logical_content_digest s) \<and>
    vs_vector_count s = length ds \<and> vs_projection_count s = length ps \<and>
    vs_vector_document_count s = card (vec_document_id ` set ds) \<and>
    (\<exists>manifest artifact. manifest_file files = Some manifest \<and> decode_manifest_metadata lib manifest generation expected = Ok s \<and>
       snapshot_file files = Some artifact \<and> content_digest (lib_sha lib) artifact = vs_artifact_digest s)"
proof -
  obtain bytes m plaintext vectors pairs where b: "manifest_file files = Some bytes"
    and m: "decode_manifest_metadata lib bytes generation expected = Ok m"
    and e: "read_encrypted_payload lib files (vs_artifact_digest m) = Ok plaintext"
    and ps: "ps = sort pairs" and t: "traverse parse_document vectors = Ok ds" and v: "validate_documents expected ps ds = Ok ()"
    and d: "vector_projection_digest (lib_sha lib) ps = Ok (vs_projection_digest m)"
      "coverage_digest (lib_sha lib) ds = Ok (vs_coverage_digest m)"
      "logical_content_digest (lib_sha lib) expected ps ds = Ok (vs_logical_content_digest m)"
    and s: "s = from_contents generation expected ps ds (vs_projection_digest m) (vs_coverage_digest m)
        (vs_logical_content_digest m) (vs_artifact_digest m)"
    and n: "vs_vector_count m = vs_vector_count s" "vs_projection_count m = vs_projection_count s"
      "vs_vector_document_count m = vs_vector_document_count s"
    by (rule read_snapshot_Ok [OF assms])
  have "s = m" using decoded_manifest [OF m] n unfolding s by (cases m) (simp add: from_contents_def)
  moreover have "list_all vector_document_ok ds"
    using t parsed_document_ok by (auto simp: traverse_Inr_iff list_all_length list_all2_conv_all_nth)
  moreover have "\<exists>artifact. snapshot_file files = Some artifact \<and> content_digest (lib_sha lib) artifact = vs_artifact_digest m"
    using e by (auto simp: read_encrypted_payload_def read_private_bytes_def result_simps split: if_splits)
  moreover have "vs_vector_count s = length ds" "vs_projection_count s = length ps"
    "vs_vector_document_count s = card (vec_document_id ` set ds)" by (simp_all add: s from_contents_def)
  ultimately show ?thesis using b m ps v d by simp
qed

theorem readable_snapshot_is_intact_witness:
  "\<exists>files s. read_snapshot sample_libraries files ''g'' sample_contract = Ok ([(sample_document 0, sample_version 0)], [sample_vector_document], s) \<and>
     validate_documents sample_contract [(sample_document 0, sample_version 0)] [sample_vector_document] = Ok () \<and>
     coverage_digest (lib_sha sample_libraries) [sample_vector_document] = Ok (vs_coverage_digest s) \<and> vs_vector_count s = 1"
  using readable_snapshot_is_intact [OF sample_is_read] sample_is_read by auto

section \<open>Updates\<close>







end
