(* ===== verification/Spec2Isabelle.thy ===== *)
theory Spec2Isabelle
  imports RestartPolicy Supervisor QueryCoordinator Admission ContentIdentity PublicationIdentity TextNormalizer Sectionizer EmbeddingRuntime ControlPlane VectorTheorems
begin

text \<open>
  Verification of a local resume index: a desktop application that supervises a daemon, a daemon
  that keeps a metadata store and search artifacts and serves queries over HTTP, and a resident process
  that computes embeddings.

  \<^bold>\<open>The parts and how they interact.\<close>  The desktop starts the daemon, watches it by heartbeats and restarts it
  under a policy; its requests pass a bridge with bounded lanes.  The daemon shows its health in a
  control-plane snapshot, admits queries within bounds and runs each on the generation that
  the head of the metadata store names.  Imports publish new generations in that store by a protocol
  of begin, validate and commit; a broken artifact is repaired in bounded attempts; a change of the
  processing contract is a writer transition.  Documents are normalised and cut into sections, whose texts
  the resident process embeds, asked by an owner thread over a framed pipe.

  \<^bold>\<open>The theories.\<close>  Each is named with the sources under \<open>src/\<close> that it models.
  \<^item> \<open>Prelude\<close>: results, traversal, saturating arithmetic, reachability, and the interface locales \<open>safety\<close> (an
    inductive invariant), \<open>simulation\<close> (a step-by-step refinement) and \<open>indexed_counters\<close>; every component with
    steps interprets them on its own relation.  \<open>RustText\<close> and \<open>RustStr\<close>: strings of the language as lists of
    Unicode scalar values with their UTF-8 lengths, and the operations the sources call on them.
  \<^item> \<open>RestartPolicy\<close> and \<open>Supervisor\<close> (\<open>apps/desktop/src-tauri\<close>, restart policy and daemon supervisor): the windowed
    failure history and circuit breaker, and the supervisor as a transition system.  Shown: the rate of automatic
    restarts, the breaker, that the published identity is that of the live child.
  \<^item> \<open>SearchModel\<close> and \<open>QueryCoordinator\<close> (\<open>crates/search-runtime\<close>): the head read in a transaction, the reader
    caches, activation and queries.  Shown: a query runs on the head's generation, activation is atomic, residency.
  \<^item> \<open>Health\<close> (\<open>crates/daemon-contract/src/health.rs\<close>): health documents, the capability matrix and the contract check.
  \<^item> \<open>WriterTransition\<close> (\<open>writer_transition_store.rs\<close>, \<open>upgrade_coordinator.rs\<close>, \<open>ipc/writer_health.rs\<close>): the authority row
    and the persisted transition.  Shown: a commit is a complete cut, a blocked transition resumes.
  \<^item> \<open>Admission\<close> (\<open>ipc/search_service/admission.rs\<close>, \<open>bridge_admission.rs\<close>): 64-bit atomic counters under every
    interleaving of their atomic operations.  Shown: bounds, no wrap-around, no leaked permit.
  \<^item> \<open>ContentIdentity\<close> and \<open>PublicationIdentity\<close>: canonical bytes of identities, digests and fingerprints; the hash is an
    argument.  Shown: equal bytes mean equal content, and generated identities parse.
  \<^item> \<open>Publication\<close>, \<open>PublicationStore\<close>, \<open>PublicationOps\<close>, \<open>ArtifactRepair\<close> (\<open>crates/meta-store/src/search_publication\<close>,
    \<open>artifact_repair_*.rs\<close>, \<open>migration_rebuild_*.rs\<close>): the tables as a record and one definition per operation;
    \<open>PublicationInvariant\<close> and \<open>PublicationSafety\<close> prove the invariant of every operation and the refinement of a
    register written by compare-and-swap; \<open>PublicationSample\<close> is a concrete run; \<open>PublicationTheorems\<close> holds the
    properties.
  \<^item> \<open>TextNormalizer\<close> (\<open>crates/text-normalizer\<close>) and \<open>Sectionizer\<close> (\<open>crates/sectionizer\<close>): both normalizers, their
    agreement, idempotence and the tracing of clean bytes to source bytes; sections and bounded chunks that
    lose no visible character.
  \<^item> \<open>EmbeddingProtocol\<close> (\<open>crates/embedding-protocol\<close>), \<open>ResidentOwner\<close> (\<open>crates/embedder/src/resident.rs\<close>) and
    \<open>EmbeddingRuntime\<close> (\<open>crates/embedding-runtime/src/main.rs\<close>): messages, framing over a stream of read events, the
    owner thread and the serving process.  Shown: frames round trip, reads and supervisor passes return,
    every request is answered once, and process and owner agree.
  \<^item> \<open>ControlPlane\<close> (\<open>crates/daemon/src/ipc\<close>: \<open>runtime_state.rs\<close>, \<open>status_updater.rs\<close>, \<open>runtime_health.rs\<close>, \<open>routes/status.rs\<close>,
    \<open>diagnostics.rs\<close>, and \<open>bootstrap.rs\<close>): the snapshot and its publisher, composed with the publication store, the
    writer authority and the status of the embedding owner.  Shown: the visible health is always valid and never
    claims a search that was not possible, a refresh tells the truth, a failed refresh fails closed.

  \<^item> \<open>VectorSnapshot\<close> (\<open>crates/index-vector/src\<close>: \<open>codec.rs\<close>, \<open>model.rs\<close>, \<open>snapshot_model.rs\<close>, \<open>snapshot_identity.rs\<close>,
    \<open>private_storage.rs\<close>) and \<open>VectorTheorems\<close>: the encrypted vector snapshot, its manifest and key as the bytes of three
    files, with the casts between \<open>f32\<close> and \<open>f64\<close> on bit patterns, and the update that derives the next generation.
    Shown: what was written is read back, what can be read is intact, an update keeps a generation valid.

  \<^bold>\<open>Loops and bounds.\<close>  No definition has fuel.  Loops over data are recursion on the data or on a measure; the loops
  that wait for an outside event (reads of a pipe, polls of a child, the serving loop) are partial functions on
  an infinite stream of events, whose value \<open>None\<close> is not returning, and that they return is proved: for reads
  under the hypothesis that interruptions end, for polls under the hypothesis that the clock goes on.  Machine
  integers are words or carry their bound and wrap-around explicitly.

  \<^bold>\<open>Outside code.\<close>  SHA-256, the JSON library, the cipher, random bytes, the embedding model, SQLite failures, the clock and the operating system
  are arguments or inputs of the definitions; what is needed of them is a named hypothesis of the theorem that
  needs it, with a concrete instance in its witness.

  \<^bold>\<open>Not modelled.\<close>  The command line client, the benchmark runner and the user interface (input and output); the
  import pipeline's file handling, parsers, OCR, crawler and process containment (operating system and external
  programs); the full-text index, extraction rules, classifier and rank fusion (external search libraries,
  regular expressions, floating-point scores); of the vector index the nearest-neighbour search, cancellation,
  permissions and the handling of directories (an external library and the file system); SQL text, schema and migrations;
  the JSON bodies of routes apart from health and visible epoch.
\<close>

end
